(* ===== verification/Ledger_Prelude.thy ===== *)
theory Ledger_Prelude
  imports Complex_Main "HOL-Library.AList"
begin

text \<open>
  Shared vocabulary of the development: the error and state monads in which every operation
  of the ledger is written (a database transaction is a function from the database to a
  result or an exception, and the database afterwards), loops over lists, Python dictionaries
  with their insertion order, and the list lemmas about filtered sums that the balance proofs
  of several components share.
\<close>

named_theorems act "success and failure of the state combinators, as equivalences"
named_theorems keeps_intros "rules that propagate an invariant through an operation"

section \<open>Pure computations that may fail\<close>

fun rbind :: "'e + 'a \<Rightarrow> ('a \<Rightarrow> 'e + 'b) \<Rightarrow> 'e + 'b" where
  "rbind (Inl e) f = Inl e"
| "rbind (Inr x) f = f x"

definition ensure :: "bool \<Rightarrow> 'e \<Rightarrow> 'e + unit" where
  "ensure b e = (if b then Inr () else Inl e)"

text \<open>A \<^verbatim>\<open>for\<close> loop whose body only checks, and one that builds a list.\<close>

fun each :: "('a \<Rightarrow> 'e + unit) \<Rightarrow> 'a list \<Rightarrow> 'e + unit" where
  "each f [] = Inr ()"
| "each f (x # xs) = rbind (f x) (\<lambda>_. each f xs)"

fun rmap :: "('a \<Rightarrow> 'e + 'b) \<Rightarrow> 'a list \<Rightarrow> 'e + 'b list" where
  "rmap f [] = Inr []"
| "rmap f (x # xs) = rbind (f x) (\<lambda>y. rbind (rmap f xs) (\<lambda>ys. Inr (y # ys)))"

text \<open>Checks made in order, each with the exception its failure raises.\<close>

fun checks :: "(bool \<times> 'e) list \<Rightarrow> 'e + unit" where
  "checks [] = Inr ()"
| "checks ((b, e) # cs) = (if b then checks cs else Inl e)"

declare checks.simps(2) [simp del]

lemma checks_Inr [simp]: "checks cs = Inr u \<longleftrightarrow> (\<forall>(b, e) \<in> set cs. b)"
  by (induction cs rule: checks.induct) (auto simp: checks.simps(2))

lemma checks_Inl: "checks cs = Inl e \<Longrightarrow> (False, e) \<in> set cs"
  by (induction cs rule: checks.induct) (auto simp: checks.simps(2) split: if_splits)

lemma rbind_Inr [simp]: "rbind m f = Inr y \<longleftrightarrow> (\<exists>x. m = Inr x \<and> f x = Inr y)"
  by (cases m) auto

lemma rbind_Inl: "rbind m f = Inl e \<longleftrightarrow> m = Inl e \<or> (\<exists>x. m = Inr x \<and> f x = Inl e)"
  by (cases m) auto

lemma ensure_Inr [simp]: "ensure b e = Inr u \<longleftrightarrow> b"
  by (simp add: ensure_def)

lemma ensure_Inl [simp]: "ensure b e = Inl e' \<longleftrightarrow> \<not> b \<and> e' = e"
  by (auto simp: ensure_def)

lemma each_Inr: "each f xs = Inr u \<longleftrightarrow> (\<forall>x \<in> set xs. f x = Inr ())"
  by (induction xs) auto

lemma each_only_error:
  assumes "x \<in> set xs" and "f x \<noteq> Inr ()" and "\<forall>y \<in> set xs. f y = Inr () \<or> f y = Inl e"
  shows "each f xs = Inl e"
  using assms
proof (induction xs)
  case (Cons y ys)
  show ?case
  proof (cases "f y = Inr ()")
    case True
    then have "x \<in> set ys" using Cons.prems(1,2) by auto
    then have "each f ys = Inl e" using Cons.prems(2,3) by (intro Cons.IH) simp_all
    with True show ?thesis by simp
  next
    case False
    then show ?thesis using Cons.prems(3) by simp
  qed
qed simp

lemma each_Inl: "each f xs = Inl e \<Longrightarrow> \<exists>x \<in> set xs. f x = Inl e"
  by (induction xs) (auto simp: rbind_Inl)

lemma rmap_length: "rmap f xs = Inr ys \<Longrightarrow> length ys = length xs"
  by (induction xs arbitrary: ys) auto

lemma rmap_list_all2: "rmap f xs = Inr ys \<Longrightarrow> list_all2 (\<lambda>x y. f x = Inr y) xs ys"
  by (induction xs arbitrary: ys) auto

lemma rmap_Inl: "rmap f xs = Inl e \<Longrightarrow> \<exists>x \<in> set xs. f x = Inl e"
  by (induction xs) (auto simp: rbind_Inl)

lemma rmap_total: "(\<And>x. x \<in> set xs \<Longrightarrow> f x = Inr (g x)) \<Longrightarrow> rmap f xs = Inr (map g xs)"
  by (induction xs) auto

section \<open>Operations on a state\<close>

type_synonym ('s, 'e, 'a) act = "'s \<Rightarrow> ('e + 'a) \<times> 's"

definition ret :: "'a \<Rightarrow> ('s, 'e, 'a) act" where
  "ret x = (\<lambda>s. (Inr x, s))"

definition raise :: "'e \<Rightarrow> ('s, 'e, 'a) act" where
  "raise e = (\<lambda>s. (Inl e, s))"

definition bind_act :: "('s, 'e, 'a) act \<Rightarrow> ('a \<Rightarrow> ('s, 'e, 'b) act) \<Rightarrow> ('s, 'e, 'b) act" where
  "bind_act m f = (\<lambda>s. case m s of (Inl e, s') \<Rightarrow> (Inl e, s') | (Inr x, s') \<Rightarrow> f x s')"

text \<open>A query: a value, or an exception, computed from the state.\<close>

definition query :: "('s \<Rightarrow> 'e + 'a) \<Rightarrow> ('s, 'e, 'a) act" where
  "query f = (\<lambda>s. (f s, s))"

definition modify :: "('s \<Rightarrow> 's) \<Rightarrow> ('s, 'e, unit) act" where
  "modify f = (\<lambda>s. (Inr (), f s))"

text \<open>
  \<^verbatim>\<open>with transaction.atomic():\<close> an exception that leaves the block rolls every
  write of the block back.
\<close>

definition atomic :: "('s, 'e, 'a) act \<Rightarrow> ('s, 'e, 'a) act" where
  "atomic m = (\<lambda>s. case m s of (Inl e, _) \<Rightarrow> (Inl e, s) | (Inr x, s') \<Rightarrow> (Inr x, s'))"

text \<open>\<^verbatim>\<open>try: m except: h\<close>, the handler seeing the exception.\<close>

definition handle :: "('s, 'e, 'a) act \<Rightarrow> ('e \<Rightarrow> ('s, 'e, 'a) act) \<Rightarrow> ('s, 'e, 'a) act" where
  "handle m h = (\<lambda>s. case m s of (Inl e, s') \<Rightarrow> h e s' | (Inr x, s') \<Rightarrow> (Inr x, s'))"

fun each_act :: "('a \<Rightarrow> ('s, 'e, unit) act) \<Rightarrow> 'a list \<Rightarrow> ('s, 'e, unit) act" where
  "each_act f [] = ret ()"
| "each_act f (x # xs) = bind_act (f x) (\<lambda>_. each_act f xs)"

lemma ret_iff [act]: "ret x s = (r, s') \<longleftrightarrow> r = Inr x \<and> s' = s"
  by (auto simp: ret_def)

lemma raise_iff [act]: "raise e s = (r, s') \<longleftrightarrow> r = Inl e \<and> s' = s"
  by (auto simp: raise_def)

lemma query_iff [act]: "query f s = (r, s') \<longleftrightarrow> f s = r \<and> s' = s"
  by (auto simp: query_def)

lemma modify_iff [act]: "modify f s = (r, s') \<longleftrightarrow> r = Inr () \<and> s' = f s"
  by (auto simp: modify_def)

lemma bind_act_Inr [act]:
  "bind_act m f s = (Inr y, s') \<longleftrightarrow> (\<exists>x s1. m s = (Inr x, s1) \<and> f x s1 = (Inr y, s'))"
  by (auto simp: bind_act_def split: prod.splits sum.splits)

lemma bind_act_Inl [act]:
  "bind_act m f s = (Inl e, s') \<longleftrightarrow>
     m s = (Inl e, s') \<or> (\<exists>x s1. m s = (Inr x, s1) \<and> f x s1 = (Inl e, s'))"
  by (auto simp: bind_act_def split: prod.splits sum.splits)

lemma atomic_Inr [act]: "atomic m s = (Inr x, s') \<longleftrightarrow> m s = (Inr x, s')"
  by (auto simp: atomic_def split: prod.splits sum.splits)

lemma atomic_Inl [act]: "atomic m s = (Inl e, s') \<longleftrightarrow> s' = s \<and> (\<exists>s1. m s = (Inl e, s1))"
  by (auto simp: atomic_def split: prod.splits sum.splits)

lemma handle_Inr [act]:
  "handle m h s = (Inr x, s') \<longleftrightarrow>
     m s = (Inr x, s') \<or> (\<exists>e s1. m s = (Inl e, s1) \<and> h e s1 = (Inr x, s'))"
  by (auto simp: handle_def split: prod.splits sum.splits)

lemma handle_Inl [act]:
  "handle m h s = (Inl e, s') \<longleftrightarrow> (\<exists>e1 s1. m s = (Inl e1, s1) \<and> h e1 s1 = (Inl e, s'))"
  by (auto simp: handle_def split: prod.splits sum.splits)

subsection \<open>Invariants of operations\<close>

text \<open>
  \<open>keeps P m\<close>: whatever the operation does, and whether it raises or returns, a state
  that satisfies \<open>P\<close> is left satisfying \<open>P\<close>.
\<close>

definition keeps :: "('s \<Rightarrow> bool) \<Rightarrow> ('s, 'e, 'a) act \<Rightarrow> bool" where
  "keeps P m \<longleftrightarrow> (\<forall>s r s'. P s \<longrightarrow> m s = (r, s') \<longrightarrow> P s')"

lemma keepsI: "(\<And>s r s'. P s \<Longrightarrow> m s = (r, s') \<Longrightarrow> P s') \<Longrightarrow> keeps P m"
  by (auto simp: keeps_def)

lemma keepsD: "keeps P m \<Longrightarrow> P s \<Longrightarrow> m s = (r, s') \<Longrightarrow> P s'"
  by (auto simp: keeps_def)

lemma keeps_ret [keeps_intros]: "keeps P (ret x)"
  and keeps_raise [keeps_intros]: "keeps P (raise e)"
  and keeps_query [keeps_intros]: "keeps P (query f)"
  by (auto simp: keeps_def act)

lemma keeps_bind [keeps_intros]:
  assumes "keeps P m" and "\<And>x. keeps P (f x)"
  shows "keeps P (bind_act m f)"
proof (rule keepsI)
  fix s r s' assume P: "P s" and r: "bind_act m f s = (r, s')"
  obtain r1 s1 where m: "m s = (r1, s1)" by fastforce
  with assms(1) P have "P s1" by (rule keepsD)
  then show "P s'"
    using r m assms(2) by (cases r1) (auto simp: bind_act_def dest: keepsD)
qed

lemma keeps_atomic [keeps_intros]: "keeps P m \<Longrightarrow> keeps P (atomic m)"
  by (rule keepsI) (auto simp: atomic_def split: prod.splits sum.splits dest: keepsD)

lemma keeps_atomicI:
  assumes "\<And>s x s'. P s \<Longrightarrow> m s = (Inr x, s') \<Longrightarrow> P s'"
  shows "keeps P (atomic m)"
  using assms by (auto simp: keeps_def atomic_def split: prod.splits sum.splits)

lemma keeps_handle [keeps_intros]:
  assumes "keeps P m" and "\<And>e. keeps P (h e)"
  shows "keeps P (handle m h)"
proof (rule keepsI)
  fix s r s' assume P: "P s" and r: "handle m h s = (r, s')"
  obtain r1 s1 where m: "m s = (r1, s1)" by fastforce
  with assms(1) P have "P s1" by (rule keepsD)
  then show "P s'"
    using r m assms(2) by (cases r1) (auto simp: handle_def dest: keepsD)
qed

lemma keeps_each [keeps_intros]: "(\<And>x. x \<in> set xs \<Longrightarrow> keeps P (f x)) \<Longrightarrow> keeps P (each_act f xs)"
  by (induction xs) (auto intro: keeps_intros)

lemma keeps_if [keeps_intros]: "(b \<Longrightarrow> keeps P m) \<Longrightarrow> (\<not> b \<Longrightarrow> keeps P n) \<Longrightarrow> keeps P (if b then m else n)"
  by simp

lemma keeps_conj: "keeps P m \<Longrightarrow> keeps Q m \<Longrightarrow> keeps (\<lambda>s. P s \<and> Q s) m"
  by (auto simp: keeps_def)

section \<open>Sums over filtered lists\<close>

lemma list_all2_mem2: "list_all2 R xs ys \<Longrightarrow> y \<in> set ys \<Longrightarrow> \<exists>x \<in> set xs. R x y"
  by (induction rule: list_all2_induct) auto

lemma list_all2_mem1: "list_all2 R xs ys \<Longrightarrow> x \<in> set xs \<Longrightarrow> \<exists>y \<in> set ys. R x y"
  by (induction rule: list_all2_induct) auto

lemma sum_list_all2:
  fixes f :: "'a \<Rightarrow> rat"
  assumes "list_all2 R xs ys" and "\<And>x y. R x y \<Longrightarrow> P x = Q y \<and> f x = g y"
  shows "sum_list (map f (filter P xs)) = sum_list (map g (filter Q ys))"
  using assms(1) by (induction rule: list_all2_induct) (auto simp: assms(2))

lemma sum_list_filter_split:
  fixes f :: "'a \<Rightarrow> rat"
  shows "sum_list (map f xs) = sum_list (map f (filter P xs)) + sum_list (map f (filter (\<lambda>x. \<not> P x) xs))"
  by (induction xs) auto

lemma sum_list_filter_if:
  fixes f :: "'a \<Rightarrow> rat"
  shows "sum_list (map f (filter P xs)) = sum_list (map (\<lambda>x. if P x then f x else 0) xs)"
  by (induction xs) auto

lemma sum_list_signed:
  fixes f :: "'a \<Rightarrow> rat"
  shows "sum_list (map (\<lambda>x. if P x then f x else - f x) xs) =
    sum_list (map f (filter P xs)) - sum_list (map f (filter (\<lambda>x. \<not> P x) xs))"
  by (induction xs) auto

text \<open>A sum over all rows is the sum, over the groups, of the groups' sums.\<close>

lemma sum_list_group:
  fixes f :: "'a \<Rightarrow> rat"
  assumes "finite K" and "\<And>x. x \<in> set xs \<Longrightarrow> g x \<in> K"
  shows "sum_list (map f xs) = (\<Sum>k \<in> K. sum_list (map f (filter (\<lambda>x. g x = k) xs)))"
  using assms(2)
proof (induction xs)
  case (Cons x xs)
  have "(\<Sum>k \<in> K. sum_list (map f (filter (\<lambda>y. g y = k) (x # xs)))) =
    (\<Sum>k \<in> K. (if g x = k then f x else 0) + sum_list (map f (filter (\<lambda>y. g y = k) xs)))"
    by (rule sum.cong) auto
  also have "\<dots> = f x + sum_list (map f xs)"
    using Cons assms(1) by (simp add: sum.distrib)
  finally show ?case by simp
qed simp

lemma find_append:
  "find P (xs @ ys) = (case find P xs of None \<Rightarrow> find P ys | Some x \<Rightarrow> Some x)"
  by (induction xs) auto

lemma find_SomeD: "find P xs = Some x \<Longrightarrow> x \<in> set xs \<and> P x"
  by (induction xs) (auto split: if_splits)

lemma find_None_key: "find (\<lambda>x. f x = k) xs = None \<longleftrightarrow> k \<notin> set (map f xs)"
  by (auto simp: find_None_iff)

lemma find_distinct:
  "distinct (map f xs) \<Longrightarrow> x \<in> set xs \<Longrightarrow> f x = k \<Longrightarrow> find (\<lambda>y. f y = k) xs = Some x"
  by (induction xs) (auto simp: image_iff)

lemma filter_distinct_unique:
  "distinct (map f xs) \<Longrightarrow> x \<in> set xs \<Longrightarrow> f x = k \<Longrightarrow> filter (\<lambda>y. f y = k) xs = [x]"
proof (induction xs)
  case (Cons y ys)
  show ?case
  proof (cases "f y = k")
    case True
    with Cons.prems have "y = x" by (auto simp: image_iff)
    moreover have "filter (\<lambda>z. f z = k) ys = []"
      using Cons.prems True by (auto simp: filter_empty_conv image_iff)
    ultimately show ?thesis using True by simp
  next
    case False
    with Cons show ?thesis by auto
  qed
qed simp

section \<open>Ordered dictionaries\<close>

text \<open>
  A Python \<^verbatim>\<open>dict\<close> as the list of its items in insertion order; \<open>dict_add\<close> is
  \<^verbatim>\<open>d[k] += v\<close> on a \<^verbatim>\<open>defaultdict(Decimal)\<close>.
\<close>

primrec dict_add :: "'k \<Rightarrow> rat \<Rightarrow> ('k \<times> rat) list \<Rightarrow> ('k \<times> rat) list" where
  "dict_add k v [] = [(k, v)]"
| "dict_add k v (p # ps) = (if fst p = k then (k, snd p + v) # ps else p # dict_add k v ps)"

definition dict_get :: "('k \<times> rat) list \<Rightarrow> 'k \<Rightarrow> rat" where
  "dict_get d k = (case map_of d k of None \<Rightarrow> 0 | Some v \<Rightarrow> v)"

lemma dict_add_keys: "fst ` set (dict_add k v d) = insert k (fst ` set d)"
  by (induction d) auto

lemma dict_add_distinct: "distinct (map fst d) \<Longrightarrow> distinct (map fst (dict_add k v d))"
proof (induction d)
  case (Cons p d)
  then show ?case using dict_add_keys [of k v d] by auto
qed simp

lemma dict_get_add: "dict_get (dict_add k v d) k' = dict_get d k' + (if k' = k then v else 0)"
  by (induction d) (auto simp: dict_get_def split: if_splits)

lemma dict_get_item: "distinct (map fst d) \<Longrightarrow> (k, v) \<in> set d \<Longrightarrow> dict_get d k = v"
  by (simp add: dict_get_def)

lemma dict_get_missing: "k \<notin> fst ` set d \<Longrightarrow> dict_get d k = 0"
  by (simp add: dict_get_def map_of_eq_None_iff [symmetric])

text \<open>A loop of \<^verbatim>\<open>d[key(x)] += val(x)\<close> over the items that pass a test.\<close>

definition dict_sum :: "('a \<Rightarrow> bool) \<Rightarrow> ('a \<Rightarrow> 'k) \<Rightarrow> ('a \<Rightarrow> rat) \<Rightarrow> 'a list \<Rightarrow> ('k \<times> rat) list" where
  "dict_sum P key val xs = foldl (\<lambda>d x. if P x then dict_add (key x) (val x) d else d) [] xs"

lemma dict_get_foldl:
  "dict_get (foldl (\<lambda>d x. if P x then dict_add (key x) (val x) d else d) d0 xs) k =
     dict_get d0 k + sum_list (map val (filter (\<lambda>x. P x \<and> key x = k) xs))"
  by (induction xs arbitrary: d0) (auto simp: dict_get_add)

lemma dict_get_sum: "dict_get (dict_sum P key val xs) k = sum_list (map val (filter (\<lambda>x. P x \<and> key x = k) xs))"
  unfolding dict_sum_def dict_get_foldl by (simp add: dict_get_def)

lemma dict_sum_distinct: "distinct (map fst (dict_sum P key val xs))"
proof -
  have "distinct (map fst d0) \<Longrightarrow>
    distinct (map fst (foldl (\<lambda>d x. if P x then dict_add (key x) (val x) d else d) d0 xs))" for d0
    by (induction xs arbitrary: d0) (auto simp: dict_add_distinct)
  from this [of "[]"] show ?thesis by (simp add: dict_sum_def)
qed

end
