(* ===== verification/Decimal_Money.thy ===== *)
theory Decimal_Money
  imports Ledger_Prelude
begin

text \<open>
  Python's \<^verbatim>\<open>Decimal\<close> and PostgreSQL's \<^verbatim>\<open>NUMERIC(p, s)\<close> as the ledger uses
  them. A finite decimal is the rational number it denotes: the code compares decimals
  numerically (\<^verbatim>\<open>Decimal("10") == Decimal("10.00")\<close>), and prints them only after
  \<^verbatim>\<open>quantize\<close>. Sums and differences are exact; they are exact in the code too while
  the result has at most 28 significant digits (\<open>ctx_round_exact\<close> below), far beyond
  \<^verbatim>\<open>NUMERIC(20, 4)\<close>. Products and \<^verbatim>\<open>quantize\<close>, where digits add up,
  carry the precision of their decimal context and its \<^verbatim>\<open>InvalidOperation\<close>.
\<close>

section \<open>Values a caller may pass as an amount\<close>

datatype pynum =
    Decimal rat            \<comment> \<open>a finite \<^verbatim>\<open>Decimal\<close>\<close>
  | NonFinite              \<comment> \<open>\<^verbatim>\<open>Decimal("NaN")\<close>, \<^verbatim>\<open>Decimal("Infinity")\<close>\<close>
  | NotDecimal string      \<comment> \<open>an object of another type: its type's name\<close>

section \<open>Rounding to an integer\<close>

text \<open>\<^verbatim>\<open>ROUND_HALF_EVEN\<close>, the default of Python's decimal contexts.\<close>

definition round_half_even :: "rat \<Rightarrow> int" where
  "round_half_even x =
     (let f = \<lfloor>x\<rfloor>; d = x - of_int f
      in if d < 1/2 then f else if 1/2 < d then f + 1 else if even f then f else f + 1)"

text \<open>PostgreSQL rounds a numeric to its column's scale half away from zero.\<close>

definition round_half_away :: "rat \<Rightarrow> int" where
  "round_half_away x = (if 0 \<le> x then \<lfloor>x + 1/2\<rfloor> else - \<lfloor>1/2 - x\<rfloor>)"

lemma round_half_even_of_int [simp]: "round_half_even (of_int k) = k"
  by (simp add: round_half_even_def)

lemma round_half_away_of_int [simp]: "round_half_away (of_int k) = k"
proof -
  have "\<lfloor>of_int k + (1/2 :: rat)\<rfloor> = k" by (simp add: floor_eq_iff)
  moreover have "\<lfloor>1/2 - (of_int k :: rat)\<rfloor> = - k" by (simp add: floor_eq_iff)
  ultimately show ?thesis by (simp add: round_half_away_def)
qed

lemma round_half_even_error: "\<bar>of_int (round_half_even x) - x\<bar> \<le> 1/2"
proof -
  have "of_int \<lfloor>x\<rfloor> \<le> x" "x < of_int \<lfloor>x\<rfloor> + 1" by linarith+
  then show ?thesis by (auto simp: round_half_even_def Let_def)
qed

text \<open>A multiple of the unit that is closer than half a unit is what rounding returns.\<close>

lemma round_half_even_unique: "\<bar>of_int k - x\<bar> < 1/2 \<Longrightarrow> round_half_even x = k"
proof -
  assume k: "\<bar>of_int k - x\<bar> < 1/2"
  have "\<bar>of_int (round_half_even x) - x\<bar> \<le> 1/2" by (rule round_half_even_error)
  with k have "\<bar>of_int (round_half_even x) - of_int k :: rat\<bar> < 1" by linarith
  then have "\<bar>round_half_even x - k\<bar> < 1"
    by (metis of_int_abs of_int_diff of_int_less_1_iff)
  then show ?thesis by simp
qed

lemma round_half_even_nonneg: "0 \<le> x \<Longrightarrow> 0 \<le> round_half_even x"
proof -
  assume "0 \<le> x"
  then have "0 \<le> \<lfloor>x\<rfloor>" by simp
  then show ?thesis by (auto simp: round_half_even_def Let_def)
qed

section \<open>Decimal places and significant digits\<close>

definition dp :: "nat \<Rightarrow> rat \<Rightarrow> bool" where
  "dp s x \<longleftrightarrow> of_int \<lfloor>x * 10 ^ s\<rfloor> = x * 10 ^ s"

lemma dp_iff: "dp s x \<longleftrightarrow> (\<exists>k. x = of_int k / 10 ^ s)"
proof
  assume "dp s x"
  then have "x = of_int \<lfloor>x * 10 ^ s\<rfloor> / 10 ^ s" by (simp only: dp_def) simp
  then show "\<exists>k. x = of_int k / 10 ^ s" by blast
qed (auto simp: dp_def)

lemma dp_0 [simp]: "dp s 0" by (simp add: dp_def)

lemma dp_add: "dp s x \<Longrightarrow> dp s y \<Longrightarrow> dp s (x + y)"
  unfolding dp_iff by (metis add_divide_distrib of_int_add)

lemma dp_minus: "dp s x \<Longrightarrow> dp s (- x)"
  unfolding dp_iff by (metis minus_divide_left of_int_minus)

lemma dp_diff: "dp s x \<Longrightarrow> dp s y \<Longrightarrow> dp s (x - y)"
  using dp_add [of s x "- y"] dp_minus [of s y] by simp

lemma dp_sum_list: "(\<And>x. x \<in> set xs \<Longrightarrow> dp s (f x)) \<Longrightarrow> dp s (sum_list (map f xs))"
  by (induction xs) (auto intro: dp_add)

lemma dp_mult: "dp s x \<Longrightarrow> dp r y \<Longrightarrow> dp (s + r) (x * y)"
  unfolding dp_iff
  by (metis of_int_mult power_add times_divide_times_eq)

lemma dp_mono: "dp s x \<Longrightarrow> s \<le> r \<Longrightarrow> dp r x"
  using dp_mult [of s x "r - s" 1] by (simp add: dp_def)

fun digits10 :: "nat \<Rightarrow> nat" where
  "digits10 n = (if n = 0 then 0 else Suc (digits10 (n div 10)))"

declare digits10.simps [simp del]

lemma digits10_le: "n < 10 ^ m \<Longrightarrow> digits10 n \<le> m"
proof (induction m arbitrary: n)
  case 0
  then show ?case by (simp add: digits10.simps)
next
  case (Suc m)
  then have "n div 10 < 10 ^ m" by (simp add: less_mult_imp_div_less mult.commute)
  with Suc.IH show ?case by (subst digits10.simps) simp
qed

lemma digits10_pos: "1 \<le> n \<Longrightarrow> 1 \<le> digits10 n"
  by (subst digits10.simps) simp

text \<open>
  Rounding to \<open>p\<close> significant digits, as every operation of a decimal context of
  precision \<open>p\<close> does with its exact result: \<open>ctx_places\<close> is the number of decimal places
  that \<open>p\<close> significant digits of \<open>x\<close> reach.
\<close>

definition ctx_places :: "nat \<Rightarrow> rat \<Rightarrow> int" where
  "ctx_places p x =
     (if 1 \<le> \<bar>x\<bar> then int p - int (digits10 (nat \<lfloor>\<bar>x\<bar>\<rfloor>))
      else int p + int (digits10 (nat (\<lceil>1 / \<bar>x\<bar>\<rceil> - 1))) - 1)"

definition ctx_round :: "nat \<Rightarrow> rat \<Rightarrow> rat" where
  "ctx_round p x =
     (if x = 0 then 0
      else let q = 10 powi ctx_places p x in of_int (round_half_even (x * q)) / q)"

lemma ctx_places_ge:
  assumes "\<bar>x\<bar> < 10 ^ m" and "m + s \<le> p" and "x \<noteq> 0"
  shows "int s \<le> ctx_places p x"
proof (cases "1 \<le> \<bar>x\<bar>")
  case True
  have "of_int \<lfloor>\<bar>x\<bar>\<rfloor> \<le> \<bar>x\<bar>" by simp
  with assms(1) have "of_int \<lfloor>\<bar>x\<bar>\<rfloor> < (of_int (10 ^ m) :: rat)"
    by (simp only: of_int_power of_int_numeral)
  then have "\<lfloor>\<bar>x\<bar>\<rfloor> < 10 ^ m" by (simp only: of_int_less_iff)
  then have "nat \<lfloor>\<bar>x\<bar>\<rfloor> < 10 ^ m"
    by (metis nat_less_numeral_power_cancel_iff)
  then have "digits10 (nat \<lfloor>\<bar>x\<bar>\<rfloor>) \<le> m" by (rule digits10_le)
  with True assms(2) show ?thesis by (simp add: ctx_places_def)
next
  case False
  with assms(3) have "1 < 1 / \<bar>x\<bar>" by simp
  then have "1 < \<lceil>1 / \<bar>x\<bar>\<rceil>" by (simp only: less_ceiling_iff of_int_1)
  then have "1 \<le> nat (\<lceil>1 / \<bar>x\<bar>\<rceil> - 1)" by linarith
  then have "1 \<le> digits10 (nat (\<lceil>1 / \<bar>x\<bar>\<rceil> - 1))" by (rule digits10_pos)
  with False assms(2) show ?thesis by (simp add: ctx_places_def)
qed

text \<open>
  A number with \<open>s\<close> decimal places and \<open>m\<close> integer digits is not changed by a context of
  precision \<open>m + s\<close> or more.
\<close>

lemma ctx_round_exact:
  assumes "dp s x" and "\<bar>x\<bar> < 10 ^ m" and "m + s \<le> p"
  shows "ctx_round p x = x"
proof (cases "x = 0")
  case False
  define k where "k = nat (ctx_places p x)"
  have k: "int s \<le> ctx_places p x" using ctx_places_ge [OF assms(2,3) False] .
  then have kq: "(10 :: rat) powi ctx_places p x = 10 ^ k"
    by (simp add: k_def power_int_def)
  have "dp k x" using assms(1) k dp_mono by (simp add: k_def)
  then obtain j where "x * 10 ^ k = of_int j" by (auto simp: dp_iff)
  then have "of_int (round_half_even (x * 10 ^ k)) = x * 10 ^ k" by simp
  with False show ?thesis by (simp add: ctx_round_def kq)
qed (simp add: ctx_round_def)

lemma int_bound_of_rat:
  assumes k: "x * 10 ^ s = of_int k" and b: "\<bar>x\<bar> * 10 ^ s < (10 :: rat) ^ p"
  shows "\<bar>k\<bar> < 10 ^ p"
proof -
  have "\<bar>x\<bar> * 10 ^ s = \<bar>x * 10 ^ s\<bar>" by (simp add: abs_mult)
  with k b have "of_int \<bar>k\<bar> < (of_int (10 ^ p) :: rat)" by simp
  then show ?thesis by (simp only: of_int_less_iff)
qed

section \<open>quantize\<close>

text \<open>
  \<^verbatim>\<open>x.quantize(Decimal(10) ** -s)\<close> in a context of precision \<open>p\<close>: half-even
  rounding to \<open>s\<close> places, and \<open>None\<close> for the \<^verbatim>\<open>InvalidOperation\<close> that Python
  raises when the result needs more than \<open>p\<close> digits.
\<close>

definition quantize :: "nat \<Rightarrow> nat \<Rightarrow> rat \<Rightarrow> rat option" where
  "quantize p s x =
     (let c = round_half_even (x * 10 ^ s)
      in if \<bar>c\<bar> < 10 ^ p then Some (of_int c / 10 ^ s) else None)"

lemma quantize_dp: "quantize p s x = Some y \<Longrightarrow> dp s y"
  by (auto simp: quantize_def Let_def dp_iff split: if_splits)

lemma quantize_error: "quantize p s x = Some y \<Longrightarrow> \<bar>y - x\<bar> \<le> 1 / (2 * 10 ^ s)"
proof -
  assume "quantize p s x = Some y"
  then have y: "y = of_int (round_half_even (x * 10 ^ s)) / 10 ^ s"
    by (auto simp: quantize_def Let_def split: if_splits)
  have "y - x = (of_int (round_half_even (x * 10 ^ s)) - x * 10 ^ s) / 10 ^ s"
    by (simp add: y diff_divide_distrib)
  then have "\<bar>y - x\<bar> = \<bar>of_int (round_half_even (x * 10 ^ s)) - x * 10 ^ s\<bar> / 10 ^ s"
    by (simp add: abs_divide)
  also have "\<dots> \<le> (1/2) / 10 ^ s"
    by (rule divide_right_mono [OF round_half_even_error]) simp
  finally show ?thesis by simp
qed

lemma quantize_exact: "quantize p s x = Some x \<longleftrightarrow> dp s x \<and> \<bar>x\<bar> * 10 ^ s < 10 ^ p"
proof
  assume "quantize p s x = Some x"
  then have d: "dp s x" and c: "\<bar>round_half_even (x * 10 ^ s)\<bar> < 10 ^ p"
    by (auto simp: quantize_dp quantize_def Let_def split: if_splits)
  from d obtain k where k: "x * 10 ^ s = of_int k" by (auto simp: dp_iff)
  with c have "of_int \<bar>k\<bar> < (of_int (10 ^ p) :: rat)" by (simp only: round_half_even_of_int of_int_less_iff)
  then have "\<bar>x * 10 ^ s\<bar> < 10 ^ p" by (simp add: k)
  with d show "dp s x \<and> \<bar>x\<bar> * 10 ^ s < 10 ^ p" by (simp add: abs_mult)
next
  assume a: "dp s x \<and> \<bar>x\<bar> * 10 ^ s < 10 ^ p"
  then obtain k where k: "x * 10 ^ s = of_int k" by (auto simp: dp_iff)
  then have "\<bar>k\<bar> < 10 ^ p" using a int_bound_of_rat by blast
  moreover have "of_int k / 10 ^ s = x" using k by (simp add: field_simps)
  ultimately show "quantize p s x = Some x" by (simp add: quantize_def k)
qed

section \<open>NUMERIC columns\<close>

text \<open>
  What a column \<^verbatim>\<open>NUMERIC(p, s)\<close> stores of a value, and \<open>None\<close> for the
  \<^verbatim>\<open>numeric field overflow\<close> of a value with more than \<open>p - s\<close> integer digits.
\<close>

definition numeric_store :: "nat \<Rightarrow> nat \<Rightarrow> rat \<Rightarrow> rat option" where
  "numeric_store p s x =
     (let c = round_half_away (x * 10 ^ s)
      in if \<bar>c\<bar> < 10 ^ p then Some (of_int c / 10 ^ s) else None)"

lemma numeric_store_dp: "numeric_store p s x = Some y \<Longrightarrow> dp s y"
  by (auto simp: numeric_store_def Let_def dp_iff split: if_splits)

lemma numeric_store_bound: "numeric_store p s x = Some y \<Longrightarrow> \<bar>y\<bar> * 10 ^ s < 10 ^ p"
proof -
  assume "numeric_store p s x = Some y"
  then obtain c where c: "\<bar>c\<bar> < 10 ^ p" "y = of_int c / 10 ^ s"
    by (auto simp: numeric_store_def Let_def split: if_splits)
  then have "of_int \<bar>c\<bar> < (of_int (10 ^ p) :: rat)" by (simp only: of_int_less_iff)
  with c(2) show ?thesis by (simp add: abs_divide)
qed

text \<open>A column never rounds a value that has its scale.\<close>

lemma numeric_store_exact: "dp s x \<Longrightarrow> numeric_store p s x = Some y \<Longrightarrow> y = x"
  by (auto simp: numeric_store_def Let_def dp_iff split: if_splits)

lemma numeric_store_fits: "dp s x \<Longrightarrow> \<bar>x\<bar> * 10 ^ s < 10 ^ p \<Longrightarrow> numeric_store p s x = Some x"
proof -
  assume d: "dp s x" and b: "\<bar>x\<bar> * 10 ^ s < 10 ^ p"
  from d obtain k where k: "x * 10 ^ s = of_int k" by (auto simp: dp_iff)
  then have "\<bar>k\<bar> < 10 ^ p" using b int_bound_of_rat by blast
  moreover have "of_int k / 10 ^ s = x" using k by (simp add: field_simps)
  ultimately show ?thesis by (simp add: numeric_store_def k)
qed

end
