(* ===== verification/Data_Model.thy ===== *)
theory Data_Model
  imports Decimal_Money "HOL-Library.Char_ord"
begin

text \<open>
  The rows of the ledger's tables (\<^verbatim>\<open>funds/models.py\<close>,
  \<^verbatim>\<open>ledger/models.py\<close>, \<^verbatim>\<open>operations/models.py\<close>), the
  requested and the priced legs (\<^verbatim>\<open>ledger/legs.py\<close>), the exceptions with their
  HTTP mapping (\<^verbatim>\<open>ledger/errors.py\<close>, \<^verbatim>\<open>operations/errors.py\<close>) and
  the database: one list of rows per table. A foreign key is the id of the row it points to.
  A UUID is its 128-bit integer (\<^verbatim>\<open>uuid.UUID.int\<close>), which orders ids as
  PostgreSQL and their fixed-width hexadecimal text do.
\<close>

section \<open>Identifiers, dates, currencies\<close>

type_synonym uuid = nat
type_synonym timestamp = int   \<comment> \<open>microseconds; only compared\<close>

text \<open>\<^verbatim>\<open>datetime.date\<close>: compared as year, then month, then day.\<close>

datatype date = Date (date_year: nat) (date_month: nat) (date_day: nat)

instantiation date :: linorder
begin

definition less_eq_date :: "date \<Rightarrow> date \<Rightarrow> bool" where
  "less_eq_date a b \<longleftrightarrow>
     date_year a < date_year b \<or> date_year a = date_year b \<and>
     (date_month a < date_month b \<or> date_month a = date_month b \<and> date_day a \<le> date_day b)"

definition less_date :: "date \<Rightarrow> date \<Rightarrow> bool" where
  "less_date a b \<longleftrightarrow>
     date_year a < date_year b \<or> date_year a = date_year b \<and>
     (date_month a < date_month b \<or> date_month a = date_month b \<and> date_day a < date_day b)"

instance
  by standard (auto simp: less_eq_date_def less_date_def date.expand)

end

definition upper_letter :: "char \<Rightarrow> bool" where
  "upper_letter c \<longleftrightarrow> CHR ''A'' \<le> c \<and> c \<le> CHR ''Z''"

text \<open>The regular expression \<^verbatim>\<open>ISO_4217 = ^[A-Z]{3}$\<close>.\<close>

definition iso_4217 :: "string \<Rightarrow> bool" where
  "iso_4217 s \<longleftrightarrow> length s = 3 \<and> list_all upper_letter s"

section \<open>funds/models.py\<close>

record fund =
  f_id :: uuid
  f_name :: string
  f_base_currency :: string
  f_vintage_year :: nat
  f_inception_date :: date

datatype investor_type =
  PENSION | ENDOWMENT | SOVEREIGN_WEALTH | FAMILY_OFFICE | FUND_OF_FUNDS | INSURANCE

record limited_partner =
  lp_id :: uuid
  lp_name :: string
  lp_investor_type :: investor_type

record commitment =
  c_id :: uuid
  c_fund :: uuid
  c_lp :: uuid
  c_committed_amount :: rat
  c_signed_date :: date

datatype period_status = OPEN | CLOSED

fun period_status_str :: "period_status \<Rightarrow> string" where
  "period_status_str OPEN = ''OPEN''"
| "period_status_str CLOSED = ''CLOSED''"

record period =
  p_id :: uuid
  p_fund :: uuid
  p_start_date :: date
  p_end_date :: date
  p_status :: period_status
  p_closed_at :: "timestamp option"
  p_closed_by :: string

record fx_rate =
  x_id :: uuid
  x_from_currency :: string
  x_to_currency :: string
  x_rate :: rat
  x_as_of_date :: date

record nav_snapshot =
  n_id :: uuid
  n_fund :: uuid
  n_as_of_date :: date
  n_total_nav :: rat
  n_computed_at :: timestamp

section \<open>ledger/models.py\<close>

datatype account_type =
  AT_CASH | AT_INVESTMENT | AT_FEE_EXPENSE | AT_GAIN_LOSS | AT_LP_CAPITAL | AT_GP_CAPITAL

text \<open>Account types whose native balance may never go below zero.\<close>

definition NON_NEGATIVE_TYPES :: "account_type list" where
  "NON_NEGATIVE_TYPES = [AT_CASH]"

text \<open>
  A direction is a string in the code; \<open>OtherDirection\<close> is any string but the two choices
  of \<^verbatim>\<open>Direction\<close>.
\<close>

datatype direction = DEBIT | CREDIT | OtherDirection string

datatype transfer_type =
  TT_CAPITAL_CALL | TT_DISTRIBUTION | TT_FEE | TT_INVESTMENT | TT_REVERSAL | TT_ADJUSTMENT

record account =
  a_id :: uuid
  a_fund :: uuid
  a_code :: string
  a_account_type :: account_type
  a_owner_lp :: "uuid option"
  a_currency :: string
  a_created_at :: timestamp

record transfer =
  t_id :: uuid
  t_idempotency_key :: string
  t_request_hash :: string
  t_transfer_type :: transfer_type
  t_reverses :: "uuid option"
  t_period :: uuid
  t_description :: string
  t_created_by :: string
  t_created_at :: timestamp

record entry =
  e_id :: uuid
  e_transfer :: uuid
  e_account :: uuid
  e_direction :: direction
  e_amount :: rat
  e_currency :: string
  e_fx_rate :: "rat option"
  e_base_amount :: rat
  e_created_at :: timestamp

text \<open>
  \<^verbatim>\<open>_signed\<close>: plus for DEBIT, minus otherwise; the two generated columns.
\<close>

definition signed :: "direction \<Rightarrow> rat \<Rightarrow> rat" where
  "signed d x = (if d = DEBIT then x else - x)"

definition signed_amount :: "entry \<Rightarrow> rat" where
  "signed_amount e = signed (e_direction e) (e_amount e)"

definition signed_base_amount :: "entry \<Rightarrow> rat" where
  "signed_base_amount e = signed (e_direction e) (e_base_amount e)"

lemma signed_simps [simp]: "signed DEBIT x = x" "signed CREDIT x = - x"
  by (simp_all add: signed_def)

lemma signed_zero [simp]: "signed d 0 = 0"
  by (simp add: signed_def)

section \<open>ledger/legs.py\<close>

record leg =
  l_account_id :: uuid
  l_direction :: direction
  l_amount :: pynum
  l_fx_rate :: "rat option"
  l_base_amount :: "rat option"

record priced_leg =
  pl_account :: account
  pl_direction :: direction
  pl_amount :: rat
  pl_currency :: string
  pl_fx_rate :: "rat option"
  pl_base_amount :: rat
  pl_adjustable :: bool

section \<open>operations/models.py\<close>

datatype classification = RETURN_OF_CAPITAL | GAIN | INCOME

record capital_call =
  cc_id :: uuid
  cc_fund :: uuid
  cc_call_number :: nat
  cc_notice_date :: date
  cc_due_date :: date
  cc_total_amount :: rat
  cc_transfer :: uuid
  cc_created_at :: timestamp

record distribution =
  d_id :: uuid
  d_fund :: uuid
  d_distribution_number :: nat
  d_payment_date :: date
  d_total_amount :: rat
  d_classification :: classification
  d_transfer :: uuid
  d_created_at :: timestamp

section \<open>Exceptions\<close>

text \<open>Why a request is an \<^verbatim>\<open>InvalidTransfer\<close>: one constructor per message.\<close>

datatype invalid_reason =
    TooFewLegs | UnknownDirection | OneSided | AmountNotDecimal | AmountNotPositive
  | TooManyPlaces | ForeignAccounts | ReversalOfReversal | NoCommitments | NotAllocatable
  | ZeroValuation

datatype ledger_error =
    InvalidTransfer invalid_reason | UnbalancedTransfer | UnknownAccount
  | InsufficientFunds | ClosedPeriod | IdempotencyConflict | AlreadyReversed | MissingFxRate
  | CommitmentExceeded | NoPeriod | PeriodNotClosable

fun error_code :: "ledger_error \<Rightarrow> string" where
  "error_code (InvalidTransfer _) = ''invalid_transfer''"
| "error_code UnbalancedTransfer = ''unbalanced_transfer''"
| "error_code UnknownAccount = ''unknown_account''"
| "error_code InsufficientFunds = ''insufficient_funds''"
| "error_code ClosedPeriod = ''period_closed''"
| "error_code IdempotencyConflict = ''idempotency_conflict''"
| "error_code AlreadyReversed = ''already_reversed''"
| "error_code MissingFxRate = ''missing_fx_rate''"
| "error_code CommitmentExceeded = ''commitment_exceeded''"
| "error_code NoPeriod = ''no_period''"
| "error_code PeriodNotClosable = ''period_not_closable''"

fun error_http_status :: "ledger_error \<Rightarrow> nat" where
  "error_http_status (InvalidTransfer _) = 400"
| "error_http_status UnbalancedTransfer = 400"
| "error_http_status UnknownAccount = 400"
| "error_http_status InsufficientFunds = 409"
| "error_http_status ClosedPeriod = 409"
| "error_http_status IdempotencyConflict = 422"
| "error_http_status AlreadyReversed = 409"
| "error_http_status MissingFxRate = 422"
| "error_http_status CommitmentExceeded = 409"
| "error_http_status NoPeriod = 409"
| "error_http_status PeriodNotClosable = 409"

text \<open>
  Everything an operation can raise: a business error; a constraint of the database, by its
  name; a value the column cannot hold; a failure of the database itself, by SQLSTATE; the
  ORM's \<^verbatim>\<open>get\<close> on no row or on several; and Python's own exceptions.
\<close>

datatype exn =
    LedgerErr ledger_error
  | IntegrityErr string
  | DataErr
  | OperationalErr string
  | DoesNotExist
  | MultipleObjects
  | DecimalInvalid
  | ValueErr
  | KeyErr
  | TypeErr
  | AssertionErr

section \<open>The database and the runtime environment\<close>

text \<open>
  \<open>db_pending\<close> is the queue of the deferred constraint trigger
  \<^verbatim>\<open>entry_balance_check\<close> in the current transaction: the transfers of the entries
  inserted since it last ran.
\<close>

record db =
  db_funds :: "fund list"
  db_lps :: "limited_partner list"
  db_commitments :: "commitment list"
  db_periods :: "period list"
  db_fx_rates :: "fx_rate list"
  db_navs :: "nav_snapshot list"
  db_accounts :: "account list"
  db_transfers :: "transfer list"
  db_entries :: "entry list"
  db_capital_calls :: "capital_call list"
  db_distributions :: "distribution list"
  db_pending :: "uuid list"

type_synonym 'a op = "(db, exn, 'a) act"

text \<open>
  What an operation takes from outside the repository: the clock, the ids that
  \<^verbatim>\<open>uuid.uuid4\<close> draws for the rows it creates, and SHA-256's hex digest.
\<close>

record env =
  now :: timestamp
  today :: date
  new_transfer_id :: uuid
  new_entry_id :: "nat \<Rightarrow> uuid"
  new_document_id :: uuid
  new_account_id :: "nat \<Rightarrow> uuid"
  sha256_hex :: "string \<Rightarrow> string"

text \<open>\<^verbatim>\<open>Model.objects.get(...)\<close> on a table.\<close>

definition get_row :: "('a \<Rightarrow> bool) \<Rightarrow> 'a list \<Rightarrow> exn + 'a" where
  "get_row P rows =
     (case filter P rows of [] \<Rightarrow> Inl DoesNotExist | [r] \<Rightarrow> Inr r | _ \<Rightarrow> Inl MultipleObjects)"

text \<open>\<^verbatim>\<open>.first()\<close> on rows already in their order.\<close>

fun first_row :: "'a list \<Rightarrow> 'a option" where
  "first_row [] = None"
| "first_row (r # _) = Some r"

lemma get_row_Inr: "get_row P rows = Inr r \<Longrightarrow> r \<in> set rows \<and> P r"
proof -
  assume "get_row P rows = Inr r"
  then have "filter P rows = [r]" by (auto simp: get_row_def split: list.splits)
  then have "r \<in> set (filter P rows)" by simp
  then show ?thesis by simp
qed

lemma first_row_Some: "first_row rows = Some r \<Longrightarrow> r \<in> set rows"
  by (cases rows) auto

lemma first_row_None [simp]: "first_row rows = None \<longleftrightarrow> rows = []"
  by (cases rows) auto

definition entries_of :: "uuid \<Rightarrow> db \<Rightarrow> entry list" where
  "entries_of tid s = filter (\<lambda>e. e_transfer e = tid) (db_entries s)"

definition find_period :: "db \<Rightarrow> uuid \<Rightarrow> period option" where
  "find_period s pid = find (\<lambda>p. p_id p = pid) (db_periods s)"

definition find_account :: "db \<Rightarrow> uuid \<Rightarrow> account option" where
  "find_account s aid = find (\<lambda>a. a_id a = aid) (db_accounts s)"

definition find_transfer :: "db \<Rightarrow> uuid \<Rightarrow> transfer option" where
  "find_transfer s tid = find (\<lambda>t. t_id t = tid) (db_transfers s)"

end
