(* ===== verification/Store.thy ===== *)
theory Store
  imports Data_Model
begin

text \<open>
  The integrity that PostgreSQL enforces on the ledger's tables: the constraints declared by
  the models, and the triggers of \<^verbatim>\<open>ledger/migrations/0002_integrity_triggers.py\<close>
  and \<^verbatim>\<open>0003_period_guards.py\<close>. Every write of the program is one of the
  statements below. Theory \<open>Database\<close> shows what they guarantee without the Python code:
  whatever statements a transaction executes, in whatever order, if it commits then every
  transfer balances, nothing recorded is changed, and nothing is added to a closed period.

  The foreign keys that Django declares are checked by the statement here and at COMMIT by
  PostgreSQL: a transaction that inserts a row before the row it points to is refused by the
  model. No code of the repository does that.
\<close>

section \<open>Sums over the entries of a transfer\<close>

definition imbalance :: "db \<Rightarrow> uuid \<Rightarrow> rat" where
  "imbalance s tid = sum_list (map signed_base_amount (entries_of tid s))"

section \<open>Rows of ledger\_transfer\<close>

definition transfer_constraints :: "db \<Rightarrow> transfer \<Rightarrow> exn + unit" where
  "transfer_constraints s t = checks
     [(length (t_idempotency_key t) \<le> 255 \<and> length (t_request_hash t) \<le> 64
         \<and> length (t_created_by t) \<le> 255, DataErr),
      (t_idempotency_key t \<noteq> [], IntegrityErr ''transfer_idempotency_key_present''),
      (t_reverses t = None \<or> t_transfer_type t = TT_REVERSAL,
         IntegrityErr ''transfer_only_reversals_reverse''),
      (t_transfer_type t \<noteq> TT_REVERSAL \<or> t_reverses t \<noteq> None,
         IntegrityErr ''transfer_reversal_has_target''),
      (t_id t \<notin> set (map t_id (db_transfers s)), IntegrityErr ''ledger_transfer_pkey''),
      (t_idempotency_key t \<notin> set (map t_idempotency_key (db_transfers s)),
         IntegrityErr ''transfer_idempotency_key_unique''),
      (t_reverses t = None \<or> t_reverses t \<notin> set (map t_reverses (db_transfers s)),
         IntegrityErr ''transfer_reverses_unique''),
      (find_period s (t_period t) \<noteq> None, IntegrityErr ''ledger_transfer_period_id_fk''),
      (case t_reverses t of None \<Rightarrow> True | Some r \<Rightarrow> find_transfer s r \<noteq> None,
         IntegrityErr ''ledger_transfer_reverses_id_fk'')]"

definition insert_transfer :: "transfer \<Rightarrow> unit op" where
  "insert_transfer t =
     bind_act (query (\<lambda>s. transfer_constraints s t)) (\<lambda>_.
     modify (\<lambda>s. s\<lparr>db_transfers := db_transfers s @ [t]\<rparr>))"

section \<open>Rows of ledger\_entry\<close>

text \<open>What the numeric columns hold of the row: overflow is an error of the statement.\<close>

definition stored_entry :: "entry \<Rightarrow> exn + entry" where
  "stored_entry e =
     (case (numeric_store 20 4 (e_amount e), numeric_store 20 4 (e_base_amount e)) of
        (Some a, Some b) \<Rightarrow>
          (case e_fx_rate e of
             None \<Rightarrow> Inr (e\<lparr>e_amount := a, e_base_amount := b\<rparr>)
           | Some r \<Rightarrow>
               (case numeric_store 20 10 r of
                  None \<Rightarrow> Inl DataErr
                | Some r' \<Rightarrow> Inr (e\<lparr>e_amount := a, e_base_amount := b, e_fx_rate := Some r'\<rparr>)))
      | _ \<Rightarrow> Inl DataErr)"

text \<open>
  The trigger \<^verbatim>\<open>entry_period_open\<close>: the period of the entry's transfer, as the
  database has it now, is OPEN. A missing row reads as NULL, which is distinct from OPEN.
\<close>

definition assert_period_open :: "db \<Rightarrow> uuid \<Rightarrow> exn + unit" where
  "assert_period_open s tid =
     (let p_stat = Option.bind (find_transfer s tid)
                     (\<lambda>t. map_option p_status (find_period s (t_period t)))
      in ensure (p_stat = Some OPEN) (IntegrityErr ''period_open''))"

definition entry_constraints :: "db \<Rightarrow> entry \<Rightarrow> exn + unit" where
  "entry_constraints s e = checks
     [(length (e_currency e) \<le> 3 \<and> (case e_direction e of OtherDirection d \<Rightarrow> length d \<le> 6 | _ \<Rightarrow> True), DataErr),
      (0 < e_amount e, IntegrityErr ''entry_amount_positive''),
      (0 < e_base_amount e, IntegrityErr ''entry_base_amount_positive''),
      (iso_4217 (e_currency e), IntegrityErr ''entry_currency_iso4217''),
      (e_direction e = DEBIT \<or> e_direction e = CREDIT, IntegrityErr ''entry_direction_valid''),
      (case e_fx_rate e of None \<Rightarrow> True | Some r \<Rightarrow> 0 < r, IntegrityErr ''entry_fx_rate_positive''),
      (e_id e \<notin> set (map e_id (db_entries s)), IntegrityErr ''ledger_entry_pkey''),
      (map_option a_currency (find_account s (e_account e)) = Some (e_currency e),
         IntegrityErr ''entry_currency_matches_account'')]"

definition insert_entry :: "entry \<Rightarrow> unit op" where
  "insert_entry e0 =
     bind_act (query (\<lambda>_. stored_entry e0)) (\<lambda>e.
     bind_act (query (\<lambda>s. assert_period_open s (e_transfer e))) (\<lambda>_.
     bind_act (query (\<lambda>s. entry_constraints s e)) (\<lambda>_.
     modify (\<lambda>s. s\<lparr>db_entries := db_entries s @ [e],
                   db_pending := db_pending s @ [e_transfer e]\<rparr>))))"

text \<open>
  The deferred constraint trigger \<^verbatim>\<open>entry_balance_check\<close>: run at COMMIT, or when
  the transaction sets the constraint IMMEDIATE, for every entry inserted since.
\<close>

definition assert_transfer_balances :: "db \<Rightarrow> uuid \<Rightarrow> exn + unit" where
  "assert_transfer_balances s tid =
     (case numeric_store 20 4 (imbalance s tid) of
        None \<Rightarrow> Inl DataErr
      | Some i \<Rightarrow> ensure (i = 0) (IntegrityErr ''transfer_balanced''))"

definition fire_deferred :: "unit op" where
  "fire_deferred =
     bind_act (query (\<lambda>s. each (assert_transfer_balances s) (db_pending s))) (\<lambda>_.
     modify (\<lambda>s. s\<lparr>db_pending := []\<rparr>))"

text \<open>The trigger \<^verbatim>\<open>forbid_mutation\<close>: UPDATE and DELETE of a ledger row raise.\<close>

definition forbid_mutation :: "unit op" where
  "forbid_mutation = raise (IntegrityErr ''append_only'')"

section \<open>Rows of funds\_period and ledger\_account\<close>

definition period_constraints :: "db \<Rightarrow> period \<Rightarrow> exn + unit" where
  "period_constraints s p = checks
     [(length (p_closed_by p) \<le> 150, DataErr),
      ((p_status p = OPEN \<and> p_closed_at p = None) \<or> (p_status p = CLOSED \<and> p_closed_at p \<noteq> None),
         IntegrityErr ''period_closed_at_matches_status''),
      (p_start_date p \<le> p_end_date p, IntegrityErr ''period_end_not_before_start''),
      (p_fund p \<in> set (map f_id (db_funds s)), IntegrityErr ''funds_period_fund_id_fk''),
      (\<forall>q \<in> set (db_periods s). p_id q = p_id p \<or> (p_fund q, p_start_date q) \<noteq> (p_fund p, p_start_date p),
         IntegrityErr ''period_unique_start'')]"

definition insert_period :: "period \<Rightarrow> unit op" where
  "insert_period p =
     bind_act (query (\<lambda>s. rbind
       (ensure (p_id p \<notin> set (map p_id (db_periods s))) (IntegrityErr ''funds_period_pkey''))
       (\<lambda>_. period_constraints s p))) (\<lambda>_.
     modify (\<lambda>s. s\<lparr>db_periods := db_periods s @ [p]\<rparr>))"

text \<open>
  \<^verbatim>\<open>UPDATE funds_period SET ... WHERE id = pid\<close>, for any new row \<open>p\<close> of that id:
  the trigger \<^verbatim>\<open>period_closed_is_final\<close> looks at the old row first.
\<close>

definition update_period :: "period \<Rightarrow> unit op" where
  "update_period p =
     bind_act (query (\<lambda>s.
       case find_period s (p_id p) of
         None \<Rightarrow> Inr ()
       | Some old \<Rightarrow>
           rbind (ensure (p_status old \<noteq> CLOSED) (IntegrityErr ''period_closed_is_final''))
                 (\<lambda>_. period_constraints s p))) (\<lambda>_.
     modify (\<lambda>s. s\<lparr>db_periods := map (\<lambda>q. if p_id q = p_id p then p else q) (db_periods s)\<rparr>))"

definition account_constraints :: "db \<Rightarrow> account \<Rightarrow> exn + unit" where
  "account_constraints s a = checks
     [(length (a_code a) \<le> 64 \<and> length (a_currency a) \<le> 3, DataErr),
      (iso_4217 (a_currency a), IntegrityErr ''account_currency_iso4217''),
      ((a_account_type a = AT_LP_CAPITAL) = (a_owner_lp a \<noteq> None),
         IntegrityErr ''account_owner_lp_iff_lp_capital''),
      (a_id a \<notin> set (map a_id (db_accounts s)), IntegrityErr ''ledger_account_pkey''),
      (a_fund a \<in> set (map f_id (db_funds s)), IntegrityErr ''ledger_account_fund_id_fk''),
      (case a_owner_lp a of None \<Rightarrow> True | Some lp \<Rightarrow> lp \<in> set (map lp_id (db_lps s)),
         IntegrityErr ''ledger_account_owner_lp_id_fk''),
      (\<forall>b \<in> set (db_accounts s). (a_fund b, a_code b) \<noteq> (a_fund a, a_code a),
         IntegrityErr ''account_code_unique_per_fund''),
      (a_account_type a \<noteq> AT_LP_CAPITAL \<or>
        (\<forall>b \<in> set (db_accounts s). a_account_type b = AT_LP_CAPITAL \<longrightarrow>
          (a_fund b, a_owner_lp b, a_currency b) \<noteq> (a_fund a, a_owner_lp a, a_currency a)),
         IntegrityErr ''account_one_lp_capital_per_lp_currency'')]"

definition insert_account :: "account \<Rightarrow> unit op" where
  "insert_account a =
     bind_act (query (\<lambda>s. account_constraints s a)) (\<lambda>_.
     modify (\<lambda>s. s\<lparr>db_accounts := db_accounts s @ [a]\<rparr>))"

section \<open>Rows of the other tables\<close>

definition insert_fund :: "fund \<Rightarrow> unit op" where
  "insert_fund f =
     bind_act (query (\<lambda>s. checks
       [(length (f_name f) \<le> 200 \<and> length (f_base_currency f) \<le> 3 \<and> f_vintage_year f \<le> 32767, DataErr),
        (iso_4217 (f_base_currency f), IntegrityErr ''fund_base_currency_iso4217''),
        (f_id f \<notin> set (map f_id (db_funds s)), IntegrityErr ''funds_fund_pkey''),
        (f_name f \<notin> set (map f_name (db_funds s)), IntegrityErr ''funds_fund_name_key'')])) (\<lambda>_.
     modify (\<lambda>s. s\<lparr>db_funds := db_funds s @ [f]\<rparr>))"

definition insert_lp :: "limited_partner \<Rightarrow> unit op" where
  "insert_lp lp =
     bind_act (query (\<lambda>s. checks
       [(length (lp_name lp) \<le> 200, DataErr),
        (lp_id lp \<notin> set (map lp_id (db_lps s)), IntegrityErr ''funds_limitedpartner_pkey'')])) (\<lambda>_.
     modify (\<lambda>s. s\<lparr>db_lps := db_lps s @ [lp]\<rparr>))"

text \<open>A value through its \<^verbatim>\<open>NUMERIC\<close> column.\<close>

definition column :: "nat \<Rightarrow> nat \<Rightarrow> rat \<Rightarrow> exn + rat" where
  "column p s x = (case numeric_store p s x of None \<Rightarrow> Inl DataErr | Some y \<Rightarrow> Inr y)"

definition insert_commitment :: "commitment \<Rightarrow> unit op" where
  "insert_commitment c =
     bind_act (query (\<lambda>_. column 20 4 (c_committed_amount c))) (\<lambda>x.
     bind_act (query (\<lambda>s. checks
       [(0 < x, IntegrityErr ''commitment_amount_positive''),
        (c_id c \<notin> set (map c_id (db_commitments s)), IntegrityErr ''funds_commitment_pkey''),
        (\<forall>d \<in> set (db_commitments s). (c_fund d, c_lp d) \<noteq> (c_fund c, c_lp c),
           IntegrityErr ''commitment_one_per_lp_per_fund''),
        (c_fund c \<in> set (map f_id (db_funds s)), IntegrityErr ''funds_commitment_fund_id_fk''),
        (c_lp c \<in> set (map lp_id (db_lps s)), IntegrityErr ''funds_commitment_lp_id_fk'')])) (\<lambda>_.
     modify (\<lambda>s. s\<lparr>db_commitments := db_commitments s @ [c\<lparr>c_committed_amount := x\<rparr>]\<rparr>)))"

definition insert_fx_rate :: "fx_rate \<Rightarrow> unit op" where
  "insert_fx_rate r =
     bind_act (query (\<lambda>_. column 20 10 (x_rate r))) (\<lambda>x.
     bind_act (query (\<lambda>s. checks
       [(length (x_from_currency r) \<le> 3 \<and> length (x_to_currency r) \<le> 3, DataErr),
        (0 < x, IntegrityErr ''fxrate_positive''),
        (x_from_currency r \<noteq> x_to_currency r, IntegrityErr ''fxrate_distinct_currencies''),
        (x_id r \<notin> set (map x_id (db_fx_rates s)), IntegrityErr ''funds_fxrate_pkey''),
        (\<forall>q \<in> set (db_fx_rates s). (x_from_currency q, x_to_currency q, x_as_of_date q) \<noteq>
             (x_from_currency r, x_to_currency r, x_as_of_date r), IntegrityErr ''fxrate_unique_per_day'')])) (\<lambda>_.
     modify (\<lambda>s. s\<lparr>db_fx_rates := db_fx_rates s @ [r\<lparr>x_rate := x\<rparr>]\<rparr>)))"

definition insert_nav :: "nav_snapshot \<Rightarrow> unit op" where
  "insert_nav n =
     bind_act (query (\<lambda>_. column 20 4 (n_total_nav n))) (\<lambda>x.
     bind_act (query (\<lambda>s. checks
       [(n_id n \<notin> set (map n_id (db_navs s)), IntegrityErr ''funds_navsnapshot_pkey''),
        (\<forall>m \<in> set (db_navs s). (n_fund m, n_as_of_date m) \<noteq> (n_fund n, n_as_of_date n),
           IntegrityErr ''nav_one_per_fund_per_day''),
        (n_fund n \<in> set (map f_id (db_funds s)), IntegrityErr ''funds_navsnapshot_fund_id_fk'')])) (\<lambda>_.
     modify (\<lambda>s. s\<lparr>db_navs := db_navs s @ [n\<lparr>n_total_nav := x\<rparr>]\<rparr>)))"

text \<open>The update of \<^verbatim>\<open>update_or_create\<close>: the row of the same fund and day.\<close>

definition update_nav :: "nav_snapshot \<Rightarrow> unit op" where
  "update_nav n =
     bind_act (query (\<lambda>_. column 20 4 (n_total_nav n))) (\<lambda>x.
     modify (\<lambda>s. s\<lparr>db_navs := map (\<lambda>m. if (n_fund m, n_as_of_date m) = (n_fund n, n_as_of_date n)
         then m\<lparr>n_total_nav := x, n_computed_at := n_computed_at n\<rparr> else m) (db_navs s)\<rparr>))"

definition insert_capital_call :: "capital_call \<Rightarrow> unit op" where
  "insert_capital_call c =
     bind_act (query (\<lambda>_. column 20 4 (cc_total_amount c))) (\<lambda>x.
     bind_act (query (\<lambda>s. checks
       [(cc_call_number c \<le> 2147483647, DataErr),
        (0 < x, IntegrityErr ''capital_call_positive''),
        (cc_notice_date c \<le> cc_due_date c, IntegrityErr ''capital_call_due_after_notice''),
        (cc_id c \<notin> set (map cc_id (db_capital_calls s)), IntegrityErr ''operations_capitalcall_pkey''),
        (\<forall>d \<in> set (db_capital_calls s). (cc_fund d, cc_call_number d) \<noteq> (cc_fund c, cc_call_number c),
           IntegrityErr ''capital_call_number_unique''),
        (cc_transfer c \<notin> set (map cc_transfer (db_capital_calls s)),
           IntegrityErr ''operations_capitalcall_transfer_id_key''),
        (cc_fund c \<in> set (map f_id (db_funds s)), IntegrityErr ''operations_capitalcall_fund_id_fk''),
        (find_transfer s (cc_transfer c) \<noteq> None, IntegrityErr ''operations_capitalcall_transfer_id_fk'')])) (\<lambda>_.
     modify (\<lambda>s. s\<lparr>db_capital_calls := db_capital_calls s @ [c\<lparr>cc_total_amount := x\<rparr>]\<rparr>)))"

definition insert_distribution :: "distribution \<Rightarrow> unit op" where
  "insert_distribution d =
     bind_act (query (\<lambda>_. column 20 4 (d_total_amount d))) (\<lambda>x.
     bind_act (query (\<lambda>s. checks
       [(d_distribution_number d \<le> 2147483647, DataErr),
        (0 < x, IntegrityErr ''distribution_positive''),
        (d_id d \<notin> set (map d_id (db_distributions s)), IntegrityErr ''operations_distribution_pkey''),
        (\<forall>e \<in> set (db_distributions s). (d_fund e, d_distribution_number e) \<noteq> (d_fund d, d_distribution_number d),
           IntegrityErr ''distribution_number_unique''),
        (d_transfer d \<notin> set (map d_transfer (db_distributions s)),
           IntegrityErr ''operations_distribution_transfer_id_key''),
        (d_fund d \<in> set (map f_id (db_funds s)), IntegrityErr ''operations_distribution_fund_id_fk''),
        (find_transfer s (d_transfer d) \<noteq> None, IntegrityErr ''operations_distribution_transfer_id_fk'')])) (\<lambda>_.
     modify (\<lambda>s. s\<lparr>db_distributions := db_distributions s @ [d\<lparr>d_total_amount := x\<rparr>]\<rparr>)))"

end
