(* ===== verification/Store_Invariants.thy ===== *)
theory Store_Invariants
  imports Store
begin

text \<open>
  What the database guarantees, and that every statement keeps it. \<open>db_ok\<close> is the
  well-formedness of one state; \<open>extends\<close> and \<open>closed_frozen\<close> relate a state to an earlier
  one: rows of the ledger are only ever appended, and a closed period is never changed nor
  posted into. \<open>step_ok s0\<close> is their conjunction, and the collection \<open>keeps_intros\<close>
  carries it from the statements to every operation built from them.
\<close>

section \<open>Well-formed states\<close>

definition transfer_ok :: "db \<Rightarrow> transfer \<Rightarrow> bool" where
  "transfer_ok s t \<longleftrightarrow>
     t_idempotency_key t \<noteq> [] \<and> ((t_reverses t \<noteq> None) = (t_transfer_type t = TT_REVERSAL)) \<and>
     find_period s (t_period t) \<noteq> None \<and>
     (case t_reverses t of None \<Rightarrow> True | Some r \<Rightarrow> find_transfer s r \<noteq> None)"

definition transfers_wf :: "db \<Rightarrow> bool" where
  "transfers_wf s \<longleftrightarrow>
     distinct (map t_id (db_transfers s)) \<and>
     distinct (map t_idempotency_key (db_transfers s)) \<and>
     distinct (filter (\<lambda>r. r \<noteq> None) (map t_reverses (db_transfers s))) \<and>
     (\<forall>t \<in> set (db_transfers s). transfer_ok s t)"

definition entry_ok :: "db \<Rightarrow> entry \<Rightarrow> bool" where
  "entry_ok s e \<longleftrightarrow>
     0 < e_amount e \<and> 0 < e_base_amount e \<and> dp 4 (e_amount e) \<and> dp 4 (e_base_amount e) \<and>
     (e_direction e = DEBIT \<or> e_direction e = CREDIT) \<and>
     find_transfer s (e_transfer e) \<noteq> None \<and>
     map_option a_currency (find_account s (e_account e)) = Some (e_currency e)"

definition entries_wf :: "db \<Rightarrow> bool" where
  "entries_wf s \<longleftrightarrow> distinct (map e_id (db_entries s)) \<and> (\<forall>e \<in> set (db_entries s). entry_ok s e)"

definition periods_wf :: "db \<Rightarrow> bool" where
  "periods_wf s \<longleftrightarrow>
     distinct (map p_id (db_periods s)) \<and>
     (\<forall>p \<in> set (db_periods s).
        p_start_date p \<le> p_end_date p \<and> ((p_status p = CLOSED) = (p_closed_at p \<noteq> None))) \<and>
     distinct (map (\<lambda>p. (p_fund p, p_start_date p)) (db_periods s))"

definition accounts_wf :: "db \<Rightarrow> bool" where
  "accounts_wf s \<longleftrightarrow>
     distinct (map a_id (db_accounts s)) \<and>
     distinct (map (\<lambda>a. (a_fund a, a_code a)) (db_accounts s)) \<and>
     distinct (map (\<lambda>a. (a_fund a, a_owner_lp a, a_currency a))
       (filter (\<lambda>a. a_account_type a = AT_LP_CAPITAL) (db_accounts s))) \<and>
     (\<forall>a \<in> set (db_accounts s). (a_account_type a = AT_LP_CAPITAL) = (a_owner_lp a \<noteq> None))"

text \<open>Every transfer balances, but for those whose deferred check is still to run.\<close>

definition balances :: "db \<Rightarrow> bool" where
  "balances s \<longleftrightarrow> (\<forall>tid. tid \<notin> set (db_pending s) \<longrightarrow> imbalance s tid = 0)"

definition db_ok :: "db \<Rightarrow> bool" where
  "db_ok s \<longleftrightarrow> transfers_wf s \<and> entries_wf s \<and> periods_wf s \<and> accounts_wf s \<and> balances s"

lemma db_okD:
  assumes "db_ok s"
  shows "transfers_wf s" "entries_wf s" "periods_wf s" "accounts_wf s" "balances s"
  using assms by (simp_all add: db_ok_def)

section \<open>How a state may change\<close>

definition extends :: "db \<Rightarrow> db \<Rightarrow> bool" where
  "extends s0 s \<longleftrightarrow>
     (\<exists>ts. db_transfers s = db_transfers s0 @ ts) \<and> (\<exists>es. db_entries s = db_entries s0 @ es)"

definition entry_period :: "db \<Rightarrow> entry \<Rightarrow> uuid option" where
  "entry_period s e = map_option t_period (find_transfer s (e_transfer e))"

definition entries_in_period :: "db \<Rightarrow> uuid \<Rightarrow> entry list" where
  "entries_in_period s pid = filter (\<lambda>e. entry_period s e = Some pid) (db_entries s)"

definition closed_frozen :: "db \<Rightarrow> db \<Rightarrow> bool" where
  "closed_frozen s0 s \<longleftrightarrow>
     (\<forall>p \<in> set (db_periods s0). p_status p = CLOSED \<longrightarrow>
        p \<in> set (db_periods s) \<and> entries_in_period s (p_id p) = entries_in_period s0 (p_id p))"

definition step_ok :: "db \<Rightarrow> db \<Rightarrow> bool" where
  "step_ok s0 s \<longleftrightarrow> db_ok s \<and> extends s0 s \<and> closed_frozen s0 s"

lemma step_ok_refl: "db_ok s \<Longrightarrow> step_ok s s"
  by (simp add: step_ok_def extends_def closed_frozen_def)

lemma extends_trans: "extends a b \<Longrightarrow> extends b c \<Longrightarrow> extends a c"
  by (auto simp: extends_def)

lemma closed_frozen_trans: "closed_frozen a b \<Longrightarrow> closed_frozen b c \<Longrightarrow> closed_frozen a c"
  by (auto simp: closed_frozen_def)

lemma step_ok_trans: "step_ok a b \<Longrightarrow> step_ok b c \<Longrightarrow> step_ok a c"
  unfolding step_ok_def using extends_trans closed_frozen_trans by blast

text \<open>A statement is correct when it steps correctly from every well-formed state.\<close>

lemma keeps_step_okI:
  assumes "\<And>s r s'. db_ok s \<Longrightarrow> m s = (r, s') \<Longrightarrow> step_ok s s'"
  shows "keeps (step_ok s0) m"
  by (rule keepsI) (meson assms step_ok_def step_ok_trans)

section \<open>Finding rows after a change\<close>

lemma find_transfer_append:
  "db_transfers s' = db_transfers s @ ts \<Longrightarrow> find_transfer s tid \<noteq> None \<Longrightarrow>
   find_transfer s' tid = find_transfer s tid"
  by (auto simp: find_transfer_def find_append)

lemma entry_period_append:
  assumes "db_transfers s' = db_transfers s @ ts" and "entries_wf s" and "e \<in> set (db_entries s)"
  shows "entry_period s' e = entry_period s e"
  using assms find_transfer_append [OF assms(1)]
  by (auto simp: entry_period_def entries_wf_def entry_ok_def)

lemma find_period_distinct:
  "periods_wf s \<Longrightarrow> p \<in> set (db_periods s) \<Longrightarrow> find_period s (p_id p) = Some p"
  unfolding find_period_def periods_wf_def by (rule find_distinct) auto

lemma find_transfer_distinct:
  "transfers_wf s \<Longrightarrow> t \<in> set (db_transfers s) \<Longrightarrow> find_transfer s (t_id t) = Some t"
  unfolding find_transfer_def transfers_wf_def by (rule find_distinct) auto

lemma find_account_distinct:
  "accounts_wf s \<Longrightarrow> a \<in> set (db_accounts s) \<Longrightarrow> find_account s (a_id a) = Some a"
  unfolding find_account_def accounts_wf_def by (rule find_distinct) auto

lemma find_account_SomeD: "find_account s aid = Some a \<Longrightarrow> a \<in> set (db_accounts s) \<and> a_id a = aid"
  unfolding find_account_def by (rule find_SomeD)

lemma find_transfer_SomeD: "find_transfer s tid = Some t \<Longrightarrow> t \<in> set (db_transfers s) \<and> t_id t = tid"
  unfolding find_transfer_def by (rule find_SomeD)

lemma find_period_SomeD: "find_period s pid = Some p \<Longrightarrow> p \<in> set (db_periods s) \<and> p_id p = pid"
  unfolding find_period_def by (rule find_SomeD)

section \<open>INSERT INTO ledger\_transfer\<close>

lemma insert_transfer_Inr:
  "insert_transfer t s = (Inr u, s') \<longleftrightarrow>
     transfer_constraints s t = Inr () \<and> s' = s\<lparr>db_transfers := db_transfers s @ [t]\<rparr>"
  by (auto simp: insert_transfer_def act)

lemma insert_transfer_Inl: "insert_transfer t s = (Inl e, s') \<Longrightarrow> s' = s"
  by (auto simp: insert_transfer_def act)

lemma transfer_constraints_wf:
  assumes wf: "transfers_wf s" and c: "transfer_constraints s t = Inr ()"
  shows "transfers_wf (s\<lparr>db_transfers := db_transfers s @ [t]\<rparr>)"
proof -
  let ?s = "s\<lparr>db_transfers := db_transfers s @ [t]\<rparr>"
  have p: "find_period ?s = find_period s" by (simp add: find_period_def fun_eq_iff)
  have f: "find_transfer ?s r \<noteq> None" if "find_transfer s r \<noteq> None" for r
    using that by (auto simp: find_transfer_def find_append)
  have "transfer_ok ?s t"
    using c f by (auto simp: transfer_constraints_def transfer_ok_def p split: option.splits)
  moreover have "transfer_ok ?s x" if "x \<in> set (db_transfers s)" for x
    using wf that f by (force simp: transfers_wf_def transfer_ok_def p split: option.splits)
  ultimately show ?thesis
    using wf c by (auto simp: transfers_wf_def transfer_constraints_def)
qed

lemma insert_transfer_step:
  assumes ok: "db_ok s" and r: "insert_transfer t s = (r, s')"
  shows "step_ok s s'"
proof (cases r)
  case (Inl e)
  with r ok show ?thesis by (auto dest: insert_transfer_Inl intro: step_ok_refl)
next
  case (Inr u)
  with r have c: "transfer_constraints s t = Inr ()"
    and s': "s' = s\<lparr>db_transfers := db_transfers s @ [t]\<rparr>"
    by (auto simp: insert_transfer_Inr)
  have ts: "db_transfers s' = db_transfers s @ [t]" by (simp add: s')
  have "transfers_wf s'" using transfer_constraints_wf [OF db_okD(1) [OF ok] c] by (simp add: s')
  moreover have "entries_wf s'"
    using db_okD(2) [OF ok] find_transfer_append [OF ts]
    by (auto simp: entries_wf_def entry_ok_def s' find_account_def)
  moreover have "periods_wf s'" "accounts_wf s'" "balances s'"
    using db_okD [OF ok]
    by (auto simp: s' periods_wf_def accounts_wf_def balances_def imbalance_def entries_of_def)
  moreover have "closed_frozen s s'"
    using entry_period_append [OF ts db_okD(2) [OF ok]]
    by (auto simp: closed_frozen_def entries_in_period_def s' intro: filter_cong)
  ultimately show ?thesis by (auto simp: step_ok_def db_ok_def extends_def s')
qed

section \<open>INSERT INTO ledger\_entry\<close>

lemma stored_entry_Inr:
  assumes "stored_entry e0 = Inr e"
  shows "dp 4 (e_amount e)" "dp 4 (e_base_amount e)" "e_transfer e = e_transfer e0"
    "e_direction e = e_direction e0" "e_account e = e_account e0" "e_currency e = e_currency e0"
    "e_id e = e_id e0"
  using assms by (auto simp: stored_entry_def dest: numeric_store_dp split: option.splits)

lemma stored_entry_store:
  assumes "stored_entry e0 = Inr e"
  shows "numeric_store 20 4 (e_amount e0) = Some (e_amount e)"
    and "numeric_store 20 4 (e_base_amount e0) = Some (e_base_amount e)"
    and "e_created_at e = e_created_at e0"
  using assms by (auto simp: stored_entry_def split: option.splits)

lemma insert_entry_Inr:
  "insert_entry e0 s = (Inr u, s') \<longleftrightarrow>
     (\<exists>e. stored_entry e0 = Inr e \<and> assert_period_open s (e_transfer e) = Inr () \<and>
          entry_constraints s e = Inr () \<and>
          s' = s\<lparr>db_entries := db_entries s @ [e], db_pending := db_pending s @ [e_transfer e]\<rparr>)"
  by (auto simp: insert_entry_def act)

lemma insert_entry_Inl: "insert_entry e0 s = (Inl x, s') \<Longrightarrow> s' = s"
  by (auto simp: insert_entry_def act)

lemma assert_period_openD:
  assumes "assert_period_open s tid = Inr ()"
  obtains t p where "find_transfer s tid = Some t" "find_period s (t_period t) = Some p"
    "p_status p = OPEN"
  using assms by (auto simp: assert_period_open_def bind_eq_Some_conv)

lemma insert_entry_step:
  assumes ok: "db_ok s" and r: "insert_entry e0 s = (r, s')"
  shows "step_ok s s'"
proof (cases r)
  case (Inl x)
  with r ok show ?thesis by (auto dest: insert_entry_Inl intro: step_ok_refl)
next
  case (Inr u)
  with r obtain e where st: "stored_entry e0 = Inr e"
    and po: "assert_period_open s (e_transfer e) = Inr ()"
    and c: "entry_constraints s e = Inr ()"
    and s': "s' = s\<lparr>db_entries := db_entries s @ [e], db_pending := db_pending s @ [e_transfer e]\<rparr>"
    by (auto simp: insert_entry_Inr)
  obtain t p where t: "find_transfer s (e_transfer e) = Some t"
    and p: "find_period s (t_period t) = Some p" "p_status p = OPEN"
    using po by (rule assert_period_openD)
  have same: "find_transfer s' = find_transfer s" "find_account s' = find_account s"
    "find_period s' = find_period s"
    by (simp_all add: fun_eq_iff s' find_transfer_def find_account_def find_period_def)
  have "entry_ok s e"
    using c t stored_entry_Inr [OF st] by (auto simp: entry_ok_def entry_constraints_def)
  then have "entries_wf s'"
    using db_okD(2) [OF ok] c by (auto simp: entries_wf_def entry_ok_def same entry_constraints_def)
      (auto simp: s')
  moreover have "transfers_wf s'" "periods_wf s'" "accounts_wf s'"
    using db_okD [OF ok] by (auto simp: s' transfers_wf_def transfer_ok_def periods_wf_def accounts_wf_def
        find_transfer_def find_period_def split: option.splits)
  moreover have "balances s'"
    using db_okD(5) [OF ok] by (auto simp: balances_def imbalance_def entries_of_def s')
  moreover have "closed_frozen s s'"
  proof -
    have "entry_period s e \<noteq> Some (p_id q)" if "q \<in> set (db_periods s)" "p_status q = CLOSED" for q
      using find_period_distinct [OF db_okD(3) [OF ok] that(1)] that(2) t p
      by (auto simp: entry_period_def)
    moreover have "entry_period s' = entry_period s" by (simp add: fun_eq_iff entry_period_def same)
    ultimately show ?thesis by (auto simp: closed_frozen_def entries_in_period_def s')
  qed
  ultimately show ?thesis by (auto simp: step_ok_def db_ok_def extends_def s')
qed

section \<open>The deferred check\<close>

lemma assert_transfer_balances_zero:
  assumes "entries_wf s" and "assert_transfer_balances s tid = Inr ()"
  shows "imbalance s tid = 0"
proof -
  have "dp 4 (signed_base_amount e)" if "e \<in> set (db_entries s)" for e
    using assms(1) that by (auto simp: entries_wf_def entry_ok_def signed_base_amount_def signed_def
        intro: dp_minus)
  then have "dp 4 (imbalance s tid)"
    unfolding imbalance_def entries_of_def by (auto intro: dp_sum_list)
  then show ?thesis
    using assms(2) numeric_store_exact by (fastforce simp: assert_transfer_balances_def split: option.splits)
qed

lemma fire_deferred_Inr:
  "fire_deferred s = (Inr u, s') \<longleftrightarrow>
     (\<forall>tid \<in> set (db_pending s). assert_transfer_balances s tid = Inr ()) \<and> s' = s\<lparr>db_pending := []\<rparr>"
  by (auto simp: fire_deferred_def act each_Inr)

lemma fire_deferred_step:
  assumes ok: "db_ok s" and r: "fire_deferred s = (r, s')"
  shows "step_ok s s'"
proof (cases r)
  case (Inl x)
  with r have "s' = s" by (auto simp: fire_deferred_def act)
  with ok show ?thesis by (auto intro: step_ok_refl)
next
  case (Inr u)
  with r have z: "\<forall>tid \<in> set (db_pending s). imbalance s tid = 0" and s': "s' = s\<lparr>db_pending := []\<rparr>"
    using assert_transfer_balances_zero [OF db_okD(2) [OF ok]] by (auto simp: fire_deferred_Inr)
  have same: "find_transfer s' = find_transfer s" "find_account s' = find_account s"
    "find_period s' = find_period s" "entry_period s' = entry_period s"
    by (simp_all add: fun_eq_iff s' find_transfer_def find_account_def find_period_def entry_period_def)
  have tabs: "db_transfers s' = db_transfers s" "db_entries s' = db_entries s"
    "db_periods s' = db_periods s" "db_accounts s' = db_accounts s"
    by (simp_all add: s')
  have "balances s'"
    using db_okD(5) [OF ok] z by (auto simp: balances_def imbalance_def entries_of_def s')
  moreover have "transfers_wf s'" using db_okD(1) [OF ok]
    unfolding transfers_wf_def transfer_ok_def same tabs .
  moreover have "entries_wf s'" using db_okD(2) [OF ok]
    unfolding entries_wf_def entry_ok_def same tabs .
  moreover have "periods_wf s'" "accounts_wf s'" using db_okD(3,4) [OF ok]
    unfolding periods_wf_def accounts_wf_def tabs by blast+
  ultimately show ?thesis
    by (simp add: step_ok_def db_ok_def extends_def closed_frozen_def entries_in_period_def same tabs)
qed

section \<open>INSERT INTO and UPDATE of funds\_period\<close>

lemma distinct_map_replace:
  assumes "distinct (map k xs)" and "distinct (map f xs)"
    and "\<forall>q \<in> set xs. k q = k p \<or> f q \<noteq> f p"
  shows "distinct (map f (map (\<lambda>q. if k q = k p then p else q) xs))"
  using assms
proof (induction xs)
  case (Cons q xs)
  have "f x \<noteq> f p" if "k q = k p" "x \<in> set xs" for x
    using Cons.prems(1,3) that by (metis distinct.simps(2) image_eqI list.set_intros(2) list.set_map list.simps(9))
  moreover have "f q \<noteq> f p" if "k q \<noteq> k p" using Cons.prems(3) that by simp
  ultimately show ?case using Cons by (auto simp: image_iff split: if_splits)
qed simp

lemma insert_period_Inr:
  "insert_period p s = (Inr u, s') \<longleftrightarrow>
     p_id p \<notin> set (map p_id (db_periods s)) \<and> period_constraints s p = Inr () \<and>
     s' = s\<lparr>db_periods := db_periods s @ [p]\<rparr>"
  by (auto simp: insert_period_def act)

lemma insert_period_step:
  assumes ok: "db_ok s" and r: "insert_period p s = (r, s')"
  shows "step_ok s s'"
proof (cases r)
  case (Inl x)
  with r have "s' = s" by (auto simp: insert_period_def act)
  with ok show ?thesis by (auto intro: step_ok_refl)
next
  case (Inr u)
  with r have new: "p_id p \<notin> set (map p_id (db_periods s))" and c: "period_constraints s p = Inr ()"
    and s': "s' = s\<lparr>db_periods := db_periods s @ [p]\<rparr>"
    by (auto simp: insert_period_Inr)
  have f: "find_period s' pid \<noteq> None" if "find_period s pid \<noteq> None" for pid
    using that by (auto simp: find_period_def find_append s')
  have same: "find_transfer s' = find_transfer s" "find_account s' = find_account s"
    "entry_period s' = entry_period s"
    by (simp_all add: fun_eq_iff s' find_transfer_def find_account_def entry_period_def)
  have tabs: "db_transfers s' = db_transfers s" "db_entries s' = db_entries s"
    "db_periods s' = db_periods s @ [p]" "db_accounts s' = db_accounts s"
    "db_pending s' = db_pending s"
    by (simp_all add: s')
  have "p_id q \<noteq> p_id p" if "q \<in> set (db_periods s)" for q using new that by (metis image_eqI list.set_map)
  then have "periods_wf s'"
    using db_okD(3) [OF ok] new c by (auto simp: periods_wf_def tabs period_constraints_def)
  moreover have "transfers_wf s'"
    using db_okD(1) [OF ok] f unfolding transfers_wf_def transfer_ok_def same tabs by blast
  moreover have "entries_wf s'" using db_okD(2) [OF ok]
    unfolding entries_wf_def entry_ok_def same tabs .
  moreover have "accounts_wf s'" "balances s'" using db_okD(4,5) [OF ok]
    unfolding accounts_wf_def balances_def imbalance_def entries_of_def tabs by blast+
  ultimately show ?thesis
    by (simp add: step_ok_def db_ok_def extends_def closed_frozen_def entries_in_period_def same tabs)
qed

lemma update_period_Inr:
  "update_period p s = (Inr u, s') \<longleftrightarrow>
     (\<forall>old. find_period s (p_id p) = Some old \<longrightarrow>
        p_status old \<noteq> CLOSED \<and> period_constraints s p = Inr ()) \<and>
     s' = s\<lparr>db_periods := map (\<lambda>q. if p_id q = p_id p then p else q) (db_periods s)\<rparr>"
  by (auto simp: update_period_def act split: option.splits)

lemma update_period_step:
  assumes ok: "db_ok s" and r: "update_period p s = (r, s')"
  shows "step_ok s s'"
proof (cases "\<exists>x. r = Inl x \<or> find_period s (p_id p) = None")
  case True
  have "map (\<lambda>q. if p_id q = p_id p then p else q) (db_periods s) = db_periods s"
    if "find_period s (p_id p) = None"
    using that by (intro map_idI) (auto simp: find_period_def find_None_iff)
  with True r have "s' = s" by (cases r) (auto simp: update_period_def act)
  with ok show ?thesis by (auto intro: step_ok_refl)
next
  case False
  let ?g = "\<lambda>q. if p_id q = p_id p then p else q"
  from False r obtain u old where u: "r = Inr u" and old: "find_period s (p_id p) = Some old"
    by (cases r) auto
  with r have op: "p_status old \<noteq> CLOSED" and c: "period_constraints s p = Inr ()"
    and s': "s' = s\<lparr>db_periods := map ?g (db_periods s)\<rparr>"
    by (auto simp: update_period_Inr)
  have tabs: "db_transfers s' = db_transfers s" "db_entries s' = db_entries s"
    "db_periods s' = map ?g (db_periods s)" "db_accounts s' = db_accounts s"
    "db_pending s' = db_pending s"
    by (simp_all add: s')
  have ids: "map p_id (map ?g (db_periods s)) = map p_id (db_periods s)" by simp
  have f: "find_period s' pid \<noteq> None" if "find_period s pid \<noteq> None" for pid
    using that unfolding find_period_def find_None_key tabs ids .
  have same: "find_transfer s' = find_transfer s" "find_account s' = find_account s"
    "entry_period s' = entry_period s"
    by (simp_all add: fun_eq_iff s' find_transfer_def find_account_def entry_period_def)
  have cp: "(p_status p = OPEN \<and> p_closed_at p = None) \<or> (p_status p = CLOSED \<and> p_closed_at p \<noteq> None)"
    "p_start_date p \<le> p_end_date p"
    "\<forall>q \<in> set (db_periods s). p_id q = p_id p \<or> (p_fund q, p_start_date q) \<noteq> (p_fund p, p_start_date p)"
    using c by (auto simp: period_constraints_def)
  have wf: "distinct (map p_id (db_periods s))"
    "distinct (map (\<lambda>p. (p_fund p, p_start_date p)) (db_periods s))"
    "\<forall>p \<in> set (db_periods s). p_start_date p \<le> p_end_date p \<and> ((p_status p = CLOSED) = (p_closed_at p \<noteq> None))"
    using db_okD(3) [OF ok] by (auto simp: periods_wf_def)
  have "\<forall>q \<in> set (db_periods s'). p_start_date q \<le> p_end_date q \<and> ((p_status q = CLOSED) = (p_closed_at q \<noteq> None))"
    using wf(3) cp(1,2) by (auto simp: tabs)
  then have "periods_wf s'"
    using distinct_map_replace [OF wf(1,2) cp(3)] wf(1)
    unfolding periods_wf_def tabs ids by blast
  moreover have "transfers_wf s'"
    using db_okD(1) [OF ok] f unfolding transfers_wf_def transfer_ok_def same tabs by blast
  moreover have "entries_wf s'" using db_okD(2) [OF ok]
    unfolding entries_wf_def entry_ok_def same tabs .
  moreover have "accounts_wf s'" "balances s'" using db_okD(4,5) [OF ok]
    unfolding accounts_wf_def balances_def imbalance_def entries_of_def tabs by blast+
  moreover have "q \<in> set (db_periods s')" if "q \<in> set (db_periods s)" "p_status q = CLOSED" for q
  proof -
    have "p_id q \<noteq> p_id p"
      using find_period_distinct [OF db_okD(3) [OF ok] that(1)] that(2) old op by auto
    with that(1) show ?thesis by (force simp: tabs)
  qed
  ultimately show ?thesis
    by (simp add: step_ok_def db_ok_def extends_def closed_frozen_def entries_in_period_def same tabs)
qed

section \<open>INSERT INTO ledger\_account\<close>

lemma insert_account_Inr:
  "insert_account a s = (Inr u, s') \<longleftrightarrow>
     account_constraints s a = Inr () \<and> s' = s\<lparr>db_accounts := db_accounts s @ [a]\<rparr>"
  by (auto simp: insert_account_def act)

lemma insert_account_step:
  assumes ok: "db_ok s" and r: "insert_account a s = (r, s')"
  shows "step_ok s s'"
proof (cases r)
  case (Inl x)
  with r have "s' = s" by (auto simp: insert_account_def act)
  with ok show ?thesis by (auto intro: step_ok_refl)
next
  case (Inr u)
  with r have c: "account_constraints s a = Inr ()"
    and s': "s' = s\<lparr>db_accounts := db_accounts s @ [a]\<rparr>"
    by (auto simp: insert_account_Inr)
  have tabs: "db_transfers s' = db_transfers s" "db_entries s' = db_entries s"
    "db_periods s' = db_periods s" "db_accounts s' = db_accounts s @ [a]"
    "db_pending s' = db_pending s"
    by (simp_all add: s')
  have same: "find_transfer s' = find_transfer s" "find_period s' = find_period s"
    "entry_period s' = entry_period s"
    by (simp_all add: fun_eq_iff s' find_transfer_def find_period_def entry_period_def)
  have "find_account s' aid = find_account s aid" if "find_account s aid \<noteq> None" for aid
    using that by (auto simp: find_account_def find_append tabs)
  then have "entries_wf s'" using db_okD(2) [OF ok]
    by (auto simp: entries_wf_def entry_ok_def same tabs)
  moreover have "accounts_wf s'"
    using db_okD(4) [OF ok] c by (auto simp: accounts_wf_def account_constraints_def tabs)
  moreover have "transfers_wf s'" using db_okD(1) [OF ok]
    unfolding transfers_wf_def transfer_ok_def same tabs .
  moreover have "periods_wf s'" "balances s'" using db_okD(3,5) [OF ok]
    unfolding periods_wf_def balances_def imbalance_def entries_of_def tabs by blast+
  ultimately show ?thesis
    by (simp add: step_ok_def db_ok_def extends_def closed_frozen_def entries_in_period_def same tabs)
qed

section \<open>Writes to the other tables\<close>

text \<open>A write that touches none of the ledger's tables and no period is a correct step.\<close>

definition same_ledger :: "db \<Rightarrow> db \<Rightarrow> bool" where
  "same_ledger s s' \<longleftrightarrow>
     db_transfers s' = db_transfers s \<and> db_entries s' = db_entries s \<and> db_periods s' = db_periods s \<and>
     db_accounts s' = db_accounts s \<and> db_pending s' = db_pending s"

lemma same_ledger_step: "db_ok s \<Longrightarrow> same_ledger s s' \<Longrightarrow> step_ok s s'"
proof -
  assume ok: "db_ok s" and e: "same_ledger s s'"
  have tabs: "db_transfers s' = db_transfers s" "db_entries s' = db_entries s" "db_periods s' = db_periods s"
    "db_accounts s' = db_accounts s" "db_pending s' = db_pending s"
    using e by (simp_all add: same_ledger_def)
  have same: "find_transfer s' = find_transfer s" "find_account s' = find_account s"
    "find_period s' = find_period s" "entry_period s' = entry_period s"
    using tabs by (simp_all add: fun_eq_iff find_transfer_def find_account_def find_period_def entry_period_def)
  have "db_ok s'"
    using ok unfolding db_ok_def transfers_wf_def transfer_ok_def entries_wf_def entry_ok_def
        periods_wf_def accounts_wf_def balances_def imbalance_def entries_of_def same tabs .
  then show ?thesis
    using tabs by (simp add: step_ok_def extends_def closed_frozen_def entries_in_period_def same)
qed

lemma other_tables_same:
  "insert_fund f s = (r, s') \<Longrightarrow> same_ledger s s'"
  "insert_lp lp s = (r, s') \<Longrightarrow> same_ledger s s'"
  "insert_commitment c s = (r, s') \<Longrightarrow> same_ledger s s'"
  "insert_fx_rate x s = (r, s') \<Longrightarrow> same_ledger s s'"
  "insert_nav n s = (r, s') \<Longrightarrow> same_ledger s s'"
  "update_nav n s = (r, s') \<Longrightarrow> same_ledger s s'"
  "insert_capital_call cc s = (r, s') \<Longrightarrow> same_ledger s s'"
  "insert_distribution d s = (r, s') \<Longrightarrow> same_ledger s s'"
  by (cases r; auto simp: same_ledger_def act insert_fund_def insert_lp_def insert_commitment_def
      insert_fx_rate_def insert_nav_def update_nav_def insert_capital_call_def insert_distribution_def)+

lemma keeps_other_tables [keeps_intros]:
  shows "keeps (step_ok s0) (insert_fund f)"
    and "keeps (step_ok s0) (insert_lp lp)"
    and "keeps (step_ok s0) (insert_commitment c)"
    and "keeps (step_ok s0) (insert_fx_rate x)"
    and "keeps (step_ok s0) (insert_nav n)"
    and "keeps (step_ok s0) (update_nav n)"
    and "keeps (step_ok s0) (insert_capital_call cc)"
    and "keeps (step_ok s0) (insert_distribution d)"
  by (rule keeps_step_okI, erule same_ledger_step, erule other_tables_same)+

section \<open>Every statement keeps the guarantees\<close>

lemma keeps_statements [keeps_intros]:
  shows "keeps (step_ok s0) (insert_transfer t)"
    and "keeps (step_ok s0) (insert_entry e)"
    and "keeps (step_ok s0) fire_deferred"
    and "keeps (step_ok s0) (insert_period p)"
    and "keeps (step_ok s0) (update_period p)"
    and "keeps (step_ok s0) (insert_account a)"
    and "keeps (step_ok s0) forbid_mutation"
  unfolding forbid_mutation_def
  by (rule keeps_step_okI keeps_raise,
      erule (1) insert_transfer_step insert_entry_step fire_deferred_step insert_period_step
        update_period_step insert_account_step | rule keeps_raise)+

end
