(* ===== verification/Database.thy ===== *)
theory Database
  imports Store_Invariants
begin

text \<open>
  Transactions of arbitrary SQL statements on the ledger's tables: what the database
  guarantees whatever code runs against it (the claim of README.md that the database has the
  final say). Updates and deletes of the append-only tables raise in the trigger.
\<close>

section \<open>Statements and transactions\<close>

datatype stmt =
    InsertTransfer transfer
  | InsertEntries "entry list"
  | InsertPeriod period
  | UpdatePeriod period
  | InsertAccount account
  | InsertFund fund
  | InsertLp limited_partner
  | InsertCommitment commitment
  | InsertFxRate fx_rate
  | InsertNav nav_snapshot
  | UpdateNav nav_snapshot
  | InsertCapitalCall capital_call
  | InsertDistribution distribution
  | MutateLedgerRow
  | SetConstraintsImmediate

fun exec_stmt :: "stmt \<Rightarrow> unit op" where
  "exec_stmt (InsertTransfer t) = insert_transfer t"
| "exec_stmt (InsertEntries es) = each_act insert_entry es"
| "exec_stmt (InsertPeriod p) = insert_period p"
| "exec_stmt (UpdatePeriod p) = update_period p"
| "exec_stmt (InsertAccount a) = insert_account a"
| "exec_stmt (InsertFund f) = insert_fund f"
| "exec_stmt (InsertLp lp) = insert_lp lp"
| "exec_stmt (InsertCommitment c) = insert_commitment c"
| "exec_stmt (InsertFxRate x) = insert_fx_rate x"
| "exec_stmt (InsertNav n) = insert_nav n"
| "exec_stmt (UpdateNav n) = update_nav n"
| "exec_stmt (InsertCapitalCall c) = insert_capital_call c"
| "exec_stmt (InsertDistribution d) = insert_distribution d"
| "exec_stmt MutateLedgerRow = forbid_mutation"
| "exec_stmt SetConstraintsImmediate = fire_deferred"

text \<open>COMMIT runs what is left in the queue of the deferred trigger; an error rolls back.\<close>

definition sql_transaction :: "stmt list \<Rightarrow> unit op" where
  "sql_transaction stmts = atomic (bind_act (each_act exec_stmt stmts) (\<lambda>_. fire_deferred))"

definition empty_db :: db where
  "empty_db = \<lparr>db_funds = [], db_lps = [], db_commitments = [], db_periods = [], db_fx_rates = [],
     db_navs = [], db_accounts = [], db_transfers = [], db_entries = [], db_capital_calls = [],
     db_distributions = [], db_pending = []\<rparr>"

inductive reachable_db :: "db \<Rightarrow> bool" where
  empty: "reachable_db empty_db"
| tx: "reachable_db s \<Longrightarrow> sql_transaction stmts s = (r, s') \<Longrightarrow> reachable_db s'"

definition committed :: "db \<Rightarrow> bool" where
  "committed s \<longleftrightarrow> db_ok s \<and> db_pending s = []"

section \<open>What a transaction guarantees\<close>

lemma keeps_exec_stmt [keeps_intros]: "keeps (step_ok s0) (exec_stmt st)"
  by (cases st) (auto intro!: keeps_intros)

lemma keeps_sql_transaction: "keeps (step_ok s0) (sql_transaction stmts)"
  unfolding sql_transaction_def by (intro keeps_intros)

lemma sql_transaction_pending:
  "sql_transaction stmts s = (r, s') \<Longrightarrow> db_pending s = [] \<Longrightarrow> db_pending s' = []"
  by (cases r) (auto simp: sql_transaction_def act fire_deferred_Inr)

lemma db_ok_empty: "db_ok empty_db"
  by (simp add: db_ok_def empty_db_def transfers_wf_def entries_wf_def periods_wf_def
      accounts_wf_def balances_def imbalance_def entries_of_def)

lemma sql_transaction_committed:
  assumes "committed s" and "sql_transaction stmts s = (r, s')"
  shows "committed s' \<and> step_ok s s'"
  using keepsD [OF keeps_sql_transaction step_ok_refl assms(2)] assms
    sql_transaction_pending [OF assms(2)]
  by (auto simp: committed_def step_ok_def)

lemma reachable_committed: "reachable_db s \<Longrightarrow> committed s"
proof (induction rule: reachable_db.induct)
  case empty
  show ?case using db_ok_empty by (simp add: committed_def empty_db_def)
next
  case (tx s stmts r s')
  then show ?case using sql_transaction_committed by blast
qed

lemma committed_imbalance: "committed s \<Longrightarrow> imbalance s tid = 0"
  by (simp add: committed_def db_ok_def balances_def)

end
