(* ===== verification/Reconciliation.thy ===== *)
theory Reconciliation
  imports Database
begin

text \<open>
  The independent checker, \<^verbatim>\<open>ledger/reconciliation.py\<close>, the balances of
  \<^verbatim>\<open>ledger/queries.py\<close> and the \<^verbatim>\<open>reconcile\<close> command.
\<close>

section \<open>ledger/queries.py\<close>

definition account_entries :: "db \<Rightarrow> uuid \<Rightarrow> timestamp option \<Rightarrow> entry list" where
  "account_entries s aid as_of =
     filter (\<lambda>e. e_account e = aid \<and> (case as_of of None \<Rightarrow> True | Some t \<Rightarrow> e_created_at e \<le> t))
       (db_entries s)"

definition native_balance :: "db \<Rightarrow> uuid \<Rightarrow> timestamp option \<Rightarrow> rat" where
  "native_balance s aid as_of = sum_list (map signed_amount (account_entries s aid as_of))"

definition base_balance :: "db \<Rightarrow> uuid \<Rightarrow> timestamp option \<Rightarrow> rat" where
  "base_balance s aid as_of = sum_list (map signed_base_amount (account_entries s aid as_of))"

text \<open>
  \<^verbatim>\<open>EFFECTIVE_TYPE\<close>: a reversal counts as the kind of transfer it reverses.
\<close>

definition effective_type :: "db \<Rightarrow> entry \<Rightarrow> transfer_type option" where
  "effective_type s e =
     Option.bind (find_transfer s (e_transfer e)) (\<lambda>t.
       case Option.bind (t_reverses t) (find_transfer s) of
         Some r \<Rightarrow> Some (t_transfer_type r)
       | None \<Rightarrow> Some (t_transfer_type t))"

section \<open>ledger/reconciliation.py\<close>

text \<open>The checker's own sign convention, written on the raw columns.\<close>

definition SIGNED :: "entry \<Rightarrow> rat" where
  "SIGNED e = (if e_direction e = DEBIT then e_base_amount e else - e_base_amount e)"

definition total_imbalance :: "db \<Rightarrow> timestamp option \<Rightarrow> rat" where
  "total_imbalance s as_of =
     sum_list (map SIGNED (filter (\<lambda>e. case as_of of None \<Rightarrow> True | Some t \<Rightarrow> e_created_at e \<le> t)
       (db_entries s)))"

definition in_fund :: "db \<Rightarrow> uuid \<Rightarrow> entry \<Rightarrow> bool" where
  "in_fund s fid e \<longleftrightarrow> map_option a_fund (find_account s (e_account e)) = Some fid"

text \<open>\<^verbatim>\<open>GROUP BY transfer_id HAVING SUM(..) <> 0 ORDER BY transfer_id LIMIT n\<close>.\<close>

definition unbalanced_transfers :: "db \<Rightarrow> uuid option \<Rightarrow> nat \<Rightarrow> (uuid \<times> rat) list" where
  "unbalanced_transfers s fund_id limit =
     (let es = filter (\<lambda>e. case fund_id of None \<Rightarrow> True | Some fid \<Rightarrow> in_fund s fid e) (db_entries s);
          groups = map (\<lambda>tid. (tid, sum_list (map SIGNED (filter (\<lambda>e. e_transfer e = tid) es))))
                     (sort (remdups (map e_transfer es)))
      in take limit (filter (\<lambda>(tid, total). total \<noteq> 0) groups))"

definition period_imbalance :: "db \<Rightarrow> uuid \<Rightarrow> rat" where
  "period_imbalance s pid =
     sum_list (map SIGNED (filter (\<lambda>e. entry_period s e = Some pid) (db_entries s)))"

definition fund_imbalance :: "db \<Rightarrow> uuid \<Rightarrow> rat" where
  "fund_imbalance s fid = sum_list (map SIGNED (filter (in_fund s fid) (db_entries s)))"

text \<open>
  The \<^verbatim>\<open>reconcile\<close> command: \<open>Inl\<close> is the \<^verbatim>\<open>CommandError\<close> with the
  system's imbalance and the transfers it reported.
\<close>

definition reconcile_command ::
    "db \<Rightarrow> timestamp option \<Rightarrow> rat \<times> (uuid \<times> rat) list + rat" where
  "reconcile_command s as_of =
     (let imb = total_imbalance s as_of; broken = unbalanced_transfers s None 100
      in if imb \<noteq> 0 \<or> broken \<noteq> [] then Inl (imb, broken) else Inr imb)"

lemma SIGNED_eq [simp]: "SIGNED = signed_base_amount"
  by (simp add: fun_eq_iff SIGNED_def signed_base_amount_def signed_def)

section \<open>The checker agrees with the ledger\<close>

text \<open>Any sum over whole transfers is the sum of those transfers' imbalances.\<close>

lemma sum_whole_transfers:
  assumes whole: "\<And>e e'. e \<in> set (db_entries s) \<Longrightarrow> e' \<in> set (db_entries s) \<Longrightarrow>
      e_transfer e = e_transfer e' \<Longrightarrow> P e = P e'"
    and bal: "\<And>tid. imbalance s tid = 0"
  shows "sum_list (map signed_base_amount (filter P (db_entries s))) = 0"
proof -
  let ?K = "set (map e_transfer (filter P (db_entries s)))"
  have "sum_list (map signed_base_amount (filter P (db_entries s))) =
    (\<Sum>k \<in> ?K. sum_list (map signed_base_amount (filter (\<lambda>e. e_transfer e = k) (filter P (db_entries s)))))"
    by (rule sum_list_group) auto
  also have "\<dots> = (\<Sum>k \<in> ?K. imbalance s k)"
  proof (rule sum.cong [OF refl])
    fix k assume "k \<in> ?K"
    then obtain e0 where "e0 \<in> set (db_entries s)" "P e0" "e_transfer e0 = k" by auto
    then have "filter (\<lambda>e. P e \<and> e_transfer e = k) (db_entries s) = entries_of k s"
      unfolding entries_of_def by (intro filter_cong refl) (metis whole)
    then have "filter (\<lambda>e. e_transfer e = k) (filter P (db_entries s)) = entries_of k s"
      by (simp only: filter_filter)
    then show "sum_list (map signed_base_amount (filter (\<lambda>e. e_transfer e = k) (filter P (db_entries s)))) =
      imbalance s k"
      by (simp add: imbalance_def)
  qed
  also have "\<dots> = 0" by (simp add: bal)
  finally show ?thesis .
qed

lemma total_imbalance_zero: "(\<And>tid. imbalance s tid = 0) \<Longrightarrow> total_imbalance s None = 0"
  unfolding total_imbalance_def using sum_whole_transfers [of s "\<lambda>_. True"] by simp

lemma period_imbalance_zero: "(\<And>tid. imbalance s tid = 0) \<Longrightarrow> period_imbalance s pid = 0"
  unfolding period_imbalance_def SIGNED_eq
  by (rule sum_whole_transfers) (auto simp: entry_period_def)

lemma unbalanced_all:
  assumes "0 < n"
  shows "unbalanced_transfers s None n = [] \<longleftrightarrow> (\<forall>tid. imbalance s tid = 0)"
proof -
  have z: "imbalance s tid = 0" if "tid \<notin> e_transfer ` set (db_entries s)" for tid
  proof -
    have "entries_of tid s = []" using that by (auto simp: entries_of_def filter_empty_conv)
    then show ?thesis by (simp add: imbalance_def)
  qed
  have "unbalanced_transfers s None n = [] \<longleftrightarrow>
    (\<forall>tid \<in> e_transfer ` set (db_entries s). imbalance s tid = 0)"
    using assms
    by (auto simp: unbalanced_transfers_def Let_def filter_empty_conv imbalance_def entries_of_def)
  with z show ?thesis by blast
qed

end
