(* ===== verification/Pricing.thy ===== *)
theory Pricing
  imports Reconciliation
begin

text \<open>
  \<^verbatim>\<open>ledger/pricing.py\<close>: requested legs become priced legs, with the currency of
  their account, the FX rate and the amount in the fund's base currency; a rounding residual
  of the conversions is absorbed by one of the converted legs.
\<close>

section \<open>Rates and conversion\<close>

text \<open>Latest published rate on or before a date.\<close>

definition fx_rate_for :: "db \<Rightarrow> string \<Rightarrow> string \<Rightarrow> date \<Rightarrow> exn + rat" where
  "fx_rate_for s from_ccy to_ccy on =
     (let rows = filter (\<lambda>x. x_from_currency x = from_ccy \<and> x_to_currency x = to_ccy \<and> x_as_of_date x \<le> on)
                   (db_fx_rates s)
      in case first_row (rev (sort_key x_as_of_date rows)) of
           None \<Rightarrow> Inl (LedgerErr MissingFxRate)
         | Some x \<Rightarrow> Inr (x_rate x))"

text \<open>In a context of precision 50: the product is rounded to 50 digits, then quantized.\<close>

definition convert :: "rat \<Rightarrow> rat \<Rightarrow> exn + rat" where
  "convert amount rate =
     (case quantize 50 4 (ctx_round 50 (amount * rate)) of
        None \<Rightarrow> Inl DecimalInvalid
      | Some b \<Rightarrow> Inr b)"

section \<open>Pricing the legs\<close>

text \<open>
  The amount of a leg that \<^verbatim>\<open>validate_legs\<close> has let through; other values do not
  reach the pricing.
\<close>

fun leg_amount :: "leg \<Rightarrow> exn + rat" where
  "leg_amount l = (case l_amount l of Decimal x \<Rightarrow> Inr x | _ \<Rightarrow> Inl TypeErr)"

text \<open>
  The rate of a foreign leg: the caller's override, else the day's rate, looked up once per
  currency and remembered in \<^verbatim>\<open>rates\<close>.
\<close>

definition leg_rate ::
    "db \<Rightarrow> string \<Rightarrow> date \<Rightarrow> (string \<rightharpoonup> rat) \<Rightarrow> leg \<Rightarrow> string \<Rightarrow> exn + rat \<times> (string \<rightharpoonup> rat)" where
  "leg_rate s base_currency fx_date rates l currency =
     (case l_fx_rate l of
        Some r \<Rightarrow> Inr (r, rates)
      | None \<Rightarrow>
          (case rates currency of
             Some r \<Rightarrow> Inr (r, rates)
           | None \<Rightarrow> rbind (fx_rate_for s currency base_currency fx_date) (\<lambda>r.
                       Inr (r, rates(currency \<mapsto> r)))))"

definition price_leg ::
    "db \<Rightarrow> (uuid \<rightharpoonup> account) \<Rightarrow> string \<Rightarrow> date \<Rightarrow> (string \<rightharpoonup> rat) \<Rightarrow> leg \<Rightarrow>
     exn + priced_leg \<times> (string \<rightharpoonup> rat)" where
  "price_leg s accounts base_currency fx_date rates l =
     (case accounts (l_account_id l) of
        None \<Rightarrow> Inl KeyErr
      | Some account \<Rightarrow>
          rbind (leg_amount l) (\<lambda>amount.
          rbind (if a_currency account = base_currency then Inr (None, amount, False, rates)
                 else rbind (leg_rate s base_currency fx_date rates l (a_currency account))
                        (\<lambda>(r, rates'). rbind (convert amount r) (\<lambda>b. Inr (Some r, b, True, rates'))))
            (\<lambda>(fx, base, adjustable, rates').
               let (base', adjustable') =
                     (case l_base_amount l of Some b \<Rightarrow> (b, False) | None \<Rightarrow> (base, adjustable))
               in Inr (\<lparr>pl_account = account, pl_direction = l_direction l, pl_amount = amount,
                        pl_currency = a_currency account, pl_fx_rate = fx, pl_base_amount = base',
                        pl_adjustable = adjustable'\<rparr>, rates'))))"

fun price_each ::
    "db \<Rightarrow> (uuid \<rightharpoonup> account) \<Rightarrow> string \<Rightarrow> date \<Rightarrow> (string \<rightharpoonup> rat) \<Rightarrow> leg list \<Rightarrow>
     exn + priced_leg list" where
  "price_each s accounts base_currency fx_date rates [] = Inr []"
| "price_each s accounts base_currency fx_date rates (l # ls) =
     rbind (price_leg s accounts base_currency fx_date rates l) (\<lambda>(p, rates').
     rbind (price_each s accounts base_currency fx_date rates' ls) (\<lambda>ps. Inr (p # ps)))"

section \<open>Absorbing the rounding residual\<close>

definition debits :: "priced_leg list \<Rightarrow> rat" where
  "debits ps = sum_list (map pl_base_amount (filter (\<lambda>p. pl_direction p = DEBIT) ps))"

definition credits :: "priced_leg list \<Rightarrow> rat" where
  "credits ps = sum_list (map pl_base_amount (filter (\<lambda>p. pl_direction p = CREDIT) ps))"

text \<open>
  \<^verbatim>\<open>max(candidates, key=lambda j: (priced[j].base_amount, j))\<close>: the largest base
  amount, the last of them on a tie. The candidates come in ascending order.
\<close>

fun largest :: "priced_leg list \<Rightarrow> nat \<Rightarrow> nat list \<Rightarrow> nat" where
  "largest ps i [] = i"
| "largest ps i (j # js) =
     largest ps (if pl_base_amount (ps ! i) \<le> pl_base_amount (ps ! j) then j else i) js"

definition absorb_rounding_residual :: "priced_leg list \<Rightarrow> priced_leg list" where
  "absorb_rounding_residual ps =
     (let residual = debits ps - credits ps
      in if residual = 0 then ps
         else case filter (\<lambda>i. pl_adjustable (ps ! i)) [0..<length ps] of
                [] \<Rightarrow> ps
              | c # cs \<Rightarrow>
                  if \<bar>residual\<bar> > (1/10000) * of_nat (length (c # cs)) then ps
                  else let i = largest ps c cs; leg = ps ! i;
                           adjustment = (if pl_direction leg = DEBIT then - residual else residual)
                       in ps[i := leg\<lparr>pl_base_amount := pl_base_amount leg + adjustment\<rparr>])"

definition price_legs ::
    "db \<Rightarrow> leg list \<Rightarrow> (uuid \<rightharpoonup> account) \<Rightarrow> string \<Rightarrow> date \<Rightarrow> exn + priced_leg list" where
  "price_legs s legs accounts base_currency fx_date =
     rbind (price_each s accounts base_currency fx_date Map.empty legs) (\<lambda>ps.
       Inr (absorb_rounding_residual ps))"

section \<open>Lemmas\<close>

text \<open>
  \<open>leg_match\<close>: what pricing leaves untouched of a leg. It copies the account, direction and
  native amount; only the base amount is computed.
\<close>

definition leg_match :: "(uuid \<rightharpoonup> account) \<Rightarrow> leg \<Rightarrow> priced_leg \<Rightarrow> bool" where
  "leg_match accounts l p \<longleftrightarrow>
     accounts (l_account_id l) = Some (pl_account p) \<and> pl_direction p = l_direction l \<and>
     l_amount l = Decimal (pl_amount p) \<and> pl_currency p = a_currency (pl_account p)"

lemma leg_amount_Inr [simp]: "leg_amount l = Inr x \<longleftrightarrow> l_amount l = Decimal x"
  by (auto split: pynum.splits)

declare leg_amount.simps [simp del]

lemma price_leg_match:
  "price_leg s accounts base_currency fx_date rates l = Inr (p, rates') \<Longrightarrow> leg_match accounts l p"
  by (auto simp: price_leg_def leg_match_def Let_def split: option.splits prod.splits if_splits)

lemma price_each_match:
  "price_each s accounts base_currency fx_date rates ls = Inr ps \<Longrightarrow>
   list_all2 (leg_match accounts) ls ps"
proof (induction ls arbitrary: rates ps)
  case (Cons l ls)
  then show ?case by (auto dest: price_leg_match split: prod.splits)
qed simp

lemma largest_mem: "largest ps i js \<in> set (i # js)"
proof (induction js arbitrary: i)
  case (Cons j js)
  show ?case using Cons [of "if pl_base_amount (ps ! i) \<le> pl_base_amount (ps ! j) then j else i"]
    by auto
qed simp

text \<open>What the absorption can do: nothing, or move the residual into one adjustable leg.\<close>

lemma absorb_cases:
  obtains "absorb_rounding_residual ps = ps"
  | i where "i < length ps" "pl_adjustable (ps ! i)"
      "\<bar>debits ps - credits ps\<bar> \<le> (1/10000) * of_nat (length (filter pl_adjustable ps))"
      "absorb_rounding_residual ps = ps[i := (ps ! i)\<lparr>pl_base_amount := pl_base_amount (ps ! i) +
         (if pl_direction (ps ! i) = DEBIT then - (debits ps - credits ps) else debits ps - credits ps)\<rparr>]"
proof (cases "absorb_rounding_residual ps = ps")
  case True
  with that(1) show ?thesis .
next
  case False
  then obtain c cs where cs: "filter (\<lambda>i. pl_adjustable (ps ! i)) [0..<length ps] = c # cs"
    by (auto simp: absorb_rounding_residual_def Let_def split: list.splits if_splits)
  have "map (\<lambda>i. ps ! i) [0..<length ps] = ps" by (rule map_nth)
  then have n: "length (c # cs) = length (filter pl_adjustable ps)"
    by (metis (no_types) cs comp_def filter_map length_map filter_cong)
  have "largest ps c cs \<in> set (filter (\<lambda>i. pl_adjustable (ps ! i)) [0..<length ps])"
    using largest_mem cs by metis
  then have i: "largest ps c cs < length ps" "pl_adjustable (ps ! largest ps c cs)" by auto
  from False cs have r: "\<bar>debits ps - credits ps\<bar> \<le> (1/10000) * of_nat (length (c # cs))"
    and eq: "absorb_rounding_residual ps = ps[largest ps c cs := (ps ! largest ps c cs)\<lparr>pl_base_amount :=
         pl_base_amount (ps ! largest ps c cs) +
         (if pl_direction (ps ! largest ps c cs) = DEBIT then - (debits ps - credits ps) else debits ps - credits ps)\<rparr>]"
    by (auto simp: absorb_rounding_residual_def Let_def split: if_splits)
  from that(2) [OF i r [unfolded n] eq] show ?thesis .
qed

text \<open>Everything but base amounts survives the absorption.\<close>

lemma absorb_match:
  "list_all2 (leg_match accounts) ls ps \<Longrightarrow>
   list_all2 (leg_match accounts) ls (absorb_rounding_residual ps)"
proof (cases ps rule: absorb_cases)
  case (2 i)
  assume m: "list_all2 (leg_match accounts) ls ps"
  show ?thesis
    unfolding 2(4)
    using m 2(1) by (auto simp: list_all2_conv_all_nth nth_list_update leg_match_def)
qed simp

lemma price_legs_match:
  "price_legs s ls accounts base_currency fx_date = Inr ps \<Longrightarrow> list_all2 (leg_match accounts) ls ps"
  by (auto simp: price_legs_def intro: absorb_match price_each_match)

end
