(* ===== verification/Engine.thy ===== *)
theory Engine
  imports Pricing
begin

text \<open>
  The ledger engine, \<^verbatim>\<open>ledger/services.py\<close>: \<^verbatim>\<open>post_transfer\<close>, the only
  code path that writes entries, with its checks in the code's order. The account locks make
  what happens between the balance check and the insert atomic; the step from there to a
  single transition of the database is justified in theory \<open>Locking\<close>.
\<close>

section \<open>Checks of the request\<close>

definition validate_amount :: "leg \<Rightarrow> exn + unit" where
  "validate_amount l =
     (case l_amount l of
        NotDecimal _ \<Rightarrow> Inl (LedgerErr (InvalidTransfer AmountNotDecimal))
      | NonFinite \<Rightarrow> Inl (LedgerErr (InvalidTransfer AmountNotPositive))
      | Decimal x \<Rightarrow>
          if x \<le> 0 then Inl (LedgerErr (InvalidTransfer AmountNotPositive))
          else case quantize 28 4 x of
                 None \<Rightarrow> Inl DecimalInvalid
               | Some q \<Rightarrow> ensure (x = q) (LedgerErr (InvalidTransfer TooManyPlaces)))"

definition validate_legs :: "leg list \<Rightarrow> exn + unit" where
  "validate_legs legs =
     rbind (ensure (2 \<le> length legs) (LedgerErr (InvalidTransfer TooFewLegs))) (\<lambda>_.
     let directions = map l_direction legs in
     rbind (ensure (\<forall>d \<in> set directions. d = DEBIT \<or> d = CREDIT)
              (LedgerErr (InvalidTransfer UnknownDirection))) (\<lambda>_.
     rbind (ensure (DEBIT \<in> set directions \<and> CREDIT \<in> set directions)
              (LedgerErr (InvalidTransfer OneSided))) (\<lambda>_.
     each validate_amount legs)))"

section \<open>The accounts of the transfer\<close>

text \<open>
  The rows that \<^verbatim>\<open>SELECT ... FOR UPDATE ORDER BY id\<close> locks and returns; the
  dictionary of them by id.
\<close>

definition lock_accounts :: "leg list \<Rightarrow> db \<Rightarrow> exn + account list" where
  "lock_accounts legs s =
     (let ids = remdups (map l_account_id legs);
          locked = sort_key a_id (filter (\<lambda>a. a_id a \<in> set ids) (db_accounts s))
      in if length locked \<noteq> length ids then Inl (LedgerErr UnknownAccount) else Inr locked)"

definition account_dict :: "account list \<Rightarrow> uuid \<rightharpoonup> account" where
  "account_dict locked = map_of (map (\<lambda>a. (a_id a, a)) locked)"

text \<open>The period is the caller's object: its status is the one that was read with it.\<close>

definition validate_context :: "period \<Rightarrow> account list \<Rightarrow> exn + unit" where
  "validate_context p locked =
     rbind (ensure (p_status p = OPEN) (LedgerErr ClosedPeriod)) (\<lambda>_.
     ensure (filter (\<lambda>a. a_fund a \<noteq> p_fund p) locked = []) (LedgerErr (InvalidTransfer ForeignAccounts)))"

section \<open>Checks of the priced legs\<close>

definition check_balanced :: "priced_leg list \<Rightarrow> exn + unit" where
  "check_balanced ps = ensure (debits ps = credits ps) (LedgerErr UnbalancedTransfer)"

definition cash_deltas :: "priced_leg list \<Rightarrow> (uuid \<times> rat) list" where
  "cash_deltas ps =
     dict_sum (\<lambda>p. a_account_type (pl_account p) \<in> set NON_NEGATIVE_TYPES) (\<lambda>p. a_id (pl_account p))
       (\<lambda>p. signed (pl_direction p) (pl_amount p)) ps"

definition check_sufficient_funds :: "priced_leg list \<Rightarrow> db \<Rightarrow> exn + unit" where
  "check_sufficient_funds ps s =
     each (\<lambda>(account_id, delta).
       if 0 \<le> delta then Inr ()
       else ensure (\<not> native_balance s account_id None + delta < 0) (LedgerErr InsufficientFunds))
       (cash_deltas ps)"

section \<open>post\_transfer\<close>

text \<open>The keyword arguments of \<^verbatim>\<open>post_transfer\<close>.\<close>

record posting =
  po_idempotency_key :: string
  po_legs :: "leg list"
  po_period :: period
  po_transfer_type :: transfer_type
  po_description :: string
  po_reverses :: "uuid option"
  po_request_hash :: string
  po_created_by :: string
  po_fx_date :: "date option"

definition new_transfer :: "env \<Rightarrow> posting \<Rightarrow> transfer" where
  "new_transfer env po = \<lparr>t_id = new_transfer_id env, t_idempotency_key = po_idempotency_key po,
     t_request_hash = po_request_hash po, t_transfer_type = po_transfer_type po,
     t_reverses = po_reverses po, t_period = p_id (po_period po),
     t_description = po_description po, t_created_by = po_created_by po,
     t_created_at = now env\<rparr>"

definition new_entry :: "env \<Rightarrow> uuid \<Rightarrow> nat \<Rightarrow> priced_leg \<Rightarrow> entry" where
  "new_entry env tid i p = \<lparr>e_id = new_entry_id env i, e_transfer = tid, e_account = a_id (pl_account p),
     e_direction = pl_direction p, e_amount = pl_amount p, e_currency = pl_currency p,
     e_fx_rate = pl_fx_rate p, e_base_amount = pl_base_amount p, e_created_at = now env\<rparr>"

definition new_entries :: "env \<Rightarrow> uuid \<Rightarrow> priced_leg list \<Rightarrow> entry list" where
  "new_entries env tid ps = map2 (new_entry env tid) [0..<length ps] ps"

definition post_transfer :: "env \<Rightarrow> posting \<Rightarrow> transfer op" where
  "post_transfer env po =
     bind_act (query (\<lambda>_. validate_legs (po_legs po))) (\<lambda>_.
     atomic (
       bind_act (query (lock_accounts (po_legs po))) (\<lambda>locked.
       bind_act (query (\<lambda>_. validate_context (po_period po) locked)) (\<lambda>_.
       bind_act (query (\<lambda>s. get_row (\<lambda>f. f_id f = p_fund (po_period po)) (db_funds s))) (\<lambda>fund.
       bind_act (query (\<lambda>s. price_legs s (po_legs po) (account_dict locked) (f_base_currency fund)
                              (case po_fx_date po of Some d \<Rightarrow> d | None \<Rightarrow> today env))) (\<lambda>priced.
       bind_act (query (\<lambda>_. check_balanced priced)) (\<lambda>_.
       bind_act (query (check_sufficient_funds priced)) (\<lambda>_.
       bind_act (insert_transfer (new_transfer env po)) (\<lambda>_.
       bind_act (each_act insert_entry (new_entries env (new_transfer_id env) priced)) (\<lambda>_.
       bind_act fire_deferred (\<lambda>_.
       ret (new_transfer env po))))))))))))"

section \<open>What the checks establish\<close>

text \<open>
  A positive amount with at most four decimal places; above \<open>10^24\<close> the quantization itself
  raises \<^verbatim>\<open>InvalidOperation\<close>.
\<close>

definition valid_amount :: "rat \<Rightarrow> bool" where
  "valid_amount x \<longleftrightarrow> 0 < x \<and> dp 4 x \<and> x < 10 ^ 24"

lemma validate_amount_Inr: "validate_amount l = Inr u \<longleftrightarrow> (\<exists>x. l_amount l = Decimal x \<and> valid_amount x)"
proof (cases "l_amount l")
  case (Decimal x)
  have "validate_amount l = Inr u \<longleftrightarrow> 0 < x \<and> quantize 28 4 x = Some x"
    using Decimal by (auto simp: validate_amount_def not_le split: option.splits)
  also have "\<dots> \<longleftrightarrow> valid_amount x"
    unfolding quantize_exact valid_amount_def by auto
  finally show ?thesis using Decimal by simp
qed (simp_all add: validate_amount_def)

lemma validate_legs_Inr:
  "validate_legs legs = Inr u \<longleftrightarrow>
     2 \<le> length legs \<and> (\<forall>l \<in> set legs. l_direction l = DEBIT \<or> l_direction l = CREDIT) \<and>
     (\<exists>l \<in> set legs. l_direction l = DEBIT) \<and> (\<exists>l \<in> set legs. l_direction l = CREDIT) \<and>
     (\<forall>l \<in> set legs. \<exists>x. l_amount l = Decimal x \<and> valid_amount x)"
proof -
  have *: "DEBIT \<in> l_direction ` set legs \<longleftrightarrow> (\<exists>l \<in> set legs. l_direction l = DEBIT)"
    "CREDIT \<in> l_direction ` set legs \<longleftrightarrow> (\<exists>l \<in> set legs. l_direction l = CREDIT)"
    by (auto simp: image_iff eq_commute)
  show ?thesis
    by (simp add: validate_legs_def Let_def each_Inr validate_amount_Inr *)
qed

lemma lock_accounts_Inr:
  assumes "lock_accounts legs s = Inr locked"
  shows "set locked = {a \<in> set (db_accounts s). a_id a \<in> l_account_id ` set legs}"
    and "sorted (map a_id locked)"
  using assms by (auto simp: lock_accounts_def Let_def split: if_splits)

lemma account_dict_Some:
  "account_dict locked aid = Some a \<Longrightarrow> a \<in> set locked \<and> a_id a = aid"
  unfolding account_dict_def by (drule map_of_SomeD) auto

lemma new_entries_length [simp]: "length (new_entries env tid ps) = length ps"
  by (simp add: new_entries_def)

lemma new_entries_nth:
  "i < length ps \<Longrightarrow> new_entries env tid ps ! i = new_entry env tid i (ps ! i)"
  by (simp add: new_entries_def)

section \<open>The inserts\<close>

lemma insert_entries_Inr:
  "each_act insert_entry es s = (Inr u, s') \<Longrightarrow>
   \<exists>es'. list_all2 (\<lambda>e e'. stored_entry e = Inr e') es es' \<and>
     s' = s\<lparr>db_entries := db_entries s @ es', db_pending := db_pending s @ map e_transfer es'\<rparr>"
proof (induction es arbitrary: s)
  case Nil
  then show ?case by (auto simp: act)
next
  case (Cons e es)
  then obtain s1 where 1: "insert_entry e s = (Inr (), s1)" and 2: "each_act insert_entry es s1 = (Inr u, s')"
    by (auto simp: act)
  from 1 obtain e' where e': "stored_entry e = Inr e'"
    "s1 = s\<lparr>db_entries := db_entries s @ [e'], db_pending := db_pending s @ [e_transfer e']\<rparr>"
    by (auto simp: insert_entry_Inr)
  from Cons.IH [OF 2] obtain es' where "list_all2 (\<lambda>e e'. stored_entry e = Inr e') es es'"
    "s' = s1\<lparr>db_entries := db_entries s1 @ es', db_pending := db_pending s1 @ map e_transfer es'\<rparr>"
    by blast
  with e' show ?case by (intro exI [of _ "e' # es'"]) simp
qed

lemma keeps_post_transfer [keeps_intros]: "keeps (step_ok s0) (post_transfer env po)"
  unfolding post_transfer_def by (intro keeps_intros)

text \<open>The anatomy of a successful posting.\<close>

lemma post_transfer_InrE:
  assumes "post_transfer env po s = (Inr t, s')"
  obtains locked fund priced stored where
    "validate_legs (po_legs po) = Inr ()"
    "lock_accounts (po_legs po) s = Inr locked"
    "validate_context (po_period po) locked = Inr ()"
    "get_row (\<lambda>f. f_id f = p_fund (po_period po)) (db_funds s) = Inr fund"
    "price_legs s (po_legs po) (account_dict locked) (f_base_currency fund)
       (case po_fx_date po of Some d \<Rightarrow> d | None \<Rightarrow> today env) = Inr priced"
    "debits priced = credits priced"
    "check_sufficient_funds priced s = Inr ()"
    "t = new_transfer env po" "transfer_constraints s t = Inr ()"
    "list_all2 (\<lambda>e e'. stored_entry e = Inr e') (new_entries env (new_transfer_id env) priced) stored"
    "s' = s\<lparr>db_transfers := db_transfers s @ [t], db_entries := db_entries s @ stored, db_pending := []\<rparr>"
proof -
  from assms obtain locked fund priced s1 s2 where
    1: "validate_legs (po_legs po) = Inr ()"
    "lock_accounts (po_legs po) s = Inr locked"
    "validate_context (po_period po) locked = Inr ()"
    "get_row (\<lambda>f. f_id f = p_fund (po_period po)) (db_funds s) = Inr fund"
    "price_legs s (po_legs po) (account_dict locked) (f_base_currency fund)
       (case po_fx_date po of Some d \<Rightarrow> d | None \<Rightarrow> today env) = Inr priced"
    "check_balanced priced = Inr ()" "check_sufficient_funds priced s = Inr ()"
    and 2: "insert_transfer (new_transfer env po) s = (Inr (), s1)"
    "each_act insert_entry (new_entries env (new_transfer_id env) priced) s1 = (Inr (), s2)"
    "fire_deferred s2 = (Inr (), s')" and t: "t = new_transfer env po"
    by (auto simp: post_transfer_def act)
  from insert_entries_Inr [OF 2(2)] obtain stored where
    st: "list_all2 (\<lambda>e e'. stored_entry e = Inr e') (new_entries env (new_transfer_id env) priced) stored"
    "s2 = s1\<lparr>db_entries := db_entries s1 @ stored, db_pending := db_pending s1 @ map e_transfer stored\<rparr>"
    by blast
  show thesis
  proof (rule that [OF 1(1-5) _ 1(7) t _ st(1)])
    show "debits priced = credits priced" using 1(6) by (simp add: check_balanced_def)
    show "transfer_constraints s t = Inr ()" using 2(1) by (simp add: insert_transfer_Inr t)
    show "s' = s\<lparr>db_transfers := db_transfers s @ [t], db_entries := db_entries s @ stored, db_pending := []\<rparr>"
      using 2(1,3) st(2) t by (simp add: insert_transfer_Inr fire_deferred_Inr)
  qed
qed

end
