(* ===== verification/Idempotency.thy ===== *)
theory Idempotency
  imports Engine_Correct "HOL-Library.List_Lexorder"
begin

text \<open>
  \<^verbatim>\<open>ledger/idempotency.py\<close>: the canonical text of money and requests, the request
  fingerprint, and \<^verbatim>\<open>run_idempotent\<close>, which creates a transfer at most once per
  key. Other sessions commit between the statements of \<^verbatim>\<open>_run_once\<close>: what they do
  is a parameter of the model, two functions on the database applied at the points where the
  code reads a newer snapshot.
\<close>

section \<open>Canonical text\<close>

definition digit_char :: "int \<Rightarrow> char" where
  "digit_char d = char_of (if d < 10 then 48 + d else 87 + d)"

fun digits_in :: "int \<Rightarrow> nat \<Rightarrow> int \<Rightarrow> string" where
  \<comment> \<open>the lowest \<open>w\<close> digits of \<open>n\<close> in base \<open>b\<close>, leading zeros included\<close>
  "digits_in b 0 n = []"
| "digits_in b (Suc w) n = digits_in b w (n div b) @ [digit_char (n mod b)]"

function nat_str :: "int \<Rightarrow> string" where
  "nat_str n = (if n < 10 then [digit_char n] else nat_str (n div 10) @ [digit_char (n mod 10)])"
  by auto
termination by (relation "measure nat") auto

declare nat_str.simps [simp del]

text \<open>\<^verbatim>\<open>format(amount.quantize(FOUR_DP), "f")\<close>.\<close>

definition money_str :: "rat \<Rightarrow> exn + string" where
  "money_str amount =
     (case quantize 28 4 amount of
        None \<Rightarrow> Inl DecimalInvalid
      | Some q \<Rightarrow>
          let c = \<lfloor>\<bar>q\<bar> * 10 ^ 4\<rfloor>
          in Inr ((if q < 0 then ''-'' else []) @ nat_str (c div 10 ^ 4) @ ''.'' @ digits_in 10 4 (c mod 10 ^ 4)))"

text \<open>\<^verbatim>\<open>str(uuid)\<close>: 32 hexadecimal digits in groups of 8, 4, 4, 4 and 12.\<close>

definition uuid_hex :: "uuid \<Rightarrow> string" where
  "uuid_hex u = digits_in 16 32 (int u)"

definition uuid_str :: "uuid \<Rightarrow> string" where
  "uuid_str u =
     (let h = uuid_hex u
      in take 8 h @ ''-'' @ take 4 (drop 8 h) @ ''-'' @ take 4 (drop 12 h) @ ''-''
           @ take 4 (drop 16 h) @ ''-'' @ drop 20 h)"

definition date_str :: "date \<Rightarrow> string" where
  "date_str d = digits_in 10 4 (int (date_year d)) @ ''-'' @ digits_in 10 2 (int (date_month d)) @ ''-''
     @ digits_in 10 2 (int (date_day d))"

fun direction_str :: "direction \<Rightarrow> string" where
  "direction_str DEBIT = ''DEBIT''"
| "direction_str CREDIT = ''CREDIT''"
| "direction_str (OtherDirection d) = d"

fun transfer_type_str :: "transfer_type \<Rightarrow> string" where
  "transfer_type_str TT_CAPITAL_CALL = ''CAPITAL_CALL''"
| "transfer_type_str TT_DISTRIBUTION = ''DISTRIBUTION''"
| "transfer_type_str TT_FEE = ''FEE''"
| "transfer_type_str TT_INVESTMENT = ''INVESTMENT''"
| "transfer_type_str TT_REVERSAL = ''REVERSAL''"
| "transfer_type_str TT_ADJUSTMENT = ''ADJUSTMENT''"

subsection \<open>json.dumps\<close>

datatype json = JStr string | JList "json list" | JObj "(string \<times> json) list"

text \<open>
  The escapes of \<^verbatim>\<open>json.dumps\<close> with its default \<^verbatim>\<open>ensure_ascii\<close>: quote,
  backslash and everything outside space to tilde.
\<close>

definition json_char :: "char \<Rightarrow> string" where
  "json_char c =
     (if c = CHR 0x22 then [CHR 0x5C, CHR 0x22]
      else if c = CHR 0x5C then [CHR 0x5C, CHR 0x5C]
      else if c = CHR 0x0A then [CHR 0x5C, CHR ''n'']
      else if c = CHR 0x0D then [CHR 0x5C, CHR ''r'']
      else if c = CHR 0x09 then [CHR 0x5C, CHR ''t'']
      else if c = CHR 0x0C then [CHR 0x5C, CHR ''f'']
      else if c = CHR 0x08 then [CHR 0x5C, CHR ''b'']
      else if CHR '' '' \<le> c \<and> c \<le> CHR ''~'' then [c]
      else [CHR 0x5C, CHR ''u''] @ digits_in 16 4 (of_char c))"

definition json_string :: "string \<Rightarrow> string" where
  "json_string s = [CHR 0x22] @ concat (map json_char s) @ [CHR 0x22]"

fun intercalate :: "string \<Rightarrow> string list \<Rightarrow> string" where
  "intercalate sep [] = []"
| "intercalate sep [x] = x"
| "intercalate sep (x # xs) = x @ sep @ intercalate sep xs"

text \<open>\<^verbatim>\<open>sort_keys=True, separators=(",", ":")\<close>.\<close>

fun json_dumps :: "json \<Rightarrow> string" where
  "json_dumps (JStr s) = json_string s"
| "json_dumps (JList xs) = ''['' @ intercalate '','' (map json_dumps xs) @ '']''"
| "json_dumps (JObj kvs) =
     ''{'' @ intercalate '','' (map snd (sort_key fst
        (map (\<lambda>(k, v). (k, json_string k @ '':'' @ json_dumps v)) kvs))) @ ''}''"

definition request_fingerprint :: "env \<Rightarrow> (string \<times> json) list \<Rightarrow> string" where
  "request_fingerprint env payload = sha256_hex env (json_dumps (JObj payload))"

section \<open>Exactly once\<close>

definition IDEMPOTENCY_CONSTRAINT :: string where
  "IDEMPOTENCY_CONSTRAINT = ''transfer_idempotency_key_unique''"

text \<open>\<^verbatim>\<open>Transfer.objects.filter(idempotency_key=key).first()\<close>: the key is unique.\<close>

definition find_key :: "string \<Rightarrow> db \<Rightarrow> transfer option" where
  "find_key key s = first_row (sort_key t_id (filter (\<lambda>t. t_idempotency_key t = key) (db_transfers s)))"

definition get_key :: "string \<Rightarrow> db \<Rightarrow> exn + transfer" where
  "get_key key s = get_row (\<lambda>t. t_idempotency_key t = key) (db_transfers s)"

text \<open>
  The handlers of \<^verbatim>\<open>_run_once\<close>: a duplicate won the race, at the unique key or
  before it via the locks. \<open>i2\<close> is what other sessions commit before the handlers look again.
\<close>

definition look_again :: "(db \<Rightarrow> db) \<Rightarrow> string \<Rightarrow> exn \<Rightarrow> ('a + transfer) op" where
  "look_again i2 key e =
     (case e of
        IntegrityErr c \<Rightarrow>
          if c \<noteq> IDEMPOTENCY_CONSTRAINT then raise e
          else bind_act (modify i2) (\<lambda>_.
               bind_act (query (get_key key)) (\<lambda>t. ret (Inr t)))
      | LedgerErr _ \<Rightarrow>
          bind_act (modify i2) (\<lambda>_.
          bind_act (query (\<lambda>s. Inr (find_key key s))) (\<lambda>ex.
            case ex of None \<Rightarrow> raise e | Some t \<Rightarrow> ret (Inr t)))
      | _ \<Rightarrow> raise e)"

text \<open>
  The branch for a key that is not known yet: \<open>Inl\<close> what \<^verbatim>\<open>create\<close> returned,
  \<open>Inr\<close> the transfer found by the handlers. \<open>i1\<close> is what other sessions commit after the
  first look and before \<^verbatim>\<open>create\<close> runs.
\<close>

definition create_or_existing ::
    "(db \<Rightarrow> db) \<Rightarrow> (db \<Rightarrow> db) \<Rightarrow> string \<Rightarrow> 'a op \<Rightarrow> ('a + transfer) op" where
  "create_or_existing i1 i2 key create =
     bind_act (modify i1) (\<lambda>_.
     handle (bind_act (atomic create) (\<lambda>x. ret (Inl x))) (look_again i2 key))"

definition run_once ::
    "(db \<Rightarrow> db) \<Rightarrow> (db \<Rightarrow> db) \<Rightarrow> string \<Rightarrow> string \<Rightarrow> 'a op \<Rightarrow> (transfer \<Rightarrow> 'a op) \<Rightarrow> ('a \<times> bool) op" where
  "run_once i1 i2 key request_hash create replay =
     bind_act (query (\<lambda>s. Inr (find_key key s))) (\<lambda>existing.
     bind_act (case existing of
                 None \<Rightarrow> create_or_existing i1 i2 key create
               | Some t \<Rightarrow> ret (Inr t)) (\<lambda>r.
     case r of
       Inl x \<Rightarrow> ret (x, True)
     | Inr t \<Rightarrow>
         if t_request_hash t \<noteq> request_hash then raise (LedgerErr IdempotencyConflict)
         else bind_act (replay t) (\<lambda>x. ret (x, False))))"

text \<open>
  \<^verbatim>\<open>run_idempotent\<close> adds a metric and a log line for every outcome to
  \<^verbatim>\<open>_run_once\<close> and returns or raises what it does; the label of the metric:
\<close>

fun outcome :: "exn + 'a \<times> bool \<Rightarrow> string" where
  "outcome (Inr (_, created)) = (if created then ''created'' else ''replayed'')"
| "outcome (Inl (LedgerErr _)) = ''rejected''"
| "outcome (Inl _) = ''error''"

definition run_idempotent ::
    "(db \<Rightarrow> db) \<Rightarrow> (db \<Rightarrow> db) \<Rightarrow> string \<Rightarrow> string \<Rightarrow> 'a op \<Rightarrow> (transfer \<Rightarrow> 'a op) \<Rightarrow> ('a \<times> bool) op" where
  "run_idempotent i1 i2 key request_hash create replay = run_once i1 i2 key request_hash create replay"

section \<open>The contract of create and replay\<close>

text \<open>What other sessions may do: they run transactions, too.\<close>

definition rely :: "(db \<Rightarrow> db) \<Rightarrow> bool" where
  "rely i \<longleftrightarrow> (\<forall>s. committed s \<longrightarrow> committed (i s) \<and> step_ok s (i s))"

definition keyed :: "string \<Rightarrow> db \<Rightarrow> transfer list" where
  "keyed key s = filter (\<lambda>t. t_idempotency_key t = key) (db_transfers s)"

lemma keyed_unique: "transfers_wf s \<Longrightarrow> keyed key s = [] \<or> (\<exists>t. keyed key s = [t])"
proof -
  assume wf: "transfers_wf s"
  show ?thesis
  proof (cases "keyed key s")
    case (Cons t ts)
    then have "t \<in> set (keyed key s)" by simp
    then have "t \<in> set (db_transfers s)" "t_idempotency_key t = key" by (auto simp: keyed_def)
    then have "keyed key s = [t]"
      using wf unfolding keyed_def transfers_wf_def by (intro filter_distinct_unique) auto
    then show ?thesis by simp
  qed simp
qed

lemma find_key_keyed: "keyed key s = [] \<Longrightarrow> find_key key s = None"
  "keyed key s = [t] \<Longrightarrow> find_key key s = Some t"
  by (simp_all add: find_key_def keyed_def)

lemma get_key_keyed: "keyed key s = [t] \<Longrightarrow> get_key key s = Inr t"
  by (simp add: get_key_def get_row_def keyed_def)

lemma get_key_Inr: "get_key key s = Inr t \<Longrightarrow> keyed key s = [t]"
  by (auto simp: get_key_def get_row_def keyed_def split: list.splits)

lemma find_key_Some: "transfers_wf s \<Longrightarrow> find_key key s = Some t \<Longrightarrow> keyed key s = [t]"
  using keyed_unique [of s key] find_key_keyed by fastforce

lemma keyed_extends: "extends s s' \<Longrightarrow> transfers_wf s' \<Longrightarrow> keyed key s = [t] \<Longrightarrow> keyed key s' = [t]"
proof -
  assume e: "extends s s'" and wf: "transfers_wf s'" and k: "keyed key s = [t]"
  from e obtain ts where "db_transfers s' = db_transfers s @ ts" by (auto simp: extends_def)
  then have "keyed key s' = t # filter (\<lambda>t. t_idempotency_key t = key) ts"
    using k by (simp add: keyed_def)
  with keyed_unique [OF wf, of key] show ?thesis by auto
qed

lemma look_again_Inr:
  "look_again i2 key e s = (Inr y, s') \<Longrightarrow>
   s' = i2 s \<and> (\<exists>t. y = Inr t \<and> (get_key key s' = Inr t \<or> find_key key s' = Some t))"
  by (cases e) (auto simp: look_again_def act split: if_splits option.splits)

lemma look_again_state: "look_again i2 key e s = (r, s') \<Longrightarrow> s' = s \<or> s' = i2 s"
  by (cases e; cases r) (auto simp: look_again_def act split: if_splits option.splits)

locale exactly_once =
  fixes create :: "'r \<Rightarrow> string \<Rightarrow> string \<Rightarrow> 'a op"
    and replay :: "'r \<Rightarrow> transfer \<Rightarrow> 'a op"
  assumes create_steps: "committed s \<Longrightarrow> create req key h s = (Inr x, s') \<Longrightarrow> committed s' \<and> step_ok s s'"
    and create_records: "committed s \<Longrightarrow> create req key h s = (Inr x, s') \<Longrightarrow>
        \<exists>t. db_transfers s' = db_transfers s @ [t] \<and> t_idempotency_key t = key \<and> t_request_hash t = h"
    and replay_reads: "replay req t s = (r, s') \<Longrightarrow> s' = s"
begin

lemma create_fresh:
  assumes "committed s" and "create req key h s = (Inr x, s')"
  shows "keyed key s = [] \<and> (\<exists>t. keyed key s' = [t] \<and> t_request_hash t = h)"
proof -
  obtain t where t: "db_transfers s' = db_transfers s @ [t]" "t_idempotency_key t = key" "t_request_hash t = h"
    using create_records [OF assms] by blast
  then have k: "keyed key s' = keyed key s @ [t]" by (simp add: keyed_def)
  have "transfers_wf s'" using create_steps [OF assms] by (simp add: committed_def db_ok_def)
  from keyed_unique [OF this, of key] k t(3) show ?thesis by auto
qed

text \<open>The state another session leaves is committed and only extends what was there.\<close>

lemma rely_steps: "rely i \<Longrightarrow> committed s \<Longrightarrow> committed (i s) \<and> step_ok s (i s)"
  by (simp add: rely_def)

lemma create_or_existing_steps:
  assumes i: "rely i1" "rely i2" and c: "committed s"
    and r: "create_or_existing i1 i2 key (create req key h) s = (r, s')"
  shows "committed s' \<and> step_ok s s'"
proof -
  have 1: "committed (i1 s)" "step_ok s (i1 s)" using rely_steps [OF i(1) c] by auto
  have 2: "committed (i2 (i1 s))" "step_ok s (i2 (i1 s))"
    using rely_steps [OF i(2) 1(1)] step_ok_trans [OF 1(2)] by auto
  have 3: "committed s'' \<and> step_ok s s''" if "create req key h (i1 s) = (Inr x, s'')" for x s''
    using create_steps [OF 1(1) that] step_ok_trans [OF 1(2)] by blast
  show ?thesis
    using r 1 2 3 by (cases r) (auto simp: create_or_existing_def act dest!: look_again_state)
qed

lemma create_or_existing_Inr:
  assumes i: "rely i1" "rely i2" and c: "committed s"
    and r: "create_or_existing i1 i2 key (create req key h) s = (Inr y, s')"
  shows "case y of
      Inl x \<Rightarrow> keyed key s = [] \<and> create req key h (i1 s) = (Inr x, s')
    | Inr t \<Rightarrow> keyed key s' = [t] \<and> s' = i2 (i1 s)"
proof -
  have 1: "committed (i1 s)" "step_ok s (i1 s)" using rely_steps [OF i(1) c] by auto
  have 2: "committed (i2 (i1 s))" using rely_steps [OF i(2) 1(1)] by auto
  have k: "keyed key s = []" if "create req key h (i1 s) = (Inr x, s'')" for x s''
    using create_fresh [OF 1(1) that] keyed_extends [of s "i1 s" key] keyed_unique [of s key] 1 c
    by (auto simp: step_ok_def committed_def db_ok_def)
  show ?thesis
    using r k find_key_Some [of "i2 (i1 s)" key] 2
    by (auto simp: create_or_existing_def act committed_def db_ok_def dest!: look_again_Inr dest: get_key_Inr)
qed

lemma answer_reads:
  "(case z of Inl x \<Rightarrow> ret (x, True)
     | Inr t \<Rightarrow> if t_request_hash t \<noteq> h then raise (LedgerErr IdempotencyConflict)
         else bind_act (replay req t) (\<lambda>x. ret (x, False))) s1 = (r, s') \<Longrightarrow> s' = s1"
  by (cases r) (auto simp: act split: sum.splits if_splits dest: replay_reads)

lemma run_steps:
  assumes i: "rely i1" "rely i2" and c: "committed s"
    and r: "run_once i1 i2 key h (create req key h) (replay req) s = (r, s')"
  shows "committed s' \<and> step_ok s s'"
proof -
  have refl: "committed s \<and> step_ok s s" using c by (simp add: committed_def step_ok_refl)
  obtain y s1 where y: "(case find_key key s of None \<Rightarrow> create_or_existing i1 i2 key (create req key h)
      | Some t \<Rightarrow> ret (Inr t)) s = (y, s1)" by fastforce
  have "committed s1 \<and> step_ok s s1"
    using create_or_existing_steps [OF i c] y refl by (auto simp: act split: option.splits)
  moreover have "s' = s1"
    using r y answer_reads
    by (cases y) (auto simp: run_once_def bind_act_def query_def)
  ultimately show ?thesis by simp
qed

text \<open>
  The main fact: a call that returns leaves exactly one transfer with its key, and that
  transfer carries the fingerprint of the request. It was created by this call exactly when
  the flag says so; otherwise this call wrote nothing.
\<close>

lemma run_exactly_once:
  assumes i: "rely i1" "rely i2" and c: "committed s"
    and r: "run_once i1 i2 key h (create req key h) (replay req) s = (Inr (x, created), s')"
  shows "\<exists>t. keyed key s' = [t] \<and> t_request_hash t = h \<and>
     (if created then keyed key s = [] \<and> create req key h (i1 s) = (Inr x, s')
      else replay req t s' = (Inr x, s') \<and> (s' = s \<or> s' = i2 (i1 s)))"
proof (cases "find_key key s")
  case (Some t)
  have k: "keyed key s = [t]" using find_key_Some [OF _ Some] c by (simp add: committed_def db_ok_def)
  from r Some have "t_request_hash t = h \<and> \<not> created \<and> replay req t s = (Inr x, s')"
    by (auto simp: run_once_def act split: if_splits)
  moreover from this have "s' = s" using replay_reads by blast
  ultimately show ?thesis using k by auto
next
  case None
  with r obtain y s1 where y: "create_or_existing i1 i2 key (create req key h) s = (Inr y, s1)"
    and rest: "(case y of Inl x \<Rightarrow> ret (x, True)
     | Inr t \<Rightarrow> if t_request_hash t \<noteq> h then raise (LedgerErr IdempotencyConflict)
         else bind_act (replay req t) (\<lambda>x. ret (x, False))) s1 = (Inr (x, created), s')"
    by (auto simp: run_once_def act)
  note yr = create_or_existing_Inr [OF i c y]
  have 1: "committed (i1 s)" using rely_steps [OF i(1) c] by auto
  show ?thesis
  proof (cases y)
    case (Inl x')
    with rest yr have "keyed key s = []" "create req key h (i1 s) = (Inr x, s')" created
      by (auto simp: act)
    with create_fresh [OF 1] show ?thesis by auto
  next
    case (Inr t)
    with rest have t: "t_request_hash t = h" "\<not> created" "replay req t s1 = (Inr x, s')"
      by (auto simp: act split: if_splits)
    then have "s' = s1" using replay_reads by blast
    with Inr yr t show ?thesis by auto
  qed
qed

end

text \<open>
  A retry, any time later, of a request that has been answered replays the recorded transfer
  and changes nothing; the same key with another request is refused.
\<close>

lemma run_again:
  assumes c: "committed s" and k: "keyed key s = [t]"
  shows "run_once i1 i2 key h cr rp s =
     (if t_request_hash t \<noteq> h then (Inl (LedgerErr IdempotencyConflict), s)
      else bind_act (rp t) (\<lambda>x. ret (x, False)) s)"
  using find_key_keyed(2) [OF k]
  by (simp add: run_once_def bind_act_def query_def ret_def raise_def split: prod.splits sum.splits)

text \<open>A new key whose creation succeeds is answered with what was created.\<close>

lemma run_fresh:
  "find_key key s = None \<Longrightarrow> cr (i1 s) = (Inr x, s') \<Longrightarrow> run_once i1 i2 key h cr rp s = (Inr (x, True), s')"
  by (auto simp: run_once_def create_or_existing_def act)

end
