(* ===== verification/Transfer_Service.thy ===== *)
theory Transfer_Service
  imports Idempotency "HOL-Library.Multiset"
begin

text \<open>
  The two entry points of \<^verbatim>\<open>ledger/services.py\<close> that the API calls:
  \<^verbatim>\<open>post_transfer_idempotent\<close> and \<^verbatim>\<open>reverse_transfer\<close>. Both create with
  \<^verbatim>\<open>post_transfer\<close> and replay with the identity, so one interpretation of
  \<open>exactly_once\<close> serves both.
\<close>

section \<open>Creation and replay\<close>

text \<open>The closures \<^verbatim>\<open>create\<close> and \<^verbatim>\<open>replay\<close> handed to \<^verbatim>\<open>run_idempotent\<close>.\<close>

definition create_posting :: "env \<times> posting \<Rightarrow> string \<Rightarrow> string \<Rightarrow> transfer op" where
  "create_posting req key h =
     post_transfer (fst req) ((snd req)\<lparr>po_idempotency_key := key, po_request_hash := h\<rparr>)"

definition replay_transfer :: "env \<times> posting \<Rightarrow> transfer \<Rightarrow> transfer op" where
  "replay_transfer req existing = ret existing"

lemma post_transfer_committed:
  assumes c: "committed s" and r: "post_transfer env po s = (r, s')"
  shows "committed s' \<and> step_ok s s'"
proof (cases r)
  case (Inl e)
  with r have "s' = s" by (auto dest: post_transfer_Inl)
  with c show ?thesis by (simp add: committed_def step_ok_refl)
next
  case (Inr t)
  have "db_ok s" using c by (simp add: committed_def)
  then have st: "step_ok s s'" using keepsD [OF keeps_post_transfer step_ok_refl r] by blast
  obtain es where "s' = s\<lparr>db_transfers := db_transfers s @ [t], db_entries := db_entries s @ es, db_pending := []\<rparr>"
    using r Inr by (auto elim: post_transfer_stored)
  with st show ?thesis by (simp add: committed_def step_ok_def)
qed

interpretation posting_once: exactly_once create_posting replay_transfer
proof unfold_locales
  fix s s' :: db and req :: "env \<times> posting" and key h x
  assume c: "committed s" and r: "create_posting req key h s = (Inr x, s')"
  show "committed s' \<and> step_ok s s'"
    using post_transfer_committed [OF c r [unfolded create_posting_def]] .
  show "\<exists>t. db_transfers s' = db_transfers s @ [t] \<and> t_idempotency_key t = key \<and> t_request_hash t = h"
    using r unfolding create_posting_def by (rule post_transfer_stored) (simp add: new_transfer_def)
next
  show "replay_transfer req t s = (r, s') \<Longrightarrow> s' = s" for req t s r s'
    by (simp add: replay_transfer_def ret_def)
qed

section \<open>post\_transfer\_idempotent\<close>

definition leg_row :: "leg \<Rightarrow> exn + string list" where
  "leg_row l =
     rbind (leg_amount l) (\<lambda>x. rbind (money_str x) (\<lambda>m.
       Inr [uuid_str (l_account_id l), direction_str (l_direction l), m]))"

definition transfer_fingerprint :: "env \<Rightarrow> transfer_type \<Rightarrow> period \<Rightarrow> leg list \<Rightarrow> exn + string" where
  "transfer_fingerprint env tt p legs =
     rbind (rmap leg_row legs) (\<lambda>rows.
       Inr (request_fingerprint env
         [(''kind'', JStr ''transfer''), (''transfer_type'', JStr (transfer_type_str tt)),
          (''period'', JStr (uuid_str (p_id p))),
          (''legs'', JList (map (\<lambda>r. JList (map JStr r)) (sort rows)))]))"

text \<open>
  The keyword arguments are those of \<^verbatim>\<open>post_transfer\<close> but
  \<^verbatim>\<open>reverses\<close> and \<^verbatim>\<open>request_hash\<close>, which a caller cannot give.
\<close>

definition post_transfer_idempotent ::
    "(db \<Rightarrow> db) \<Rightarrow> (db \<Rightarrow> db) \<Rightarrow> env \<Rightarrow> posting \<Rightarrow> (transfer \<times> bool) op" where
  "post_transfer_idempotent i1 i2 env po =
     bind_act (query (\<lambda>_. validate_legs (po_legs po))) (\<lambda>_.
     bind_act (query (\<lambda>_. transfer_fingerprint env (po_transfer_type po) (po_period po) (po_legs po))) (\<lambda>request_hash.
     run_idempotent i1 i2 (po_idempotency_key po) request_hash
       (create_posting (env, po\<lparr>po_reverses := None\<rparr>) (po_idempotency_key po) request_hash)
       (replay_transfer (env, po\<lparr>po_reverses := None\<rparr>))))"

section \<open>reverse\_transfer\<close>

definition REVERSES_CONSTRAINT :: string where
  "REVERSES_CONSTRAINT = ''transfer_reverses_unique''"

definition flip :: "direction \<Rightarrow> direction" where
  "flip d = (if d = DEBIT then CREDIT else DEBIT)"

definition reversal_legs :: "transfer \<Rightarrow> db \<Rightarrow> leg list" where
  "reversal_legs original s =
     map (\<lambda>e. \<lparr>l_account_id = e_account e, l_direction = flip (e_direction e),
               l_amount = Decimal (e_amount e), l_fx_rate = e_fx_rate e,
               l_base_amount = Some (e_base_amount e)\<rparr>)
       (sort_key e_id (entries_of (t_id original) s))"

text \<open>\<^verbatim>\<open>original.reversals.first()\<close>.\<close>

definition existing_reversal :: "transfer \<Rightarrow> db \<Rightarrow> transfer option" where
  "existing_reversal original s =
     first_row (sort_key t_id (filter (\<lambda>t. t_reverses t = Some (t_id original)) (db_transfers s)))"

definition reversal_fingerprint :: "env \<Rightarrow> transfer \<Rightarrow> period \<Rightarrow> string" where
  "reversal_fingerprint env original p =
     request_fingerprint env [(''kind'', JStr ''reversal''), (''reverses'', JStr (uuid_str (t_id original))),
       (''period'', JStr (uuid_str (p_id p)))]"

definition reversal_posting :: "string \<Rightarrow> transfer \<Rightarrow> leg list \<Rightarrow> period \<Rightarrow> string \<Rightarrow> posting" where
  "reversal_posting key original legs p created_by =
     \<lparr>po_idempotency_key = key, po_legs = legs, po_period = p, po_transfer_type = TT_REVERSAL,
      po_description = ''Reversal of '' @ uuid_str (t_id original), po_reverses = Some (t_id original),
      po_request_hash = [], po_created_by = created_by, po_fx_date = None\<rparr>"

definition lost_reversal_race :: "exn \<Rightarrow> 'a op" where
  "lost_reversal_race e =
     (case e of
        IntegrityErr c \<Rightarrow> if c = REVERSES_CONSTRAINT then raise (LedgerErr AlreadyReversed) else raise e
      | _ \<Rightarrow> raise e)"

definition reverse_transfer ::
    "(db \<Rightarrow> db) \<Rightarrow> (db \<Rightarrow> db) \<Rightarrow> env \<Rightarrow> uuid \<Rightarrow> string \<Rightarrow> period \<Rightarrow> string \<Rightarrow> (transfer \<times> bool) op" where
  "reverse_transfer i1 i2 env transfer_id key p created_by =
     bind_act (query (\<lambda>s. get_row (\<lambda>t. t_id t = transfer_id) (db_transfers s))) (\<lambda>original.
     bind_act (query (\<lambda>_. ensure (t_transfer_type original \<noteq> TT_REVERSAL)
       (LedgerErr (InvalidTransfer ReversalOfReversal)))) (\<lambda>_.
     bind_act (query (\<lambda>s. Inr (existing_reversal original s))) (\<lambda>existing.
     bind_act (query (\<lambda>_. ensure (case existing of None \<Rightarrow> True | Some t \<Rightarrow> t_idempotency_key t = key)
       (LedgerErr AlreadyReversed))) (\<lambda>_.
     bind_act (query (\<lambda>s. Inr (reversal_legs original s))) (\<lambda>legs.
     let request_hash = reversal_fingerprint env original p;
         req = (env, reversal_posting key original legs p created_by)
     in handle
          (run_idempotent i1 i2 key request_hash (create_posting req key request_hash) (replay_transfer req))
          lost_reversal_race)))))"

section \<open>A reversal cancels its original\<close>

text \<open>Legs that bring their base amount are priced at it, and no residual is absorbed.\<close>

definition based_leg :: "leg \<Rightarrow> priced_leg \<Rightarrow> bool" where
  "based_leg l p \<longleftrightarrow> l_base_amount l = Some (pl_base_amount p) \<and> \<not> pl_adjustable p"

lemma price_each_based:
  "price_each s accounts ccy d rates ls = Inr ps \<Longrightarrow> \<forall>l \<in> set ls. l_base_amount l \<noteq> None \<Longrightarrow>
   list_all2 based_leg ls ps"
proof (induction ls arbitrary: rates ps)
  case (Cons l ls)
  then show ?case
    by (auto simp: price_leg_def based_leg_def Let_def split: option.splits prod.splits)
qed simp

lemma absorb_none_adjustable: "\<forall>p \<in> set ps. \<not> pl_adjustable p \<Longrightarrow> absorb_rounding_residual ps = ps"
  by (cases ps rule: absorb_cases) (auto simp: in_set_conv_nth)

lemma price_legs_based:
  assumes "price_legs s ls accounts ccy d = Inr ps" and "\<forall>l \<in> set ls. l_base_amount l \<noteq> None"
  shows "list_all2 based_leg ls ps"
proof -
  from assms(1) obtain ps0 where 0: "price_each s accounts ccy d Map.empty ls = Inr ps0"
    and ps: "ps = absorb_rounding_residual ps0"
    by (auto simp: price_legs_def)
  have b: "list_all2 based_leg ls ps0" using price_each_based [OF 0 assms(2)] .
  then have "\<forall>p \<in> set ps0. \<not> pl_adjustable p" by (auto simp: based_leg_def dest: list_all2_mem2)
  with b ps show ?thesis by (simp add: absorb_none_adjustable)
qed

text \<open>\<open>cancels e e'\<close>: what \<open>e'\<close> adds to its account is what \<open>e\<close> took, in both currencies.\<close>

definition cancels :: "entry \<Rightarrow> entry \<Rightarrow> bool" where
  "cancels e e' \<longleftrightarrow> e_account e' = e_account e \<and> signed_amount e' = - signed_amount e \<and>
     signed_base_amount e' = - signed_base_amount e"

lemma signed_flip: "d = DEBIT \<or> d = CREDIT \<Longrightarrow> signed (flip d) x = - signed d x"
  by (auto simp: flip_def)

lemma cancels_sum:
  assumes "list_all2 cancels es es'"
  shows "sum_list (map signed_amount (filter (\<lambda>e. e_account e = aid) es')) =
      - sum_list (map signed_amount (filter (\<lambda>e. e_account e = aid) es))"
    and "sum_list (map signed_base_amount (filter (\<lambda>e. e_account e = aid) es')) =
      - sum_list (map signed_base_amount (filter (\<lambda>e. e_account e = aid) es))"
  using assms by (induction rule: list_all2_induct) (auto simp: cancels_def)

lemma reversal_entry_cancels:
  assumes e: "entry_ok s e"
    and l: "l = \<lparr>l_account_id = e_account e, l_direction = flip (e_direction e),
        l_amount = Decimal (e_amount e), l_fx_rate = e_fx_rate e, l_base_amount = Some (e_base_amount e)\<rparr>"
    and m: "leg_match (account_dict locked) l p" and b: "based_leg l p"
    and st: "stored_entry (new_entry env tid i p) = Inr e'"
  shows "cancels e e' \<and> e_transfer e' = tid"
proof -
  have ok: "dp 4 (e_amount e)" "dp 4 (e_base_amount e)" "e_direction e = DEBIT \<or> e_direction e = CREDIT"
    using e by (auto simp: entry_ok_def)
  have p: "pl_direction p = flip (e_direction e)" "pl_amount p = e_amount e"
    "pl_base_amount p = e_base_amount e" "a_id (pl_account p) = e_account e"
    using m b account_dict_Some [of locked "e_account e"] by (auto simp: l leg_match_def based_leg_def)
  have "e_amount e' = e_amount e" "e_base_amount e' = e_base_amount e"
    using numeric_store_exact [OF ok(1)] numeric_store_exact [OF ok(2)] stored_entry_store(1,2) [OF st] p
    by (simp_all add: new_entry_def)
  moreover have "e_account e' = e_account e" "e_direction e' = flip (e_direction e)" "e_transfer e' = tid"
    using stored_entry_Inr(3-5) [OF st] p by (simp_all add: new_entry_def)
  ultimately show ?thesis
    using ok(3) by (simp add: cancels_def signed_amount_def signed_base_amount_def signed_flip)
qed

text \<open>What a transfer does to an account, in the account's and in the fund's currency.\<close>

definition transfer_effect :: "db \<Rightarrow> uuid \<Rightarrow> uuid \<Rightarrow> rat" where
  "transfer_effect s tid aid = sum_list (map signed_amount (filter (\<lambda>e. e_account e = aid) (entries_of tid s)))"

definition transfer_base_effect :: "db \<Rightarrow> uuid \<Rightarrow> uuid \<Rightarrow> rat" where
  "transfer_base_effect s tid aid =
     sum_list (map signed_base_amount (filter (\<lambda>e. e_account e = aid) (entries_of tid s)))"

lemma sum_list_sort_key:
  fixes f :: "'a \<Rightarrow> rat"
  shows "sum_list (map f (filter P (sort_key k xs))) = sum_list (map f (filter P xs))"
proof -
  have "mset (map f (filter P (sort_key k xs))) = mset (map f (filter P xs))" by simp
  then show ?thesis by (metis sum_mset_sum_list)
qed

lemma entries_of_fresh:
  assumes "entries_wf s" and "tid \<notin> set (map t_id (db_transfers s))"
    and "db_entries s' = db_entries s @ es" and "\<forall>e \<in> set es. e_transfer e = tid"
  shows "entries_of tid s' = es"
proof -
  have "find_transfer s tid = None" using assms(2) by (simp add: find_transfer_def find_None_key)
  then have "\<forall>e \<in> set (db_entries s). e_transfer e \<noteq> tid" using assms(1) by (auto simp: entries_wf_def entry_ok_def)
  with assms(3,4) show ?thesis by (simp add: entries_of_def filter_empty_conv)
qed

lemma reversal_stored:
  assumes wf: "entries_wf s"
    and r: "create_posting (env, reversal_posting key original (reversal_legs original s) p cb) key h s1 = (Inr t, s')"
  obtains stored where "db_entries s' = db_entries s1 @ stored" "\<forall>e \<in> set stored. e_transfer e = t_id t"
    "list_all2 cancels (sort_key e_id (entries_of (t_id original) s)) stored"
    "t_reverses t = Some (t_id original)" "t_idempotency_key t = key" "t_request_hash t = h"
    "t_id t \<notin> set (map t_id (db_transfers s1))" "db_transfers s' = db_transfers s1 @ [t]"
  using r unfolding create_posting_def
proof (cases rule: post_transfer_InrE)
  case (1 locked fund priced stored)
  let ?es = "sort_key e_id (entries_of (t_id original) s)"
  let ?legs = "reversal_legs original s"
  have legs: "po_legs (snd (env, reversal_posting key original ?legs p cb)
      \<lparr>po_idempotency_key := key, po_request_hash := h\<rparr>) = ?legs" by (simp add: reversal_posting_def)
  note m = price_legs_match [OF 1(5), unfolded legs]
  have b: "list_all2 based_leg ?legs priced"
    using price_legs_based [OF 1(5) [unfolded legs]] by (auto simp: reversal_legs_def)
  have len: "length ?legs = length ?es" "length priced = length ?es" "length stored = length ?es"
    using m 1(10) by (auto simp: reversal_legs_def dest!: list_all2_lengthD)
  have "cancels (?es ! i) (stored ! i) \<and> e_transfer (stored ! i) = t_id t" if i: "i < length ?es" for i
  proof (rule reversal_entry_cancels)
    have "?es ! i \<in> set ?es" using i by (rule nth_mem)
    then show "entry_ok s (?es ! i)" using wf by (auto simp: entries_of_def entries_wf_def)
    show "leg_match (account_dict locked) (?legs ! i) (priced ! i)" "based_leg (?legs ! i) (priced ! i)"
      using m b i len by (auto simp: list_all2_conv_all_nth)
    show "stored_entry (new_entry env (t_id t) i (priced ! i)) = Inr (stored ! i)"
      using 1(8,10) i len by (auto simp: list_all2_conv_all_nth new_entries_nth new_transfer_def)
  qed (use i in \<open>simp add: reversal_legs_def\<close>)
  with len(3) have c: "list_all2 cancels ?es stored" "\<forall>e \<in> set stored. e_transfer e = t_id t"
    by (auto simp: list_all2_conv_all_nth in_set_conv_nth)
  show thesis
    by (rule that [of stored])
      (use c 1(8,9,11) in \<open>simp_all add: new_transfer_def reversal_posting_def transfer_constraints_def\<close>)
qed

lemma reversal_effect:
  assumes s: "entries_wf s" and s1: "entries_wf s1"
    and r: "create_posting (env, reversal_posting key original (reversal_legs original s) p cb) key h s1 = (Inr t, s')"
  shows "transfer_effect s' (t_id t) aid = - transfer_effect s (t_id original) aid"
    and "transfer_base_effect s' (t_id t) aid = - transfer_base_effect s (t_id original) aid"
proof -
  obtain stored where st: "db_entries s' = db_entries s1 @ stored" "\<forall>e \<in> set stored. e_transfer e = t_id t"
    and c: "list_all2 cancels (sort_key e_id (entries_of (t_id original) s)) stored"
    and fresh: "t_id t \<notin> set (map t_id (db_transfers s1))"
    using reversal_stored [OF s r] by metis
  have "entries_of (t_id t) s' = stored" using entries_of_fresh [OF s1 fresh st] .
  then show "transfer_effect s' (t_id t) aid = - transfer_effect s (t_id original) aid"
    "transfer_base_effect s' (t_id t) aid = - transfer_base_effect s (t_id original) aid"
    using cancels_sum [OF c] by (simp_all add: transfer_effect_def transfer_base_effect_def sum_list_sort_key)
qed

section \<open>Runs of the two entry points\<close>

lemma lost_reversal_race_raises [simp]: "lost_reversal_race e s = (Inr x, s') \<longleftrightarrow> False"
  by (cases e) (auto simp: lost_reversal_race_def act)

lemma lost_reversal_race_state: "lost_reversal_race e s = (r, s') \<Longrightarrow> s' = s"
  by (cases r; cases e) (auto simp: lost_reversal_race_def act split: if_splits)

lemma post_transfer_idempotent_Inr:
  assumes "rely i1" "rely i2" "committed s"
    and r: "post_transfer_idempotent i1 i2 env po s = (Inr (t, created), s')"
  obtains h where "transfer_fingerprint env (po_transfer_type po) (po_period po) (po_legs po) = Inr h"
    "validate_legs (po_legs po) = Inr ()"
    "keyed (po_idempotency_key po) s' = [t]" "t_request_hash t = h"
    "created \<Longrightarrow> keyed (po_idempotency_key po) s = []"
    "created \<Longrightarrow> create_posting (env, po\<lparr>po_reverses := None\<rparr>) (po_idempotency_key po) h (i1 s) = (Inr t, s')"
    "\<not> created \<Longrightarrow> s' = s \<or> s' = i2 (i1 s)"
proof -
  let ?req = "(env, po\<lparr>po_reverses := None\<rparr>)" and ?key = "po_idempotency_key po"
  from r obtain h where h: "transfer_fingerprint env (po_transfer_type po) (po_period po) (po_legs po) = Inr h"
    and v: "validate_legs (po_legs po) = Inr ()"
    and run: "run_once i1 i2 ?key h (create_posting ?req ?key h) (replay_transfer ?req) s = (Inr (t, created), s')"
    by (auto simp: post_transfer_idempotent_def run_idempotent_def act)
  from posting_once.run_exactly_once [OF assms(1-3) run] obtain t0 where
    k: "keyed ?key s' = [t0]" "t_request_hash t0 = h"
    and d: "if created then keyed ?key s = [] \<and> create_posting ?req ?key h (i1 s) = (Inr t, s')
      else replay_transfer ?req t0 s' = (Inr t, s') \<and> (s' = s \<or> s' = i2 (i1 s))"
    by blast
  have "t0 = t"
  proof (cases created)
    case False
    with d show ?thesis by (simp add: replay_transfer_def ret_def)
  next
    case True
    with d have c: "create_posting ?req ?key h (i1 s) = (Inr t, s')" by simp
    then have "db_transfers s' = db_transfers (i1 s) @ [t]" "t_idempotency_key t = ?key"
      unfolding create_posting_def by (auto elim!: post_transfer_stored simp: new_transfer_def)
    with k show ?thesis by (auto simp: keyed_def append_eq_Cons_conv split: if_splits)
  qed
  with that [OF h v] k d show thesis by (cases created) auto
qed

lemma post_transfer_idempotent_steps:
  assumes "rely i1" "rely i2" "committed s"
    and r: "post_transfer_idempotent i1 i2 env po s = (r, s')"
  shows "committed s' \<and> step_ok s s'"
proof -
  have refl: "committed s \<and> step_ok s s" using assms(3) by (simp add: committed_def step_ok_refl)
  show ?thesis
    using r posting_once.run_steps [OF assms(1-3)] refl
    by (cases r) (auto simp: post_transfer_idempotent_def run_idempotent_def act)
qed

text \<open>What \<open>reverse_transfer\<close> has established when it calls \<open>run_idempotent\<close>.\<close>

lemma reverse_transfer_cases:
  assumes "reverse_transfer i1 i2 env tid key p cb s = (r, s')"
  obtains (rejected) e where "r = Inl e" "s' = s"
  | (run) original where "original \<in> set (db_transfers s)" "t_id original = tid"
      "t_transfer_type original \<noteq> TT_REVERSAL"
      "handle (run_once i1 i2 key (reversal_fingerprint env original p)
          (create_posting (env, reversal_posting key original (reversal_legs original s) p cb) key
             (reversal_fingerprint env original p))
          (replay_transfer (env, reversal_posting key original (reversal_legs original s) p cb)))
        lost_reversal_race s = (r, s')"
  using assms
  by (cases r)
    (auto simp: reverse_transfer_def run_idempotent_def Let_def act dest!: get_row_Inr)

lemma reverse_transfer_steps:
  assumes i: "rely i1" "rely i2" and c: "committed s"
    and r: "reverse_transfer i1 i2 env tid key p cb s = (r, s')"
  shows "committed s' \<and> step_ok s s'"
  using r
proof (cases rule: reverse_transfer_cases)
  case (rejected e)
  with c show ?thesis by (simp add: committed_def step_ok_refl)
next
  case (run original)
  then show ?thesis
    using posting_once.run_steps [OF i c]
    by (cases r) (auto simp: act dest: lost_reversal_race_state)
qed

lemma reverse_transfer_created:
  assumes i: "rely i1" "rely i2" and c: "committed s"
    and r: "reverse_transfer i1 i2 env tid key p cb s = (Inr (t, True), s')"
  obtains original h where "original \<in> set (db_transfers s)" "t_id original = tid"
    "t_transfer_type original \<noteq> TT_REVERSAL"
    "create_posting (env, reversal_posting key original (reversal_legs original s) p cb) key h (i1 s) = (Inr t, s')"
  using r
proof (cases rule: reverse_transfer_cases)
  case (run original)
  then show thesis
    using that posting_once.run_exactly_once [OF i c] by (fastforce simp: act)
qed simp

text \<open>A new key on a transfer that has no reversal is answered with the reversal posted.\<close>

lemma reverse_transfer_fresh:
  assumes "get_row (\<lambda>t. t_id t = tid) (db_transfers s) = Inr original"
    and "t_transfer_type original \<noteq> TT_REVERSAL" and "existing_reversal original s = None"
    and "find_key key s = None"
    and "create_posting (env, reversal_posting key original (reversal_legs original s) p cb) key
           (reversal_fingerprint env original p) (i1 s) = (Inr t, s')"
  shows "reverse_transfer i1 i2 env tid key p cb s = (Inr (t, True), s')"
  using run_fresh [OF assms(4), of "create_posting (env, reversal_posting key original (reversal_legs original s) p cb) key
           (reversal_fingerprint env original p)" i1 t s'] assms
  by (auto simp: reverse_transfer_def run_idempotent_def Let_def act)

lemma post_transfer_idempotent_fresh:
  assumes "validate_legs (po_legs po) = Inr ()" and "find_key (po_idempotency_key po) s = None"
    and "transfer_fingerprint env (po_transfer_type po) (po_period po) (po_legs po) = Inr h"
    and "create_posting (env, po\<lparr>po_reverses := None\<rparr>) (po_idempotency_key po) h (i1 s) = (Inr t, s')"
  shows "post_transfer_idempotent i1 i2 env po s = (Inr (t, True), s')"
  using assms run_fresh [OF assms(2), of "create_posting (env, po\<lparr>po_reverses := None\<rparr>) (po_idempotency_key po) h" i1 t s']
  by (auto simp: post_transfer_idempotent_def run_idempotent_def act)

end
