(* ===== verification/Sample_Ledger.thy ===== *)
theory Sample_Ledger
  imports Transfer_Service
begin

text \<open>
  A small fund on which the theorems of the ledger are applied: two LPs, cash in dollars and
  in euros, an investment in euros, a closed and an open quarter, one euro rate; and the
  states that a capital call of 1000.00 dollars and its reversal leave.
\<close>

definition sample_fund :: fund where
  "sample_fund = \<lparr>f_id = 1, f_name = ''Alpha'', f_base_currency = ''USD'', f_vintage_year = 2024,
     f_inception_date = Date 2024 1 1\<rparr>"

definition q1 :: period where
  "q1 = \<lparr>p_id = 11, p_fund = 1, p_start_date = Date 2024 1 1, p_end_date = Date 2024 3 31,
     p_status = CLOSED, p_closed_at = Some 5, p_closed_by = ''ops''\<rparr>"

definition q2 :: period where
  "q2 = \<lparr>p_id = 12, p_fund = 1, p_start_date = Date 2024 4 1, p_end_date = Date 2024 6 30,
     p_status = OPEN, p_closed_at = None, p_closed_by = []\<rparr>"

definition sample_account :: "uuid \<Rightarrow> string \<Rightarrow> account_type \<Rightarrow> uuid option \<Rightarrow> string \<Rightarrow> account" where
  "sample_account aid code ty lp ccy = \<lparr>a_id = aid, a_fund = 1, a_code = code, a_account_type = ty,
     a_owner_lp = lp, a_currency = ccy, a_created_at = 1\<rparr>"

definition sample_accounts :: "account list" where
  "sample_accounts =
     [sample_account 21 ''CASH-USD'' AT_CASH None ''USD'',
      sample_account 22 ''LP-0000000000000000000000000000001f'' AT_LP_CAPITAL (Some 31) ''USD'',
      sample_account 23 ''LP-00000000000000000000000000000020'' AT_LP_CAPITAL (Some 32) ''USD'',
      sample_account 24 ''CASH-EUR'' AT_CASH None ''EUR'',
      sample_account 25 ''INVESTMENT-EUR'' AT_INVESTMENT None ''EUR'',
      sample_account 26 ''INVESTMENT-USD'' AT_INVESTMENT None ''USD'',
      sample_account 27 ''FEE_EXPENSE'' AT_FEE_EXPENSE None ''USD'',
      sample_account 28 ''GAIN_LOSS'' AT_GAIN_LOSS None ''USD'']"

definition sample_db :: db where
  "sample_db = empty_db\<lparr>
     db_funds := [sample_fund],
     db_lps := [\<lparr>lp_id = 31, lp_name = ''A'', lp_investor_type = PENSION\<rparr>,
                \<lparr>lp_id = 32, lp_name = ''B'', lp_investor_type = INSURANCE\<rparr>],
     db_commitments :=
       [\<lparr>c_id = 41, c_fund = 1, c_lp = 31, c_committed_amount = 2000, c_signed_date = Date 2024 1 2\<rparr>,
        \<lparr>c_id = 42, c_fund = 1, c_lp = 32, c_committed_amount = 1000, c_signed_date = Date 2024 1 2\<rparr>],
     db_periods := [q1, q2],
     db_fx_rates :=
       [\<lparr>x_id = 51, x_from_currency = ''EUR'', x_to_currency = ''USD'', x_rate = 109/100, x_as_of_date = Date 2024 4 1\<rparr>,
        \<lparr>x_id = 52, x_from_currency = ''EUR'', x_to_currency = ''USD'', x_rate = 11/10, x_as_of_date = Date 2024 5 1\<rparr>],
     db_accounts := sample_accounts\<rparr>"

definition sample_env :: "nat \<Rightarrow> env" where
  "sample_env n = \<lparr>now = int n, today = Date 2024 5 2, new_transfer_id = 100 + n,
     new_entry_id = (\<lambda>i. 1000 * n + i), new_document_id = 200 + n, new_account_id = (\<lambda>i. 300 + 10 * n + i),
     sha256_hex = (\<lambda>text. take 64 text)\<rparr>"

definition sample_leg :: "uuid \<Rightarrow> direction \<Rightarrow> rat \<Rightarrow> leg" where
  "sample_leg aid d x = \<lparr>l_account_id = aid, l_direction = d, l_amount = Decimal x, l_fx_rate = None,
     l_base_amount = None\<rparr>"

definition sample_posting :: "string \<Rightarrow> leg list \<Rightarrow> period \<Rightarrow> posting" where
  "sample_posting key legs p = \<lparr>po_idempotency_key = key, po_legs = legs, po_period = p,
     po_transfer_type = TT_CAPITAL_CALL, po_description = [], po_reverses = None,
     po_request_hash = [], po_created_by = ''ops'', po_fx_date = None\<rparr>"

text \<open>A capital call of 1000.00, two thirds of it from A.\<close>

definition call_legs :: "leg list" where
  "call_legs = [sample_leg 21 DEBIT 1000, sample_leg 22 CREDIT (66667/100), sample_leg 23 CREDIT (33333/100)]"

definition call_posting :: posting where
  "call_posting = sample_posting ''call-1'' call_legs q2"

definition called_db :: db where
  "called_db = snd (post_transfer (sample_env 1) call_posting sample_db)"

definition call_transfer :: transfer where
  "call_transfer = new_transfer (sample_env 1) call_posting"

lemma committed_sample: "committed sample_db"
proof -
  have "transfers_wf sample_db" "entries_wf sample_db" by code_simp+
  moreover have "periods_wf sample_db" "accounts_wf sample_db" by code_simp+
  moreover have "db_entries sample_db = []" "db_pending sample_db = []" by code_simp+
  ultimately show ?thesis by (simp add: committed_def db_ok_def balances_def imbalance_def entries_of_def)
qed

lemma no_overdraft_sample: "no_overdraft sample_db"
  by code_simp

lemma call_posted: "post_transfer (sample_env 1) call_posting sample_db = (Inr call_transfer, called_db)"
proof -
  have "fst (post_transfer (sample_env 1) call_posting sample_db) = Inr call_transfer" by code_simp
  then show ?thesis by (simp add: called_db_def prod_eq_iff)
qed

lemma committed_called: "committed called_db"
  using post_transfer_committed [OF committed_sample call_posted] by simp

definition reversed_db :: db where
  "reversed_db = snd (create_posting
     (sample_env 2, reversal_posting ''rev-1'' call_transfer (reversal_legs call_transfer called_db) q2 ''ops'')
     ''rev-1'' (reversal_fingerprint (sample_env 2) call_transfer q2) called_db)"

lemma rely_id: "rely id"
  by (simp add: rely_def committed_def step_ok_refl)

lemma reversal_posted:
  "\<exists>t. reverse_transfer id id (sample_env 2) 101 ''rev-1'' q2 ''ops'' called_db = (Inr (t, True), reversed_db)"
proof -
  let ?run = "create_posting
     (sample_env 2, reversal_posting ''rev-1'' call_transfer (reversal_legs call_transfer called_db) q2 ''ops'')
     ''rev-1'' (reversal_fingerprint (sample_env 2) call_transfer q2) called_db"
  have "case fst ?run of Inr _ \<Rightarrow> True | Inl _ \<Rightarrow> False" by code_simp
  then obtain t where t: "?run = (Inr t, reversed_db)"
    by (auto simp: prod_eq_iff reversed_db_def split: sum.splits)
  have "get_row (\<lambda>t. t_id t = 101) (db_transfers called_db) = Inr call_transfer"
    "t_transfer_type call_transfer \<noteq> TT_REVERSAL" "existing_reversal call_transfer called_db = None"
    "find_key ''rev-1'' called_db = None" by code_simp+
  from reverse_transfer_fresh [OF this, where ?i1.0 = id and ?i2.0 = id] t show ?thesis by auto
qed

end
