(* ===== verification/Pricing_Correct.thy ===== *)
theory Pricing_Correct
  imports Engine_Correct
begin

text \<open>
  Correctness of \<^verbatim>\<open>ledger/pricing.py\<close>: the conversion rounds once, half-even, and
  never fails on values the columns can hold; and a transfer that balances before rounding
  balances after the residual is absorbed, whatever the rounding errors were.
\<close>

section \<open>Conversion\<close>

lemma product_bound:
  fixes a r :: rat
  assumes "\<bar>a\<bar> < 10 ^ 16" and "\<bar>r\<bar> < 10 ^ 10"
  shows "\<bar>a * r\<bar> < 10 ^ 26"
proof -
  have "\<bar>a * r\<bar> < (10 ^ 16) * 10 ^ 10"
    unfolding abs_mult using assms by (intro mult_strict_mono') auto
  then show ?thesis by simp
qed

lemma round_half_even_bound:
  assumes "\<bar>x\<bar> + 1 \<le> of_int b"
  shows "\<bar>round_half_even x\<bar> < b"
proof -
  have "\<bar>of_int (round_half_even x)\<bar> < (of_int b :: rat)"
    using round_half_even_error [of x] assms by linarith
  then have "of_int \<bar>round_half_even x\<bar> < (of_int b :: rat)" by simp
  then show ?thesis by (simp only: of_int_less_iff)
qed

lemma quantize_fits:
  assumes "\<bar>x\<bar> * 10 ^ s + 1 \<le> 10 ^ p"
  shows "quantize p s x = Some (of_int (round_half_even (x * 10 ^ s)) / 10 ^ s)"
proof -
  have "\<bar>round_half_even (x * 10 ^ s)\<bar> < 10 ^ p"
    using assms by (intro round_half_even_bound) (simp add: abs_mult)
  then show ?thesis by (simp add: quantize_def Let_def)
qed

lemma convert_exact:
  assumes "dp 4 amount" and "\<bar>amount\<bar> < 10 ^ 16" and "dp 10 rate" and "\<bar>rate\<bar> < 10 ^ 10"
  shows "convert amount rate = Inr (of_int (round_half_even (amount * rate * 10 ^ 4)) / 10 ^ 4)"
proof -
  have b: "\<bar>amount * rate\<bar> < 10 ^ 26" using assms(2,4) by (rule product_bound)
  have "dp 14 (amount * rate)" using dp_mult [OF assms(1,3)] by simp
  then have r: "ctx_round 50 (amount * rate) = amount * rate"
    by (rule ctx_round_exact [where m = 26]) (use b in simp_all)
  have "\<bar>amount * rate\<bar> * 10 ^ 4 < 10 ^ 26 * 10 ^ 4" using b by simp
  then have "\<bar>amount * rate\<bar> * 10 ^ 4 + 1 \<le> 10 ^ 50" by simp
  from quantize_fits [OF this] show ?thesis by (simp add: convert_def r)
qed

section \<open>Absorption\<close>

definition net :: "priced_leg list \<Rightarrow> rat" where
  "net ps = sum_list (map (\<lambda>p. signed (pl_direction p) (pl_base_amount p)) ps)"

lemma net_debits_credits:
  "\<forall>p \<in> set ps. pl_direction p = DEBIT \<or> pl_direction p = CREDIT \<Longrightarrow> debits ps - credits ps = net ps"
  by (induction ps) (auto simp: debits_def credits_def net_def)

lemma net_update:
  "i < length ps \<Longrightarrow> net (ps[i := p]) = net ps - signed (pl_direction (ps ! i)) (pl_base_amount (ps ! i))
     + signed (pl_direction p) (pl_base_amount p)"
proof (induction ps arbitrary: i)
  case (Cons q qs)
  then show ?case by (cases i) (auto simp: net_def)
qed simp

lemma absorb_directions:
  "map pl_direction (absorb_rounding_residual ps) = map pl_direction ps"
  by (cases ps rule: absorb_cases) (simp_all add: map_update, metis list_update_id nth_map)

lemma adjustable_candidates:
  "length (filter (\<lambda>i. pl_adjustable (ps ! i)) [0..<length ps]) = length (filter pl_adjustable ps)"
proof -
  have "map (\<lambda>i. ps ! i) [0..<length ps] = ps" by (rule map_nth)
  then show ?thesis by (metis (no_types) comp_def filter_map length_map filter_cong)
qed

text \<open>When the residual is within one unit per converted leg, what comes out balances.\<close>

lemma absorb_balances:
  assumes dirs: "\<forall>p \<in> set ps. pl_direction p = DEBIT \<or> pl_direction p = CREDIT"
    and small: "\<bar>net ps\<bar> \<le> (1/10000) * of_nat (length (filter pl_adjustable ps))"
  shows "check_balanced (absorb_rounding_residual ps) = Inr ()"
proof -
  let ?ps = "absorb_rounding_residual ps"
  have "set (map pl_direction ?ps) = set (map pl_direction ps)" by (simp only: absorb_directions)
  then have "pl_direction p \<in> pl_direction ` set ps" if "p \<in> set ?ps" for p
    using that by (simp only: set_map) blast
  with dirs have dirs': "\<forall>p \<in> set ?ps. pl_direction p = DEBIT \<or> pl_direction p = CREDIT"
    by fastforce
  have n: "debits ps - credits ps = net ps" using net_debits_credits [OF dirs] .
  have "net ?ps = 0"
  proof (cases "net ps = 0")
    case True
    then show ?thesis by (simp add: absorb_rounding_residual_def n)
  next
    case False
    let ?cs = "filter (\<lambda>i. pl_adjustable (ps ! i)) [0..<length ps]"
    have "?cs \<noteq> []"
      using False small adjustable_candidates [of ps] by (intro notI) simp
    then obtain c cs where c: "?cs = c # cs" by (cases ?cs) auto
    define i where "i = largest ps c cs"
    have "i \<in> set ?cs" using largest_mem [of ps c cs] c by (metis i_def)
    then have i: "i < length ps" by auto
    have "\<not> (1/10000) * of_nat (length (c # cs)) < \<bar>net ps\<bar>"
      using small adjustable_candidates [of ps] unfolding c by simp
    then have eq: "?ps = ps[i := (ps ! i)\<lparr>pl_base_amount := pl_base_amount (ps ! i) +
         (if pl_direction (ps ! i) = DEBIT then - net ps else net ps)\<rparr>]"
      using False by (simp add: absorb_rounding_residual_def n c i_def Let_def)
    show ?thesis
      unfolding eq using i by (simp add: net_update signed_def)
  qed
  then have "debits ?ps - credits ?ps = 0" using net_debits_credits [OF dirs'] by simp
  then show ?thesis by (simp add: check_balanced_def)
qed

text \<open>
  \<open>rounds_to p x\<close>: the base amount of \<open>p\<close> is \<open>x\<close> itself, or, for a converted leg, \<open>x\<close> to the
  nearest ten-thousandth.
\<close>

definition rounds_to :: "priced_leg \<Rightarrow> rat \<Rightarrow> bool" where
  "rounds_to p x \<longleftrightarrow>
     (if pl_adjustable p then \<bar>pl_base_amount p - x\<bar> \<le> 1/20000 else pl_base_amount p = x)"

lemma net_error:
  assumes "list_all2 rounds_to ps xs"
  shows "\<bar>net ps - sum_list (map2 (\<lambda>p x. signed (pl_direction p) x) ps xs)\<bar>
    \<le> (1/20000) * of_nat (length (filter pl_adjustable ps))"
  using assms
proof (induction rule: list_all2_induct)
  case (Cons p ps x xs)
  let ?d = "signed (pl_direction p) (pl_base_amount p) - signed (pl_direction p) x"
  let ?r = "net ps - sum_list (map2 (\<lambda>p x. signed (pl_direction p) x) ps xs)"
  have "\<bar>?d\<bar> = \<bar>pl_base_amount p - x\<bar>" by (simp add: signed_def abs_minus_commute)
  then have d: "\<bar>?d\<bar> \<le> (if pl_adjustable p then 1/20000 else 0)"
    using Cons(1) by (simp add: rounds_to_def split: if_splits)
  have "net (p # ps) - sum_list (map2 (\<lambda>p x. signed (pl_direction p) x) (p # ps) (x # xs)) = ?d + ?r"
    by (simp add: net_def)
  moreover have "\<bar>?d + ?r\<bar> \<le> \<bar>?d\<bar> + \<bar>?r\<bar>" by (rule abs_triangle_ineq)
  ultimately show ?case using d Cons(3) by (simp add: field_simps split: if_splits)
qed (simp add: net_def)

lemma rounding_absorbed:
  assumes dirs: "\<forall>p \<in> set ps. pl_direction p = DEBIT \<or> pl_direction p = CREDIT"
    and r: "list_all2 rounds_to ps xs"
    and z: "sum_list (map2 (\<lambda>p x. signed (pl_direction p) x) ps xs) = 0"
  shows "check_balanced (absorb_rounding_residual ps) = Inr ()"
proof (rule absorb_balances [OF dirs])
  have "0 \<le> (of_nat (length (filter pl_adjustable ps)) :: rat)" by simp
  then show "\<bar>net ps\<bar> \<le> (1/10000) * of_nat (length (filter pl_adjustable ps))"
    using net_error [OF r] z by linarith
qed

section \<open>Legs in the base currency\<close>

text \<open>A leg of a base-currency account, without a given base amount, is worth its amount.\<close>

definition at_par :: "string \<Rightarrow> leg \<Rightarrow> priced_leg \<Rightarrow> bool" where
  "at_par ccy l p \<longleftrightarrow>
     l_base_amount l = None \<and> a_currency (pl_account p) = ccy \<longrightarrow>
       pl_base_amount p = pl_amount p \<and> \<not> pl_adjustable p"

lemma price_each_at_par:
  "price_each s accounts ccy d rates ls = Inr ps \<Longrightarrow> list_all2 (at_par ccy) ls ps"
proof (induction ls arbitrary: rates ps)
  case (Cons l ls)
  then show ?case
    by (auto simp: price_leg_def at_par_def Let_def split: option.splits prod.splits if_splits)
qed simp

lemma absorb_at_par: "list_all2 (at_par ccy) ls ps \<Longrightarrow> list_all2 (at_par ccy) ls (absorb_rounding_residual ps)"
proof (cases ps rule: absorb_cases)
  case (2 i)
  assume m: "list_all2 (at_par ccy) ls ps"
  show ?thesis
    unfolding 2(4)
    using m 2(1,2) by (auto simp: list_all2_conv_all_nth nth_list_update at_par_def)
qed simp

lemma price_legs_at_par: "price_legs s ls accounts ccy d = Inr ps \<Longrightarrow> list_all2 (at_par ccy) ls ps"
  by (auto simp: price_legs_def intro: absorb_at_par price_each_at_par)

lemma stored_at_par:
  assumes l: "l_base_amount l = None" and m: "leg_match (account_dict locked) l p" and v: "validate_amount l = Inr ()"
    and par: "at_par ccy l p" and ccy: "a_currency (pl_account p) = ccy"
    and st: "stored_entry (new_entry env tid i p) = Inr e"
  shows "signed_base_amount e = signed_amount e"
proof -
  have "dp 4 (pl_amount p)" using v m by (auto simp: validate_amount_Inr leg_match_def valid_amount_def)
  moreover have "pl_base_amount p = pl_amount p" using par l ccy by (simp add: at_par_def)
  ultimately have "e_base_amount e = e_amount e"
    using stored_entry_store(1,2) [OF st] by (simp add: new_entry_def)
  then show ?thesis by (simp add: signed_base_amount_def signed_amount_def)
qed

text \<open>On accounts in the fund's currency, base and native effects of a posting agree.\<close>

lemma post_transfer_at_par:
  assumes acc: "accounts_wf s" and r: "post_transfer env po s = (Inr t, s')"
    and f: "get_row (\<lambda>f. f_id f = p_fund (po_period po)) (db_funds s) = Inr fund"
    and b: "\<forall>l \<in> set (po_legs po). l_base_amount l = None"
  obtains stored where "list_all2 (entry_of_leg env) (po_legs po) stored" "t = new_transfer env po"
    "s' = s\<lparr>db_transfers := db_transfers s @ [t], db_entries := db_entries s @ stored, db_pending := []\<rparr>"
    "\<And>e a. e \<in> set stored \<Longrightarrow> a \<in> set (db_accounts s) \<Longrightarrow> a_id a = e_account e \<Longrightarrow>
       a_currency a = f_base_currency fund \<Longrightarrow> signed_base_amount e = signed_amount e"
  using r
proof (cases rule: post_transfer_InrE)
  case (1 locked fund' priced stored)
  have fund: "fund' = fund" using 1(4) f by simp
  let ?legs = "po_legs po"
  note m = price_legs_match [OF 1(5)]
  have len: "length ?legs = length priced" "length stored = length priced"
    using m 1(10) by (auto dest: list_all2_lengthD)
  have "signed_base_amount e = signed_amount e"
    if e: "e \<in> set stored" and a: "a \<in> set (db_accounts s)" "a_id a = e_account e" "a_currency a = f_base_currency fund"
    for e a
  proof -
    from e obtain i where i: "i < length priced" "e = stored ! i" using len by (auto simp: in_set_conv_nth)
    have l: "?legs ! i \<in> set ?legs" using i len by simp
    have st: "stored_entry (new_entry env (new_transfer_id env) i (priced ! i)) = Inr e"
      using 1(10) i len by (auto simp: list_all2_conv_all_nth new_entries_nth)
    have "a_id (pl_account (priced ! i)) = a_id a"
      using stored_entry_Inr(5) [OF st] a(2) by (simp add: new_entry_def)
    then have "pl_account (priced ! i) = a" using priced_account [OF acc 1(2) m _ a(1)] i by simp
    moreover have "at_par (f_base_currency fund) (?legs ! i) (priced ! i)"
      using price_legs_at_par [OF 1(5)] fund i len by (simp add: list_all2_conv_all_nth)
    moreover have "leg_match (account_dict locked) (?legs ! i) (priced ! i)"
      using m i len by (simp add: list_all2_conv_all_nth)
    moreover have "validate_amount (?legs ! i) = Inr ()"
      using 1(1) l by (simp add: validate_legs_Inr validate_amount_Inr)
    ultimately show ?thesis using stored_at_par [OF _ _ _ _ _ st] b l a(3) by blast
  qed
  then show thesis
    using that [OF stored_of_legs [OF 1(1) m 1(10)] 1(8,11)] by blast
qed

end
