(* ===== verification/Ledger_Properties.thy ===== *)
theory Ledger_Properties
  imports Sample_Ledger Pricing_Correct
begin

text \<open>
  The properties of the database and of the ledger engine, each with its application to the
  sample fund where it has hypotheses.
\<close>

section \<open>The database has the final say\<close>




text \<open>
  C7: In every state that transactions can reach from the empty database, the reconciliation
  command passes, and every period nets to zero by itself.
\<close>

theorem reachable_reconciles:
  assumes "reachable_db s"
  shows "reconcile_command s None = Inr 0 \<and> period_imbalance s pid = 0"
proof -
  have z: "imbalance s tid = 0" for tid
    using committed_imbalance [OF reachable_committed [OF assms]] .
  then show ?thesis
    using total_imbalance_zero [of s] period_imbalance_zero [of s] unbalanced_all [of 100 s]
    by (simp add: reconcile_command_def)
qed

theorem reachable_reconciles_witness: "reconcile_command empty_db None = Inr 0 \<and>
  (let s = snd (sql_transaction [InsertFund sample_fund, InsertPeriod q2, InsertTransfer call_transfer] empty_db)
   in db_transfers s = [call_transfer] \<and> reconcile_command s None = Inr 0)"
proof -
  let ?tx = "sql_transaction [InsertFund sample_fund, InsertPeriod q2, InsertTransfer call_transfer] empty_db"
  have "reachable_db (snd ?tx)" by (rule reachable_db.tx [OF reachable_db.empty, where r = "fst ?tx"]) simp
  moreover have "db_transfers (snd ?tx) = [call_transfer]" by code_simp
  ultimately show ?thesis
    using reachable_reconciles [OF reachable_db.empty, of 0] reachable_reconciles [of "snd ?tx" 0]
    by (simp add: Let_def)
qed

text \<open>
  The checker is exact on any state of the tables, reachable or not: the command passes if
  and only if every transfer balances, so a loss that cancels out between two transfers is
  still reported.
\<close>

theorem reconcile_exact:
  "(\<exists>imb. reconcile_command s None = Inr imb) \<longleftrightarrow> (\<forall>tid. imbalance s tid = 0)"
  using total_imbalance_zero [of s] unbalanced_all [of 100 s]
  by (auto simp: reconcile_command_def Let_def)

section \<open>post\_transfer\<close>

text \<open>
  The request check accepts exactly the leg lists with at least one debit and one credit,
  no other direction, and amounts that are finite Decimals, positive, with at most four
  decimal places (and below \<open>10^24\<close>, where \<^verbatim>\<open>quantize\<close> itself fails).
\<close>

theorem validate_legs_exact:
  "validate_legs legs = Inr () \<longleftrightarrow>
     set (map l_direction legs) = {DEBIT, CREDIT} \<and>
     list_all (\<lambda>l. case l_amount l of Decimal x \<Rightarrow> 0 < x \<and> dp 4 x \<and> x < 10 ^ 24 | _ \<Rightarrow> False) legs"
proof -
  have len: "2 \<le> length legs" if "set (map l_direction legs) = {DEBIT, CREDIT}"
  proof (rule ccontr)
    assume "\<not> 2 \<le> length legs"
    then have "card (set (map l_direction legs)) \<le> 1" using card_length [of "map l_direction legs"] by simp
    with that show False by simp
  qed
  have dirs: "set (map l_direction legs) = {DEBIT, CREDIT} \<longleftrightarrow>
    (\<forall>l \<in> set legs. l_direction l = DEBIT \<or> l_direction l = CREDIT) \<and>
    (\<exists>l \<in> set legs. l_direction l = DEBIT) \<and> (\<exists>l \<in> set legs. l_direction l = CREDIT)"
    unfolding set_eq_subset by (auto simp: image_iff eq_commute)
  have amounts: "(case a of Decimal x \<Rightarrow> 0 < x \<and> dp 4 x \<and> x < 10 ^ 24 | _ \<Rightarrow> False) =
    (\<exists>x. a = Decimal x \<and> valid_amount x)" for a
    by (cases a) (simp_all add: valid_amount_def)
  show ?thesis
    unfolding validate_legs_Inr list_all_iff amounts using len dirs by blast
qed

text \<open>
  C2: Refinement: a posting that succeeds adds to the balance of every account the signed sum
  of the requested legs on it, and touches no other balance.
\<close>

theorem post_transfer_refines:
  assumes "post_transfer env po s = (Inr t, s')"
  shows "abs_balances s' = abs_post (po_legs po) (abs_balances s)"
  using post_transfer_balances [OF assms] by (auto simp: abs_balances_def abs_post_def)

theorem post_transfer_refines_witness:
  "abs_balances called_db 21 = 1000 \<and> abs_balances called_db 22 = - (66667/100) \<and> abs_balances called_db 24 = 0"
proof -
  have 1: "abs_post call_legs (abs_balances sample_db) 21 = 1000"
    "abs_post call_legs (abs_balances sample_db) 22 = - (66667/100)"
    "abs_post call_legs (abs_balances sample_db) 24 = 0" by code_simp+
  have "po_legs call_posting = call_legs" by (simp add: call_posting_def sample_posting_def)
  with post_transfer_refines [OF call_posted] 1 show ?thesis by simp
qed

text \<open>
  C8: A posting that raises, for whatever reason and at whatever step, leaves the database as
  it found it.
\<close>

theorem post_transfer_rolls_back:
  assumes "post_transfer env po s = (Inl e, s')"
  shows "s' = s"
  using assms by (rule post_transfer_Inl)

theorem post_transfer_rolls_back_witness:
  "post_transfer (sample_env 1) (sample_posting ''k'' [sample_leg 22 DEBIT 5, sample_leg 21 CREDIT 5] q2) sample_db =
     (Inl (LedgerErr InsufficientFunds), sample_db)"
proof -
  let ?run = "post_transfer (sample_env 1) (sample_posting ''k'' [sample_leg 22 DEBIT 5, sample_leg 21 CREDIT 5] q2) sample_db"
  have "fst ?run = Inl (LedgerErr InsufficientFunds)" by code_simp
  then have "?run = (Inl (LedgerErr InsufficientFunds), snd ?run)" by (simp add: prod_eq_iff)
  with post_transfer_rolls_back [OF this] show ?thesis by simp
qed

text \<open>
  A posting keeps every guarantee of the database: the ledger stays balanced with nothing
  left for COMMIT to check, rows are only appended, closed periods stay as they are.
\<close>

theorem post_transfer_keeps_ledger:
  assumes "committed s" and "post_transfer env po s = (r, s')"
  shows "committed s' \<and> extends s s' \<and> closed_frozen s s'"
  using post_transfer_committed [OF assms] by (simp add: step_ok_def)

theorem post_transfer_keeps_ledger_witness:
  "committed called_db \<and> extends sample_db called_db \<and> length (db_entries called_db) = 3"
proof -
  have "length (db_entries called_db) = 3" by code_simp
  with post_transfer_keeps_ledger [OF committed_sample call_posted] show ?thesis by simp
qed

text \<open>
  C4: No overdraft: if no cash account is below zero before a posting, none is after it, for
  any number of legs per account and in each account's own currency.
\<close>

theorem post_transfer_never_overdraws:
  assumes "committed s" and "no_overdraft s" and "post_transfer env po s = (r, s')"
  shows "no_overdraft s'"
proof (cases r)
  case (Inl e)
  with assms(2,3) show ?thesis by (auto dest: post_transfer_Inl)
next
  case (Inr t)
  with assms show ?thesis by (auto intro: post_transfer_no_overdraft simp: committed_def db_ok_def)
qed

theorem post_transfer_never_overdraws_witness:
  "no_overdraft called_db \<and> \<not> no_overdraft (called_db\<lparr>db_entries := map (\<lambda>e. e\<lparr>e_direction := flip (e_direction e)\<rparr>) (db_entries called_db)\<rparr>)"
proof -
  have "\<not> no_overdraft (called_db\<lparr>db_entries := map (\<lambda>e. e\<lparr>e_direction := flip (e_direction e)\<rparr>) (db_entries called_db)\<rparr>)"
    by code_simp
  with post_transfer_never_overdraws [OF committed_sample no_overdraft_sample call_posted] show ?thesis by simp
qed

text \<open>
  C9: Nothing is posted into a closed period, even by a caller whose period object was read
  before it closed: the row of the database decides.
\<close>

theorem closed_period_refused:
  assumes "find_period s (p_id (po_period po)) = Some p" and "p_status p = CLOSED"
  shows "\<exists>e. post_transfer env po s = (Inl e, s)"
proof -
  obtain r s' where r: "post_transfer env po s = (r, s')" by fastforce
  show ?thesis
  proof (cases r)
    case (Inl e)
    with r post_transfer_Inl show ?thesis by blast
  next
    case (Inr t)
    with r obtain p' where "find_period s (p_id (po_period po)) = Some p'" "p_status p' = OPEN"
      using post_transfer_period_open by blast
    with assms show ?thesis by simp
  qed
qed

text \<open>The caller still holds q1 as it was when OPEN.\<close>

theorem closed_period_refused_witness:
  "\<exists>e. post_transfer (sample_env 1) (sample_posting ''k'' call_legs (q1\<lparr>p_status := OPEN\<rparr>)) sample_db = (Inl e, sample_db)"
  by (rule closed_period_refused [where p = q1]) code_simp+

section \<open>Pricing\<close>

text \<open>
  C11: For an amount and a rate that the columns hold, conversion never fails and rounds once:
  the result is the exact product to the nearest ten-thousandth, ties to even.
\<close>

theorem convert_rounds_once:
  assumes "dp 4 amount" and "\<bar>amount\<bar> < 10 ^ 16" and "dp 10 rate" and "\<bar>rate\<bar> < 10 ^ 10"
  shows "convert amount rate = Inr (of_int (round_half_even (amount * rate * 10 ^ 4)) / 10 ^ 4) \<and>
    (\<exists>b. convert amount rate = Inr b \<and> dp 4 b \<and> \<bar>b - amount * rate\<bar> \<le> 1/20000)"
proof -
  let ?b = "of_int (round_half_even (amount * rate * 10 ^ 4)) / 10 ^ 4 :: rat"
  have c: "convert amount rate = Inr ?b" using assms by (rule convert_exact)
  moreover have "dp 4 ?b" by (auto simp: dp_iff)
  moreover have "\<bar>?b - amount * rate\<bar> \<le> 1/20000"
    using round_half_even_error [of "amount * rate * 10 ^ 4"] by (simp add: field_simps abs_le_iff)
  ultimately show ?thesis by blast
qed

theorem convert_rounds_once_witness:
  "convert (10001/100) (10855/10000) = Inr (1085609/10000)"
proof -
  have "dp 4 (10001/100)" "\<bar>10001/100 :: rat\<bar> < 10 ^ 16" "dp 10 (10855/10000)" "\<bar>10855/10000 :: rat\<bar> < 10 ^ 10"
    by code_simp+
  note c = convert_rounds_once [OF this, THEN conjunct1]
  have "round_half_even (10001/100 * (10855/10000) * 10 ^ 4) = 1085609" by code_simp
  then show ?thesis unfolding c by simp
qed

text \<open>
  C10: Rounding can never unbalance a transfer: if the legs balance at their exact base values,
  and each converted leg was rounded to the nearest ten-thousandth, then what the absorption
  returns passes the balance check.
\<close>

theorem rounding_never_unbalances:
  assumes "\<forall>p \<in> set ps. pl_direction p = DEBIT \<or> pl_direction p = CREDIT"
    and "list_all2 rounds_to ps xs"
    and "sum_list (map2 (\<lambda>p x. signed (pl_direction p) x) ps xs) = 0"
  shows "check_balanced (absorb_rounding_residual ps) = Inr ()"
  using assms by (rule rounding_absorbed)

definition sample_priced :: "direction \<Rightarrow> rat \<Rightarrow> bool \<Rightarrow> priced_leg" where
  "sample_priced d b adj = \<lparr>pl_account = sample_account 24 ''CASH-EUR'' AT_CASH None ''EUR'', pl_direction = d,
     pl_amount = 1, pl_currency = ''EUR'', pl_fx_rate = None, pl_base_amount = b, pl_adjustable = adj\<rparr>"

text \<open>Two thirds split in three: the debits come to 0.6666, the credit to 0.6667.\<close>

theorem rounding_never_unbalances_witness:
  "let ps = [sample_priced DEBIT (2222/10000) True, sample_priced DEBIT (2222/10000) True,
             sample_priced DEBIT (2222/10000) True, sample_priced CREDIT (6667/10000) True]
   in check_balanced ps = Inl (LedgerErr UnbalancedTransfer) \<and>
      check_balanced (absorb_rounding_residual ps) = Inr ()"
proof -
  let ?ps = "[sample_priced DEBIT (2222/10000) True, sample_priced DEBIT (2222/10000) True,
             sample_priced DEBIT (2222/10000) True, sample_priced CREDIT (6667/10000) True]"
  have "\<forall>p \<in> set ?ps. pl_direction p = DEBIT \<or> pl_direction p = CREDIT"
    "list_all2 rounds_to ?ps [2/9, 2/9, 2/9, 2/3]"
    "sum_list (map2 (\<lambda>p x. signed (pl_direction p) x) ?ps [2/9, 2/9, 2/9, 2/3]) = 0" by code_simp+
  from rounding_never_unbalances [OF this] have "check_balanced (absorb_rounding_residual ?ps) = Inr ()" .
  moreover have "check_balanced ?ps = Inl (LedgerErr UnbalancedTransfer)" by code_simp
  ultimately show ?thesis by (simp add: Let_def)
qed

section \<open>Exactly once\<close>

text \<open>
  C3: Whatever other sessions commit between its statements, an idempotent posting that
  returns leaves exactly one transfer with its key, the one it returns, recorded with the
  fingerprint of this very request; and it was written by this call only if the key was new.
\<close>

theorem post_exactly_once:
  assumes "rely i1" and "rely i2" and "committed s"
    and "post_transfer_idempotent i1 i2 env po s = (Inr (t, created), s')"
  shows "keyed (po_idempotency_key po) s' = [t] \<and>
    transfer_fingerprint env (po_transfer_type po) (po_period po) (po_legs po) = Inr (t_request_hash t) \<and>
    (if created then keyed (po_idempotency_key po) s = [] \<and>
         abs_balances s' = abs_post (po_legs po) (abs_balances (i1 s))
     else s' = s \<or> s' = i2 (i1 s))"
  using assms
proof (cases rule: post_transfer_idempotent_Inr)
  case (1 h)
  then show ?thesis
    using post_transfer_balances [of env "po\<lparr>po_reverses := None, po_idempotency_key := po_idempotency_key po, po_request_hash := h\<rparr>" "i1 s" t s']
    by (cases created) (auto simp: create_posting_def abs_balances_def abs_post_def)
qed

definition call_run :: "(exn + transfer \<times> bool) \<times> db" where
  "call_run = post_transfer_idempotent id id (sample_env 1) call_posting sample_db"

lemma call_run_ok: "\<exists>t. call_run = (Inr (t, True), snd call_run)"
proof -
  have "case fst call_run of Inr (_, created) \<Rightarrow> created | Inl _ \<Rightarrow> False" by code_simp
  then show ?thesis by (auto simp: prod_eq_iff split: sum.splits prod.splits)
qed

theorem post_exactly_once_witness:
  "length (keyed ''call-1'' (snd call_run)) = 1 \<and> abs_balances (snd call_run) 21 = 1000"
proof -
  obtain t where r: "call_run = (Inr (t, True), snd call_run)" using call_run_ok ..
  have "abs_post call_legs (abs_balances sample_db) 21 = 1000" by code_simp
  then show ?thesis
    using post_exactly_once [OF rely_id rely_id committed_sample r [unfolded call_run_def]]
    by (simp add: call_run_def call_posting_def sample_posting_def)
qed

text \<open>
  A retry of an answered request, with the same key and legs, period and type, returns
  the recorded transfer as a replay and changes nothing, whatever happened in between; the
  same key with another request is refused with a conflict and changes nothing.
\<close>

theorem post_retry_replays:
  assumes "committed s" and "keyed (po_idempotency_key po) s = [t]"
    and "validate_legs (po_legs po) = Inr ()"
    and "transfer_fingerprint env (po_transfer_type po) (po_period po) (po_legs po) = Inr h"
  shows "post_transfer_idempotent i1 i2 env po s =
    (if t_request_hash t = h then Inr (t, False) else Inl (LedgerErr IdempotencyConflict), s)"
  using assms(3,4)
  by (simp add: run_again [OF assms(1,2)] post_transfer_idempotent_def run_idempotent_def bind_act_def query_def replay_transfer_def ret_def)

theorem post_retry_replays_witness:
  "fst (post_transfer_idempotent id id (sample_env 2)
      (sample_posting ''call-1'' [sample_leg 21 DEBIT 7, sample_leg 22 CREDIT 7] q2) called_db) =
    Inl (LedgerErr IdempotencyConflict)"
proof -
  let ?po = "sample_posting ''call-1'' [sample_leg 21 DEBIT 7, sample_leg 22 CREDIT 7] q2"
  have 1: "keyed (po_idempotency_key ?po) called_db = [call_transfer]" by code_simp
  have 2: "validate_legs (po_legs ?po) = Inr ()" by code_simp
  have "case transfer_fingerprint (sample_env 2) (po_transfer_type ?po) (po_period ?po) (po_legs ?po) of
      Inr h \<Rightarrow> h \<noteq> t_request_hash call_transfer | Inl _ \<Rightarrow> False" by code_simp
  then obtain h where 3: "transfer_fingerprint (sample_env 2) (po_transfer_type ?po) (po_period ?po) (po_legs ?po) = Inr h"
    and 4: "t_request_hash call_transfer \<noteq> h"
    by (auto split: sum.splits)
  from post_retry_replays [OF committed_called 1 2 3, of id id] 4 show ?thesis by simp
qed

lemma leg_row_valid:
  assumes "validate_legs legs = Inr ()" and "l \<in> set legs"
  shows "leg_row l = Inr (projr (leg_row l))"
proof -
  obtain x where x: "l_amount l = Decimal x" "valid_amount x" using assms by (auto simp: validate_legs_Inr)
  then have "quantize 28 4 x = Some x" by (simp add: quantize_exact valid_amount_def)
  then obtain m where "money_str x = Inr m" by (auto simp: money_str_def Let_def)
  with x(1) show ?thesis by (simp add: leg_row_def leg_amount.simps)
qed

text \<open>
  C12: The fingerprint does not depend on the order in which a request lists its legs, and
  every request that passes the check has one.
\<close>

theorem fingerprint_order_insensitive:
  assumes "validate_legs legs = Inr ()" and "mset legs' = mset legs"
  shows "transfer_fingerprint env tt p legs' = transfer_fingerprint env tt p legs \<and>
    (\<exists>h. transfer_fingerprint env tt p legs = Inr h)"
proof -
  let ?row = "\<lambda>l. projr (leg_row l)"
  have "set legs' = set legs" using assms(2) by (rule mset_eq_setD)
  then have r: "rmap leg_row legs = Inr (map ?row legs)" "rmap leg_row legs' = Inr (map ?row legs')"
    using leg_row_valid [OF assms(1)] by (auto intro!: rmap_total)
  have "mset (map ?row legs') = mset (map ?row legs)" using assms(2) by simp
  then have "sort (map ?row legs') = sort (map ?row legs)" by (metis properties_for_sort sorted_sort mset_sort)
  with r show ?thesis by (simp add: transfer_fingerprint_def)
qed

theorem fingerprint_order_insensitive_witness:
  "transfer_fingerprint (sample_env 1) TT_CAPITAL_CALL q2 (rev call_legs) =
   transfer_fingerprint (sample_env 1) TT_CAPITAL_CALL q2 call_legs"
proof -
  have "validate_legs call_legs = Inr ()" by code_simp
  from fingerprint_order_insensitive [OF this, of "rev call_legs"] show ?thesis by simp
qed

section \<open>Reversals\<close>

text \<open>
  C5: A reversal cancels its original exactly: on every account, in the account's currency and
  in the fund's, the reversal's effect is the opposite of the original's, and the balances move
  by it, whatever the rates have done since and whatever other sessions commit meanwhile.
\<close>

theorem reversal_cancels:
  assumes "rely i1" and "rely i2" and "committed s"
    and "reverse_transfer i1 i2 env tid key p cb s = (Inr (t, True), s')"
  shows "transfer_effect s' (t_id t) aid = - transfer_effect s tid aid \<and>
    transfer_base_effect s' (t_id t) aid = - transfer_base_effect s tid aid \<and>
    native_balance s' aid None = native_balance (i1 s) aid None - transfer_effect s tid aid \<and>
    base_balance s' aid None = base_balance (i1 s) aid None - transfer_base_effect s tid aid \<and>
    t_reverses t = Some tid"
  using assms
proof (cases rule: reverse_transfer_created)
  case (1 original h)
  have wf: "entries_wf s" "entries_wf (i1 s)"
    using assms(1,3) by (auto simp: rely_def committed_def db_ok_def)
  from reversal_stored [OF wf(1) 1(4)] obtain stored where
    st: "db_entries s' = db_entries (i1 s) @ stored" "\<forall>e \<in> set stored. e_transfer e = t_id t"
    "t_reverses t = Some (t_id original)" "t_id t \<notin> set (map t_id (db_transfers (i1 s)))" by metis
  have "entries_of (t_id t) s' = stored" using entries_of_fresh [OF wf(2) st(4,1,2)] .
  with reversal_effect [OF wf 1(4), of aid] native_balance_append [OF st(1), of aid]
    base_balance_append [OF st(1), of aid] 1(2) st(3)
  show ?thesis by (simp add: transfer_effect_def transfer_base_effect_def)
qed

theorem reversal_cancels_witness:
  "native_balance called_db 22 None = - (66667/100) \<and> native_balance reversed_db 22 None = 0"
proof -
  obtain t where r: "reverse_transfer id id (sample_env 2) 101 ''rev-1'' q2 ''ops'' called_db = (Inr (t, True), reversed_db)"
    using reversal_posted ..
  have b: "native_balance called_db 22 None = - (66667/100)" "transfer_effect called_db 101 22 = - (66667/100)"
    by code_simp+
  with reversal_cancels [OF rely_id rely_id committed_called r, of 22] show ?thesis by simp
qed

text \<open>
  C6: A transfer is reversed at most once: after a successful reversal, any attempt with
  another key is refused as already reversed, and changes nothing.
\<close>

theorem reversed_at_most_once:
  assumes "rely i1" and "rely i2" and "committed s"
    and "reverse_transfer i1 i2 env tid key p cb s = (Inr (t, True), s')"
    and "key' \<noteq> key"
  shows "reverse_transfer j1 j2 env' tid key' p' cb' s' = (Inl (LedgerErr AlreadyReversed), s')"
proof -
  obtain original h where o: "original \<in> set (db_transfers s)" "t_id original = tid"
    "t_transfer_type original \<noteq> TT_REVERSAL"
    and cr: "create_posting (env, reversal_posting key original (reversal_legs original s) p cb) key h (i1 s) = (Inr t, s')"
    using assms(1-4) by (rule reverse_transfer_created)
  have "entries_wf s" using assms(3) by (simp add: committed_def db_ok_def)
  from reversal_stored [OF this cr] obtain ts: "db_transfers s' = db_transfers (i1 s) @ [t]"
    and tr: "t_reverses t = Some tid" "t_idempotency_key t = key" using o(2) by metis
  have st: "committed s' \<and> step_ok s s'" using assms(1-4) by (rule reverse_transfer_steps)
  then have wf: "transfers_wf s'" and "extends s s'" by (auto simp: step_ok_def db_ok_def)
  then have o': "original \<in> set (db_transfers s')" using o(1) by (auto simp: extends_def)
  have "filter (\<lambda>t. t_id t = tid) (db_transfers s') = [original]"
    using wf o' o(2) unfolding transfers_wf_def by (intro filter_distinct_unique) auto
  moreover have "filter (\<lambda>x. t_reverses x = Some tid) (db_transfers s') = [t]"
  proof -
    let ?P = "\<lambda>x. t_reverses x = Some tid"
    have "distinct (map t_reverses (filter (\<lambda>x. t_reverses x \<noteq> None) (db_transfers s')))"
      using wf by (simp add: transfers_wf_def filter_map comp_def)
    then have "filter ?P (filter (\<lambda>x. t_reverses x \<noteq> None) (db_transfers s')) = [t]"
      using ts tr by (intro filter_distinct_unique) auto
    moreover have "filter ?P (filter (\<lambda>x. t_reverses x \<noteq> None) (db_transfers s')) = filter ?P (db_transfers s')"
      unfolding filter_filter by (rule filter_cong) auto
    ultimately show ?thesis by simp
  qed
  ultimately show ?thesis
    using o assms(5) tr
    by (simp add: reverse_transfer_def bind_act_def query_def get_row_def existing_reversal_def ensure_def)
qed

theorem reversed_at_most_once_witness:
  "reverse_transfer id id (sample_env 3) 101 ''rev-2'' q2 ''ops'' reversed_db =
     (Inl (LedgerErr AlreadyReversed), reversed_db)"
proof -
  obtain t where r: "reverse_transfer id id (sample_env 2) 101 ''rev-1'' q2 ''ops'' called_db = (Inr (t, True), reversed_db)"
    using reversal_posted ..
  show ?thesis
    by (rule reversed_at_most_once [OF rely_id rely_id committed_called r]) simp
qed

end
