(* ===== verification/Allocation.thy ===== *)
theory Allocation
  imports Data_Model "HOL-Library.List_Lexorder" "HOL-Library.Product_Lexorder"
    "HOL-Library.Multiset"
begin

text \<open>
  \<^verbatim>\<open>operations/allocation.py\<close>: pro-rata allocation by the largest-remainder method.
  Weights are a dictionary, the list of its items; \<open>key_str\<close> is Python's \<^verbatim>\<open>str\<close> on
  the keys. The code computes with \<^verbatim>\<open>Fraction\<close>, which is exact; only the last
  product, of an integer and the quantum, is a decimal operation in the default context.
\<close>

section \<open>allocate\<close>

definition PENNY :: rat where
  "PENNY = 1/100"

definition FOUR_DP :: rat where
  "FOUR_DP = 1/10000"

text \<open>Per key: the exact number of quanta and its floor.\<close>

definition exact_units :: "int \<Rightarrow> ('k \<times> rat) list \<Rightarrow> ('k \<times> rat \<times> int) list" where
  "exact_units total_units weights =
     (let weight_sum = sum_list (map snd weights)
      in map (\<lambda>(k, w). let v = of_int total_units * w / weight_sum in (k, v, \<lfloor>v\<rfloor>)) weights)"

text \<open>
  \<^verbatim>\<open>sorted(weights, key=lambda k: (-(exact[k] - floors[k]), str(k)))\<close>.
\<close>

definition by_remainder :: "('k \<Rightarrow> string) \<Rightarrow> ('k \<times> rat \<times> int) list \<Rightarrow> ('k \<times> rat \<times> int) list" where
  "by_remainder key_str rows = sort_key (\<lambda>(k, v, f). (- (v - of_int f), key_str k)) rows"

definition allocate_units :: "('k \<Rightarrow> string) \<Rightarrow> int \<Rightarrow> ('k \<times> rat) list \<Rightarrow> ('k \<times> int) list" where
  "allocate_units key_str total_units weights =
     (let rows = exact_units total_units weights;
          leftover = total_units - sum_list (map (\<lambda>(k, v, f). f) rows);
          winners = map fst (take (nat leftover) (by_remainder key_str rows))
      in map (\<lambda>(k, v, f). (k, if k \<in> set winners then f + 1 else f)) rows)"

text \<open>\<open>amount\<close> is the parameter \<^verbatim>\<open>total\<close>.\<close>

definition allocate :: "('k \<Rightarrow> string) \<Rightarrow> rat \<Rightarrow> ('k \<times> rat) list \<Rightarrow> rat \<Rightarrow> exn + ('k \<times> rat) list" where
  "allocate key_str amount weights quantum =
     (if weights = [] then Inl ValueErr
      else if \<exists>(k, w) \<in> set weights. w < 0 then Inl ValueErr
      else if sum_list (map snd weights) = 0 then Inl ValueErr
      else
        let units = \<bar>amount\<bar> / quantum in
        if of_int \<lfloor>units\<rfloor> \<noteq> units then Inl ValueErr
        else
          let sign = (if amount < 0 then -1 else 1)
          in Inr (map (\<lambda>(k, n). (k, ctx_round 28 (of_int (sign * n) * quantum)))
                   (allocate_units key_str \<lfloor>units\<rfloor> weights)))"

section \<open>The floors and what they leave over\<close>

definition frac_of :: "'k \<times> rat \<times> int \<Rightarrow> rat" where
  "frac_of r = (case r of (k, v, f) \<Rightarrow> v - of_int f)"

definition floor_of :: "'k \<times> rat \<times> int \<Rightarrow> int" where
  "floor_of r = (case r of (k, v, f) \<Rightarrow> f)"

lemma exact_units_keys [simp]: "map fst (exact_units n weights) = map fst weights"
  by (simp add: exact_units_def Let_def comp_def case_prod_beta)

lemma exact_units_length [simp]: "length (exact_units n weights) = length weights"
  by (simp add: exact_units_def Let_def)

lemma exact_units_nth:
  "i < length weights \<Longrightarrow> exact_units n weights ! i =
     (let v = of_int n * snd (weights ! i) / sum_list (map snd weights) in (fst (weights ! i), v, \<lfloor>v\<rfloor>))"
  by (simp add: exact_units_def Let_def case_prod_beta)

lemma frac_range: "r \<in> set (exact_units n weights) \<Longrightarrow> 0 \<le> frac_of r \<and> frac_of r < 1"
  by (auto simp: exact_units_def Let_def frac_of_def) linarith+

lemma sum_list_scale: "sum_list (map (\<lambda>x. c * f x / d) xs) = c * sum_list (map f xs) / (d :: rat)"
  by (induction xs) (auto simp: add_divide_distrib distrib_left)

lemma sum_frac_floor:
  "sum_list (map frac_of rs) = sum_list (map (\<lambda>r. fst (snd r)) rs) - of_int (sum_list (map floor_of rs))"
  by (induction rs) (auto simp: frac_of_def floor_of_def)

text \<open>The fractional parts add up to what the floors leave over.\<close>

definition left_over :: "int \<Rightarrow> ('k \<times> rat) list \<Rightarrow> int" where
  "left_over n weights = n - sum_list (map floor_of (exact_units n weights))"

lemma sum_frac:
  assumes "sum_list (map snd weights) \<noteq> 0"
  shows "sum_list (map frac_of (exact_units n weights)) = of_int (left_over n weights)"
proof -
  have "sum_list (map (\<lambda>r. fst (snd r)) (exact_units n weights)) = of_int n"
    using assms sum_list_scale [of "of_int n" snd _ weights]
    by (simp add: exact_units_def Let_def comp_def case_prod_beta)
  then show ?thesis by (simp add: sum_frac_floor left_over_def)
qed

lemma sum_list_nonneg_le: "(\<And>x. x \<in> set xs \<Longrightarrow> 0 \<le> f x) \<Longrightarrow> 0 \<le> sum_list (map f xs)" for f :: "'a \<Rightarrow> rat"
  by (induction xs) auto

lemma sum_list_lt_count:
  fixes f :: "'a \<Rightarrow> rat"
  assumes "\<And>x. x \<in> set xs \<Longrightarrow> 0 \<le> f x \<and> f x < 1"
  shows "sum_list (map f xs) \<le> of_nat (length (filter (\<lambda>x. 0 < f x) xs))"
  using assms
proof (induction xs)
  case (Cons x xs)
  then have "sum_list (map f xs) \<le> of_nat (length (filter (\<lambda>x. 0 < f x) xs))" by simp
  moreover have "0 \<le> f x" "f x < 1" using Cons.prems by auto
  ultimately show ?case by auto
qed simp

lemma left_over_range:
  assumes "sum_list (map snd weights) \<noteq> 0"
  shows "0 \<le> left_over n weights"
    and "nat (left_over n weights) \<le> length (filter (\<lambda>r. 0 < frac_of r) (exact_units n weights))"
proof -
  let ?rows = "exact_units n weights"
  have "0 \<le> sum_list (map frac_of ?rows)" using frac_range by (intro sum_list_nonneg_le) blast
  then show "0 \<le> left_over n weights" using sum_frac [OF assms] by simp
  have "sum_list (map frac_of ?rows) \<le> of_nat (length (filter (\<lambda>r. 0 < frac_of r) ?rows))"
    using frac_range by (intro sum_list_lt_count) blast
  then have "(of_int (left_over n weights) :: rat) \<le> of_int (int (length (filter (\<lambda>r. 0 < frac_of r) ?rows)))"
    using sum_frac [OF assms] by simp
  then show "nat (left_over n weights) \<le> length (filter (\<lambda>r. 0 < frac_of r) ?rows)"
    by (simp only: of_int_le_iff)
qed

section \<open>Who gets a leftover unit\<close>

lemma by_remainder_sorted: "sorted (map (\<lambda>r. (- frac_of r, key_str (fst r))) (by_remainder key_str rows))"
proof -
  have "(\<lambda>(k, v, f). (- (v - of_int f), key_str k)) = (\<lambda>r. (- frac_of r, key_str (fst r)))"
    by (auto simp: frac_of_def)
  then show ?thesis unfolding by_remainder_def by (simp only: sorted_sort_key)
qed

lemma by_remainder_set [simp]: "set (by_remainder key_str rows) = set rows"
  "length (by_remainder key_str rows) = length rows"
  by (simp_all add: by_remainder_def)

lemma by_remainder_mset: "mset (by_remainder key_str rows) = mset rows"
  by (simp add: by_remainder_def)

lemma lex_le_fst: "(a, b) \<le> (c, d) \<Longrightarrow> a \<le> c" for a c :: rat and b d :: string
  by (auto simp: less_eq_prod_def)

text \<open>In a list sorted by falling remainder, the positive ones come first.\<close>

lemma sorted_positive_prefix:
  fixes g :: "'a \<Rightarrow> rat" and h :: "'a \<Rightarrow> string"
  assumes "sorted (map (\<lambda>x. (- g x, h x)) xs)" and "m \<le> length (filter (\<lambda>x. 0 < g x) xs)"
    and "\<forall>x \<in> set xs. 0 \<le> g x"
  shows "\<forall>x \<in> set (take m xs). 0 < g x"
  using assms
proof (induction xs arbitrary: m)
  case (Cons x xs)
  show ?case
  proof (cases "0 < g x")
    case True
    show ?thesis
    proof (cases m)
      case (Suc k)
      have "\<forall>x \<in> set (take k xs). 0 < g x"
        by (rule Cons.IH) (use Cons.prems True Suc in simp_all)
      with True Suc show ?thesis by simp
    qed simp
  next
    case False
    have "- g x \<le> - g y" if "y \<in> set xs" for y
    proof -
      have "(- g x, h x) \<le> (- g y, h y)" using Cons.prems(1) that by simp
      then show ?thesis by (rule lex_le_fst)
    qed
    with False have "filter (\<lambda>x. 0 < g x) (x # xs) = []"
      by (simp add: filter_empty_conv) (metis neg_le_iff_le order.strict_trans2)
    with Cons.prems(2) show ?thesis by simp
  qed
qed simp

definition winners :: "('k \<Rightarrow> string) \<Rightarrow> int \<Rightarrow> ('k \<times> rat) list \<Rightarrow> 'k set" where
  "winners key_str n weights =
     fst ` set (take (nat (left_over n weights)) (by_remainder key_str (exact_units n weights)))"

lemma allocate_units_rows:
  "allocate_units key_str n weights =
     map (\<lambda>r. (fst r, if fst r \<in> winners key_str n weights then floor_of r + 1 else floor_of r)) (exact_units n weights)"
proof -
  show ?thesis
    by (simp add: allocate_units_def Let_def winners_def left_over_def floor_of_def [abs_def] case_prod_unfold)
qed

lemma filter_take_distinct:
  "distinct (map f xs) \<Longrightarrow> filter (\<lambda>x. f x \<in> f ` set (take m xs)) xs = take m xs"
proof (induction xs arbitrary: m)
  case (Cons x xs)
  show ?case
  proof (cases m)
    case (Suc k)
    have "filter (\<lambda>y. f y = f x \<or> f y \<in> f ` set (take k xs)) xs = filter (\<lambda>y. f y \<in> f ` set (take k xs)) xs"
      using Cons.prems by (intro filter_cong) (auto simp: image_iff)
    with Cons Suc show ?thesis by auto
  qed simp
qed simp

lemma winners_count:
  assumes d: "distinct (map fst weights)" and nz: "sum_list (map snd weights) \<noteq> 0"
  shows "int (length (filter (\<lambda>r. fst r \<in> winners key_str n weights) (exact_units n weights))) = left_over n weights"
proof -
  let ?rows = "exact_units n weights" and ?ord = "by_remainder key_str (exact_units n weights)"
  let ?m = "nat (left_over n weights)"
  have "mset (map fst ?ord) = mset (map fst ?rows)" by (simp only: mset_map by_remainder_mset)
  then have "distinct (map fst ?ord)" using d by (metis exact_units_keys mset_eq_imp_distinct_iff)
  then have f: "filter (\<lambda>r. fst r \<in> fst ` set (take ?m ?ord)) ?ord = take ?m ?ord"
    by (rule filter_take_distinct)
  have "mset (filter (\<lambda>r. fst r \<in> winners key_str n weights) ?rows) =
      mset (filter (\<lambda>r. fst r \<in> winners key_str n weights) ?ord)"
    by (simp only: mset_filter by_remainder_mset)
  then have "length (filter (\<lambda>r. fst r \<in> winners key_str n weights) ?rows) = length (take ?m ?ord)"
    unfolding winners_def f by (rule mset_eq_length)
  moreover have "?m \<le> length ?rows"
    using left_over_range(2) [OF nz] length_filter_le order_trans by blast
  ultimately show ?thesis using left_over_range(1) [OF nz] by simp
qed

lemma sum_list_bump:
  "sum_list (map (\<lambda>r. if P r then f r + 1 else f r) xs) = sum_list (map f xs) + int (length (filter P xs))"
  by (induction xs) auto

lemma allocate_units_sum:
  assumes "distinct (map fst weights)" and "sum_list (map snd weights) \<noteq> 0"
  shows "sum_list (map snd (allocate_units key_str n weights)) = n"
  using winners_count [OF assms, of key_str n]
  by (simp add: allocate_units_rows comp_def sum_list_bump left_over_def)

lemma allocate_units_keys: "map fst (allocate_units key_str n weights) = map fst weights"
  by (simp add: allocate_units_rows comp_def)

lemma winners_positive:
  assumes "sum_list (map snd weights) \<noteq> 0" and "distinct (map fst weights)"
    and "r \<in> set (exact_units n weights)" and "fst r \<in> winners key_str n weights"
  shows "0 < frac_of r"
proof -
  let ?rows = "exact_units n weights" and ?ord = "by_remainder key_str (exact_units n weights)"
  obtain q where q: "q \<in> set (take (nat (left_over n weights)) ?ord)" "fst q = fst r"
    using assms(4) by (auto simp: winners_def)
  have "length (filter (\<lambda>r. 0 < frac_of r) ?ord) = length (filter (\<lambda>r. 0 < frac_of r) ?rows)"
    by (rule mset_eq_length) (simp only: mset_filter by_remainder_mset)
  moreover have "\<forall>x \<in> set ?ord. 0 \<le> frac_of x" using frac_range [of _ n weights] by simp
  ultimately have "\<forall>x \<in> set (take (nat (left_over n weights)) ?ord). 0 < frac_of x"
    using left_over_range(2) [OF assms(1), of n]
    by (intro sorted_positive_prefix [OF by_remainder_sorted]) simp_all
  moreover have "q = r"
  proof -
    have "q \<in> set ?rows" using q(1) by (metis by_remainder_set(1) in_set_takeD)
    moreover have "distinct (map fst ?rows)" using assms(2) by simp
    ultimately show ?thesis using q(2) assms(3) by (metis distinct_map inj_onD)
  qed
  ultimately show ?thesis using q(1) by blast
qed

text \<open>Every share is within one unit of the exact one; one that is whole is exact.\<close>

lemma allocate_units_close:
  assumes nz: "sum_list (map snd weights) \<noteq> 0" and d: "distinct (map fst weights)"
    and kw: "(k, w) \<in> set weights" and kn: "(k, m) \<in> set (allocate_units key_str n weights)"
  shows "\<bar>of_int m - of_int n * w / sum_list (map snd weights)\<bar> < 1"
    and "of_int m = of_int n * w / sum_list (map snd weights) \<or> of_int n * w / sum_list (map snd weights) \<noteq> of_int \<lfloor>of_int n * w / sum_list (map snd weights)\<rfloor>"
proof -
  let ?v = "of_int n * w / sum_list (map snd weights)"
  obtain r where r: "r \<in> set (exact_units n weights)" "fst r = k"
    and m: "m = (if k \<in> winners key_str n weights then floor_of r + 1 else floor_of r)"
    using kn by (auto simp: allocate_units_rows)
  obtain w' where w': "(k, w') \<in> set weights" "r = (k, of_int n * w' / sum_list (map snd weights), \<lfloor>of_int n * w' / sum_list (map snd weights)\<rfloor>)"
    using r by (auto simp: exact_units_def Let_def)
  have "w' = w" using d kw w'(1) by (metis eq_key_imp_eq_value)
  then have fr: "frac_of r = ?v - of_int \<lfloor>?v\<rfloor>" "floor_of r = \<lfloor>?v\<rfloor>"
    using w'(2) by (simp_all add: frac_of_def floor_of_def)
  have "0 < frac_of r" if "k \<in> winners key_str n weights"
    using winners_positive [OF nz d r(1)] that r(2) by blast
  then have p: "k \<in> winners key_str n weights \<Longrightarrow> of_int \<lfloor>?v\<rfloor> < ?v" using fr by simp
  have fl: "of_int \<lfloor>?v\<rfloor> \<le> ?v" "?v < of_int \<lfloor>?v\<rfloor> + 1" by linarith+
  show "\<bar>of_int m - ?v\<bar> < 1" using m p fl fr(2) by auto
  show "of_int m = ?v \<or> ?v \<noteq> of_int \<lfloor>?v\<rfloor>" using m p fr(2) by auto
qed

lemma allocate_units_nonneg:
  assumes "\<forall>(k, w) \<in> set weights. 0 \<le> w" and "0 \<le> n" and "(k, m) \<in> set (allocate_units key_str n weights)"
  shows "0 \<le> m"
proof -
  have "0 \<le> sum_list (map snd weights)" using assms(1) by (intro sum_list_nonneg_le) auto
  then have "0 \<le> floor_of r" if "r \<in> set (exact_units n weights)" for r
    using that assms(1,2) by (auto simp: exact_units_def Let_def floor_of_def)
  then show ?thesis using assms(3) by (fastforce simp: allocate_units_rows split: if_splits)
qed

lemma member_le_sum_list: "\<forall>x \<in> set xs. 0 \<le> (x :: int) \<Longrightarrow> x \<in> set xs \<Longrightarrow> x \<le> sum_list xs"
proof (induction xs)
  case (Cons y ys)
  then have "0 \<le> sum_list ys" by (auto intro: sum_list_nonneg)
  with Cons show ?case by auto
qed simp

section \<open>The guarantees of allocate\<close>

definition money_quantum :: "nat \<Rightarrow> rat" where
  "money_quantum s = 1 / 10 ^ s"

lemma quantum_values: "PENNY = money_quantum 2" "FOUR_DP = money_quantum 4"
  by (simp_all add: PENNY_def FOUR_DP_def money_quantum_def)

definition valid_weights :: "('k \<times> rat) list \<Rightarrow> bool" where
  "valid_weights weights \<longleftrightarrow> weights \<noteq> [] \<and> distinct (map fst weights) \<and> (\<forall>(k, w) \<in> set weights. 0 \<le> w) \<and>
     sum_list (map snd weights) \<noteq> 0"

text \<open>The share of \<open>m\<close> units; the decimal product does not round it.\<close>

lemma share_exact:
  assumes "s \<le> 4" and "\<bar>amount\<bar> < 10 ^ 24" and "\<bar>of_int m\<bar> * money_quantum s \<le> \<bar>amount\<bar>"
  shows "ctx_round 28 (of_int m * money_quantum s) = of_int m * money_quantum s"
proof (rule ctx_round_exact [where s = s and m = 24])
  show "dp s (of_int m * money_quantum s)" by (auto simp: dp_iff money_quantum_def)
  have "\<bar>of_int m * money_quantum s\<bar> = \<bar>of_int m\<bar> * money_quantum s" by (simp add: abs_mult money_quantum_def)
  then show "\<bar>of_int m * money_quantum s\<bar> < 10 ^ 24" using assms(2,3) by simp
qed (use assms(1) in simp)

text \<open>A successful allocation, as the units it hands out.\<close>

lemma allocate_InrE:
  assumes s: "s \<le> 4" and big: "\<bar>amount\<bar> < 10 ^ 24" and d: "distinct (map fst weights)"
    and r: "allocate key_str amount weights (money_quantum s) = Inr shares"
  obtains n where "0 \<le> n" "\<bar>amount\<bar> = of_int n * money_quantum s" "valid_weights weights"
    "shares = map (\<lambda>(k, m). (k, (if amount < 0 then -1 else 1) * of_int m * money_quantum s)) (allocate_units key_str n weights)"
proof -
  define n where "n = \<lfloor>\<bar>amount\<bar> / money_quantum s\<rfloor>"
  let ?sign = "if amount < 0 then -1 else 1 :: int" and ?q = "money_quantum s"
  have q: "0 < ?q" by (simp add: money_quantum_def)
  from r have w: "valid_weights weights" and u: "of_int n = \<bar>amount\<bar> / ?q"
    and sh: "shares = map (\<lambda>(k, m). (k, ctx_round 28 (of_int (?sign * m) * ?q))) (allocate_units key_str n weights)"
    using d by (auto simp: allocate_def valid_weights_def n_def Let_def not_less split: if_splits)
  have n0: "0 \<le> n" using q by (simp add: n_def)
  have a: "\<bar>amount\<bar> = of_int n * ?q" using u q by (simp add: field_simps)
  have "ctx_round 28 (of_int (?sign * m) * ?q) = (if amount < 0 then -1 else 1) * of_int m * ?q"
    if "(k, m) \<in> set (allocate_units key_str n weights)" for k m
  proof -
    have nn: "\<forall>x \<in> set (map snd (allocate_units key_str n weights)). 0 \<le> x"
      using allocate_units_nonneg [OF _ n0] w by (fastforce simp: valid_weights_def)
    have "m \<in> set (map snd (allocate_units key_str n weights))" using that by force
    then have "0 \<le> m" "m \<le> n"
      using nn member_le_sum_list [OF nn] allocate_units_sum [of weights key_str n] w d by (auto simp: valid_weights_def)
    then have "\<bar>of_int (?sign * m)\<bar> \<le> (of_int n :: rat)" by simp
    then have "\<bar>of_int (?sign * m)\<bar> * ?q \<le> \<bar>amount\<bar>" using q a by (simp add: mult_right_mono)
    from share_exact [OF s big this] show ?thesis by simp
  qed
  then have "shares = map (\<lambda>(k, m). (k, (if amount < 0 then -1 else 1) * of_int m * ?q)) (allocate_units key_str n weights)"
    unfolding sh by (intro map_cong refl) auto
  with n0 a w show thesis by (rule that)
qed

lemma sum_shares:
  "sum_list (map (\<lambda>p. c * of_int (snd p) * q) ps) = c * of_int (sum_list (map snd ps)) * (q :: rat)"
  by (induction ps) (auto simp: algebra_simps)

lemma allocate_sum:
  assumes "s \<le> 4" and "\<bar>amount\<bar> < 10 ^ 24" and "distinct (map fst weights)"
    and "allocate key_str amount weights (money_quantum s) = Inr shares"
  shows "sum_list (map snd shares) = amount" and "map fst shares = map fst weights"
  using assms
proof (atomize (full), cases rule: allocate_InrE)
  case (1 n)
  let ?c = "(if amount < 0 then -1 else 1) :: rat"
  have "map snd shares = map (\<lambda>p. ?c * of_int (snd p) * money_quantum s) (allocate_units key_str n weights)"
    by (simp add: 1(4) case_prod_beta comp_def)
  then have "sum_list (map snd shares) = ?c * of_int (sum_list (map snd (allocate_units key_str n weights))) * money_quantum s"
    by (simp only: sum_shares)
  also have "\<dots> = amount"
    using allocate_units_sum [of weights key_str n] 1(2,3) by (simp add: valid_weights_def abs_if split: if_splits)
  finally show "sum_list (map snd shares) = amount \<and> map fst shares = map fst weights"
    by (simp add: 1(4) case_prod_beta comp_def allocate_units_keys)
qed

lemma allocate_close:
  assumes "s \<le> 4" and "\<bar>amount\<bar> < 10 ^ 24" and d: "distinct (map fst weights)"
    and "allocate key_str amount weights (money_quantum s) = Inr shares"
    and kw: "(k, w) \<in> set weights" and kx: "(k, x) \<in> set shares"
  shows "\<bar>x - amount * w / sum_list (map snd weights)\<bar> < money_quantum s"
    and "w = 0 \<Longrightarrow> x = 0"
  using assms(1-4)
proof (atomize (full), cases rule: allocate_InrE)
  case (1 n)
  let ?W = "sum_list (map snd weights)" and ?q = "money_quantum s"
  let ?c = "(if amount < 0 then -1 else 1) :: rat"
  have q: "0 < ?q" by (simp add: money_quantum_def)
  obtain m where m: "(k, m) \<in> set (allocate_units key_str n weights)" "x = ?c * of_int m * ?q"
    using kx by (auto simp: 1(4))
  have nz: "?W \<noteq> 0" using 1(3) by (simp add: valid_weights_def)
  have a: "amount = ?c * (of_int n * ?q)" using 1(2) by (simp add: abs_if split: if_splits)
  have "x - amount * w / ?W = ?c * ?q * (of_int m - of_int n * w / ?W)"
    by (subst a, subst m(2)) (simp add: algebra_simps)
  then have "\<bar>x - amount * w / ?W\<bar> = ?q * \<bar>of_int m - of_int n * w / ?W\<bar>"
    using q by (simp add: abs_mult)
  also have "\<dots> < ?q * 1"
    using allocate_units_close(1) [OF nz d kw m(1)] q by (intro mult_strict_left_mono) auto
  finally have "\<bar>x - amount * w / ?W\<bar> < ?q" by simp
  moreover have "x = 0" if "w = 0"
    using allocate_units_close(2) [OF nz d kw m(1)] that by (simp add: m(2))
  ultimately show "\<bar>x - amount * w / ?W\<bar> < ?q \<and> (w = 0 \<longrightarrow> x = 0)" by blast
qed

text \<open>The order of the dictionary's items does not matter.\<close>

lemma exact_units_mset: "mset weights' = mset weights \<Longrightarrow> mset (exact_units n weights') = mset (exact_units n weights)"
proof -
  assume m: "mset weights' = mset weights"
  then have "sum_list (map snd weights') = sum_list (map snd weights)" by (metis mset_map sum_mset_sum_list)
  with m show ?thesis by (simp add: exact_units_def Let_def)
qed

lemma by_remainder_perm:
  assumes "mset rows' = mset rows" and "inj_on (key_str \<circ> fst) (set rows)"
  shows "by_remainder key_str rows' = by_remainder key_str rows"
proof -
  let ?f = "\<lambda>(k, v, f). (- (v - of_int f), key_str k)"
  have "inj_on ?f (set rows')"
    using assms mset_eq_setD [OF assms(1)] by (fastforce simp: inj_on_def)
  then show ?thesis
    unfolding by_remainder_def using assms(1) by (intro sort_key_inj_key_eq) simp_all
qed

lemma allocate_units_perm:
  assumes m: "mset weights' = mset weights" and i: "inj_on key_str (fst ` set weights)" and d: "distinct (map fst weights)"
  shows "mset (allocate_units key_str n weights') = mset (allocate_units key_str n weights)"
proof -
  let ?rows = "exact_units n weights"
  have r: "mset (exact_units n weights') = mset ?rows" using m by (rule exact_units_mset)
  have "fst ` set ?rows = fst ` set weights" by (metis exact_units_keys list.set_map)
  moreover have "inj_on fst (set ?rows)" using d by (metis exact_units_keys distinct_map)
  ultimately have inj: "inj_on (key_str \<circ> fst) (set ?rows)" using i by (simp add: comp_inj_on)
  have "left_over n weights' = left_over n weights"
    unfolding left_over_def using r by (metis mset_map sum_mset_sum_list)
  with by_remainder_perm [OF r inj] have "winners key_str n weights' = winners key_str n weights"
    by (simp add: winners_def)
  with r show ?thesis by (simp add: allocate_units_rows)
qed

lemma allocate_perm:
  assumes m: "mset weights' = mset weights" and i: "inj_on key_str (fst ` set weights)" and d: "distinct (map fst weights)"
  shows "map_sum id mset (allocate key_str amount weights' q) = map_sum id mset (allocate key_str amount weights q)"
proof -
  have "weights' = [] \<longleftrightarrow> weights = []" "set weights' = set weights"
    "sum_list (map snd weights') = sum_list (map snd weights)"
    using m mset_eq_setD [OF m] by (auto simp: mset_eq_length, metis mset_map sum_mset_sum_list)
  with allocate_units_perm [OF assms] show ?thesis
    by (simp add: allocate_def Let_def)
qed

text \<open>It succeeds exactly on weights that can be used and whole multiples of the quantum.\<close>

lemma allocate_defined:
  assumes "distinct (map fst weights)"
  shows "(\<exists>shares. allocate key_str amount weights (money_quantum s) = Inr shares) \<longleftrightarrow> valid_weights weights \<and> dp s amount"
proof -
  have "dp s \<bar>amount\<bar> \<longleftrightarrow> dp s amount"
    using dp_minus [of s amount] dp_minus [of s "- amount"] by (cases "0 \<le> amount") auto
  moreover have "\<bar>amount\<bar> / money_quantum s = \<bar>amount\<bar> * 10 ^ s" by (simp add: money_quantum_def)
  moreover have "(\<exists>(k, w) \<in> set weights. w < 0) \<longleftrightarrow> \<not> (\<forall>(k, w) \<in> set weights. 0 \<le> w)"
    by (force simp: not_less)
  ultimately show ?thesis
    using assms by (auto simp: allocate_def valid_weights_def Let_def dp_def)
qed

end
