(* ===== verification/Chart.thy ===== *)
theory Chart
  imports Transfer_Service
begin

text \<open>
  \<^verbatim>\<open>operations/chart.py\<close>: the codes of a fund's standard accounts, their creation and
  the lookups into them.
\<close>

section \<open>Codes\<close>

fun account_type_str :: "account_type \<Rightarrow> string" where
  "account_type_str AT_CASH = ''CASH''"
| "account_type_str AT_INVESTMENT = ''INVESTMENT''"
| "account_type_str AT_FEE_EXPENSE = ''FEE_EXPENSE''"
| "account_type_str AT_GAIN_LOSS = ''GAIN_LOSS''"
| "account_type_str AT_LP_CAPITAL = ''LP_CAPITAL''"
| "account_type_str AT_GP_CAPITAL = ''GP_CAPITAL''"

definition account_code :: "account_type \<Rightarrow> string \<Rightarrow> uuid option \<Rightarrow> exn + string" where
  "account_code ty currency lp =
     (if ty = AT_LP_CAPITAL then
        (case lp of None \<Rightarrow> Inl AssertionErr | Some i \<Rightarrow> Inr (''LP-'' @ uuid_hex i))
      else if ty \<in> {AT_CASH, AT_INVESTMENT} then Inr (account_type_str ty @ ''-'' @ currency)
      else Inr (account_type_str ty))"

section \<open>get\_or\_create\<close>

text \<open>
  Django's \<^verbatim>\<open>get_or_create\<close>: look, else create in a savepoint, and look again when a
  constraint refused the row.
\<close>

definition second_look :: "(db \<Rightarrow> exn + 'a) \<Rightarrow> exn \<Rightarrow> ('a \<times> bool) op" where
  "second_look get e =
     (case e of
        IntegrityErr _ \<Rightarrow>
          bind_act (query (\<lambda>s. Inr (get s))) (\<lambda>r.
            case r of Inr x \<Rightarrow> ret (x, False) | Inl _ \<Rightarrow> raise e)
      | _ \<Rightarrow> raise e)"

definition get_or_create :: "(db \<Rightarrow> exn + 'a) \<Rightarrow> 'a op \<Rightarrow> ('a \<times> bool) op" where
  "get_or_create get create =
     bind_act (query (\<lambda>s. Inr (get s))) (\<lambda>r.
       case r of
         Inr x \<Rightarrow> ret (x, False)
       | Inl e \<Rightarrow>
           if e \<noteq> DoesNotExist then raise e
           else handle (bind_act (atomic create) (\<lambda>x. ret (x, True))) (second_look get))"

definition account_by_code :: "fund \<Rightarrow> string \<Rightarrow> db \<Rightarrow> exn + account" where
  "account_by_code fund code s = get_row (\<lambda>a. a_fund a = f_id fund \<and> a_code a = code) (db_accounts s)"

definition create_account :: "account \<Rightarrow> account op" where
  "create_account a = bind_act (insert_account a) (\<lambda>_. ret a)"

text \<open>\<^verbatim>\<open>currency or fund.base_currency\<close>.\<close>

definition or_base :: "fund \<Rightarrow> string option \<Rightarrow> string" where
  "or_base fund currency =
     (case currency of None \<Rightarrow> f_base_currency fund | Some c \<Rightarrow> if c = [] then f_base_currency fund else c)"

text \<open>\<open>aid\<close> is the id that \<^verbatim>\<open>uuid4\<close> draws if the account is created.\<close>

definition ensure_account :: "env \<Rightarrow> uuid \<Rightarrow> fund \<Rightarrow> account_type \<Rightarrow> string option \<Rightarrow> account op" where
  "ensure_account env aid fund ty currency =
     (let ccy = or_base fund currency in
      bind_act (query (\<lambda>_. account_code ty ccy None)) (\<lambda>code.
      bind_act (get_or_create (account_by_code fund code)
        (create_account \<lparr>a_id = aid, a_fund = f_id fund, a_code = code, a_account_type = ty,
           a_owner_lp = None, a_currency = ccy, a_created_at = now env\<rparr>)) (\<lambda>(account, _).
      ret account)))"

definition STANDARD_TYPES :: "account_type list" where
  "STANDARD_TYPES = [AT_CASH, AT_INVESTMENT, AT_FEE_EXPENSE, AT_GAIN_LOSS, AT_GP_CAPITAL]"

definition ensure_lp_account :: "env \<Rightarrow> uuid \<Rightarrow> fund \<Rightarrow> uuid \<Rightarrow> unit op" where
  "ensure_lp_account env aid fund lp =
     bind_act (query (\<lambda>_. account_code AT_LP_CAPITAL (f_base_currency fund) (Some lp))) (\<lambda>code.
     bind_act (get_or_create (account_by_code fund code)
       (create_account \<lparr>a_id = aid, a_fund = f_id fund, a_code = code, a_account_type = AT_LP_CAPITAL,
          a_owner_lp = Some lp, a_currency = f_base_currency fund, a_created_at = now env\<rparr>)) (\<lambda>_.
     ret ()))"

definition open_fund_accounts :: "env \<Rightarrow> fund \<Rightarrow> unit op" where
  "open_fund_accounts env fund =
     bind_act (each_act (\<lambda>(i, ty). bind_act (ensure_account env (new_account_id env i) fund ty None) (\<lambda>_. ret ()))
       (enumerate 0 STANDARD_TYPES)) (\<lambda>_.
     bind_act (query (\<lambda>s. Inr (filter (\<lambda>c. c_fund c = f_id fund) (db_commitments s)))) (\<lambda>commitments.
     each_act (\<lambda>(i, c). ensure_lp_account env (new_account_id env i) fund (c_lp c))
       (enumerate (length STANDARD_TYPES) commitments)))"

section \<open>Lookups\<close>

definition get_account :: "fund \<Rightarrow> account_type \<Rightarrow> string option \<Rightarrow> db \<Rightarrow> exn + account" where
  "get_account fund ty currency s =
     rbind (account_code ty (or_base fund currency) None) (\<lambda>code. account_by_code fund code s)"

text \<open>
  The dictionary from LP to account: by
  \<^verbatim>\<open>account_one_lp_capital_per_lp_currency\<close> no LP has two.
\<close>

definition lp_capital_accounts :: "fund \<Rightarrow> db \<Rightarrow> (uuid \<times> account) list" where
  "lp_capital_accounts fund s =
     concat (map (\<lambda>a. case a_owner_lp a of None \<Rightarrow> [] | Some lp \<Rightarrow> [(lp, a)])
       (filter (\<lambda>a. a_fund a = f_id fund \<and> a_account_type a = AT_LP_CAPITAL \<and>
                    a_currency a = f_base_currency fund) (db_accounts s)))"

section \<open>Lemmas\<close>

lemma keeps_second_look [keeps_intros]: "keeps P (second_look get e)"
  unfolding second_look_def
  by (cases e) (auto intro!: keeps_intros split: sum.splits)

lemma second_look_Inr: "second_look get e s = (Inr (x, c), s') \<Longrightarrow> s' = s \<and> \<not> c \<and> get s = Inr x"
  by (cases e; cases "get s") (auto simp: second_look_def act)

lemma second_look_state: "second_look get e s = (r, s') \<Longrightarrow> s' = s"
  by (cases e; cases "get s"; cases r) (auto simp: second_look_def act)

lemma keeps_get_or_create [keeps_intros]: "keeps P create \<Longrightarrow> keeps P (get_or_create get create)"
  unfolding get_or_create_def
  by (intro keeps_intros) (auto intro!: keeps_intros split: sum.splits)

lemma keeps_create_account [keeps_intros]: "keeps (step_ok s0) (create_account a)"
  unfolding create_account_def by (intro keeps_intros)

lemma keeps_ensure_account [keeps_intros]: "keeps (step_ok s0) (ensure_account env aid fund ty currency)"
  unfolding ensure_account_def Let_def by (intro keeps_intros) (auto intro: keeps_intros)

lemma keeps_ensure_lp_account [keeps_intros]: "keeps (step_ok s0) (ensure_lp_account env aid fund lp)"
  unfolding ensure_lp_account_def by (intro keeps_intros)

lemma keeps_open_fund_accounts [keeps_intros]: "keeps (step_ok s0) (open_fund_accounts env fund)"
  unfolding open_fund_accounts_def by (intro keeps_intros) (auto intro!: keeps_intros)

lemma account_by_code_Inr: "account_by_code fund code s = Inr a \<Longrightarrow>
    a \<in> set (db_accounts s) \<and> a_fund a = f_id fund \<and> a_code a = code"
  unfolding account_by_code_def by (rule get_row_Inr)

lemma get_account_Inr:
  "get_account fund ty currency s = Inr a \<Longrightarrow>
   a \<in> set (db_accounts s) \<and> a_fund a = f_id fund \<and> account_code ty (or_base fund currency) None = Inr (a_code a)"
  by (auto simp: get_account_def dest: account_by_code_Inr)

lemma lp_capital_accounts_mem:
  "(lp, a) \<in> set (lp_capital_accounts fund s) \<longleftrightarrow>
     a \<in> set (db_accounts s) \<and> a_fund a = f_id fund \<and> a_account_type a = AT_LP_CAPITAL \<and>
     a_currency a = f_base_currency fund \<and> a_owner_lp a = Some lp"
  by (auto simp: lp_capital_accounts_def split: option.splits)

section \<open>Creating an account twice\<close>

lemma get_row_DoesNotExist: "get_row P rows = Inl DoesNotExist \<longleftrightarrow> filter P rows = []"
  by (auto simp: get_row_def split: list.splits)

text \<open>When it returns, the row can be got.\<close>

lemma get_or_create_Inr:
  assumes "get_or_create get create s = (Inr (x, created), s')"
    and "\<And>y s1. get s = Inl DoesNotExist \<Longrightarrow> create s = (Inr y, s1) \<Longrightarrow> get s1 = Inr y"
  shows "get s' = Inr x \<and> (\<not> created \<longrightarrow> s' = s)"
proof (cases "get s")
  case (Inr y)
  with assms(1) show ?thesis by (auto simp: get_or_create_def act)
next
  case (Inl e)
  with assms show ?thesis
    by (auto simp: get_or_create_def act split: if_splits dest!: second_look_Inr)
qed

lemma account_created:
  assumes "account_by_code fund code s = Inl DoesNotExist" and "a_fund a = f_id fund" and "a_code a = code"
    and "create_account a s = (Inr y, s1)"
  shows "account_by_code fund code s1 = Inr y"
proof -
  have "filter (\<lambda>a. a_fund a = f_id fund \<and> a_code a = code) (db_accounts s) = []"
    using assms(1) by (simp only: account_by_code_def get_row_DoesNotExist)
  moreover have "y = a" "db_accounts s1 = db_accounts s @ [a]"
    using assms(4) by (auto simp: create_account_def act insert_account_Inr)
  ultimately show ?thesis using assms(2,3) by (simp add: account_by_code_def get_row_def)
qed

lemma ensure_account_Inr:
  assumes "ensure_account env aid fund ty currency s = (Inr a, s')"
  obtains code where "account_code ty (or_base fund currency) None = Inr code" "account_by_code fund code s' = Inr a"
proof -
  from assms obtain code created where c: "account_code ty (or_base fund currency) None = Inr code"
    and g: "get_or_create (account_by_code fund code)
        (create_account \<lparr>a_id = aid, a_fund = f_id fund, a_code = code, a_account_type = ty,
           a_owner_lp = None, a_currency = or_base fund currency, a_created_at = now env\<rparr>) s = (Inr (a, created), s')"
    by (auto simp: ensure_account_def Let_def act)
  have "account_by_code fund code s' = Inr a \<and> (\<not> created \<longrightarrow> s' = s)"
    by (rule get_or_create_Inr [OF g]) (rule account_created, simp_all)
  with c that show thesis by blast
qed

lemma ensure_account_again:
  assumes "ensure_account env aid fund ty currency s = (Inr a, s')"
  shows "ensure_account env' aid' fund ty currency s' = (Inr a, s')"
  using assms
proof (cases rule: ensure_account_Inr)
  case (1 code)
  then show ?thesis
    by (auto simp: ensure_account_def get_or_create_def Let_def bind_act_def query_def ret_def)
qed

section \<open>Codes determine the accounts\<close>

text \<open>Every account has the code of its type, its currency and its owner.\<close>

definition chart_ok :: "db \<Rightarrow> bool" where
  "chart_ok s \<longleftrightarrow>
     list_all (\<lambda>a. account_code (a_account_type a) (a_currency a) (a_owner_lp a) = Inr (a_code a)) (db_accounts s)"

lemma get_or_create_keeps:
  assumes "P s" and "\<And>x s'. create s = (Inr x, s') \<Longrightarrow> P s'" and "get_or_create get create s = (r, s')"
  shows "P s'"
  using assms
  by (cases r; cases "get s")
    (auto simp: get_or_create_def act split: if_splits dest!: second_look_state)

lemma ensure_account_chart:
  assumes ok: "chart_ok s" and r: "ensure_account env aid fund ty currency s = (r, s')"
  shows "chart_ok s'"
proof (cases "account_code ty (or_base fund currency) None")
  case (Inl e)
  with r have "s' = s" by (cases r) (auto simp: ensure_account_def Let_def act)
  with ok show ?thesis by simp
next
  case (Inr code)
  let ?a = "\<lparr>a_id = aid, a_fund = f_id fund, a_code = code, a_account_type = ty,
           a_owner_lp = None, a_currency = or_base fund currency, a_created_at = now env\<rparr>"
  obtain r1 where g: "get_or_create (account_by_code fund code) (create_account ?a) s = (r1, s')"
    using r Inr by (cases r) (auto simp: ensure_account_def Let_def act)
  have "chart_ok s1" if "create_account ?a s = (Inr x, s1)" for x s1
    using that ok Inr by (auto simp: create_account_def act insert_account_Inr chart_ok_def)
  from get_or_create_keeps [of chart_ok, OF ok this g] show ?thesis .
qed

text \<open>Under it, a lookup by type finds an account of that type.\<close>

lemma get_account_type:
  assumes "chart_ok s" and "get_account fund ty currency s = Inr a"
  shows "a_account_type a = ty"
proof -
  note g = get_account_Inr [OF assms(2)]
  then have "account_code (a_account_type a) (a_currency a) (a_owner_lp a) = account_code ty (or_base fund currency) None"
    using assms(1) by (simp add: chart_ok_def list_all_iff)
  then show ?thesis
    using g by (cases "a_account_type a"; cases ty; cases "a_owner_lp a") (auto simp: account_code_def)
qed

end
