(* ===== verification/Periods.thy ===== *)
theory Periods
  imports Chart
begin

text \<open>
  \<^verbatim>\<open>operations/periods.py\<close>: the period of a date, and closing a period.
\<close>

section \<open>Operations\<close>

text \<open>The model's ordering is by fund, then by start date.\<close>

definition period_for :: "fund \<Rightarrow> date \<Rightarrow> db \<Rightarrow> exn + period" where
  "period_for fund on_date s =
     (case first_row (sort_key p_start_date
             (filter (\<lambda>p. p_fund p = f_id fund \<and> p_start_date p \<le> on_date \<and> on_date \<le> p_end_date p)
               (db_periods s))) of
        None \<Rightarrow> Inl (LedgerErr NoPeriod)
      | Some p \<Rightarrow> Inr p)"

definition earlier_open :: "db \<Rightarrow> uuid \<Rightarrow> period \<Rightarrow> period list" where
  "earlier_open s fund_id p =
     filter (\<lambda>q. p_fund q = fund_id \<and> p_start_date q < p_start_date p \<and> p_status q = OPEN) (db_periods s)"

definition close_period :: "env \<Rightarrow> uuid \<Rightarrow> uuid \<Rightarrow> string \<Rightarrow> (period \<times> bool) op" where
  "close_period env fund_id period_id closed_by =
     atomic (
       bind_act (query (\<lambda>s. get_row (\<lambda>p. p_id p = period_id \<and> p_fund p = fund_id) (db_periods s))) (\<lambda>p.
       if p_status p = CLOSED then ret (p, False)
       else
         bind_act (query (\<lambda>s. ensure (earlier_open s fund_id p = []) (LedgerErr PeriodNotClosable))) (\<lambda>_.
         bind_act (query (\<lambda>s. ensure (period_imbalance s (p_id p) = 0) (LedgerErr PeriodNotClosable))) (\<lambda>_.
         let p' = p\<lparr>p_status := CLOSED, p_closed_at := Some (now env), p_closed_by := closed_by\<rparr>
         in bind_act (update_period p') (\<lambda>_. ret (p', True))))))"

section \<open>Lemmas\<close>

lemma period_for_Inr:
  assumes "period_for fund d s = Inr p"
  shows "p \<in> set (db_periods s) \<and> p_fund p = f_id fund \<and> p_start_date p \<le> d \<and> d \<le> p_end_date p"
  using assms by (auto simp: period_for_def dest!: first_row_Some split: option.splits)

lemma keeps_close_period [keeps_intros]: "keeps (step_ok s0) (close_period env fid pid by)"
  unfolding close_period_def Let_def by (intro keeps_intros)

lemma close_period_cases:
  assumes "close_period env fid pid by s = (r, s')"
  obtains (rejected) e where "r = Inl e" "s' = s"
  | (already) p where "r = Inr (p, False)" "s' = s" "p \<in> set (db_periods s)" "p_id p = pid" "p_fund p = fid"
      "p_status p = CLOSED"
  | (closed) p p' where "r = Inr (p', True)" "p \<in> set (db_periods s)" "p_id p = pid" "p_fund p = fid"
      "p_status p = OPEN" "earlier_open s fid p = []" "period_imbalance s pid = 0"
      "p' = p\<lparr>p_status := CLOSED, p_closed_at := Some (now env), p_closed_by := by\<rparr>"
      "s' = s\<lparr>db_periods := map (\<lambda>q. if p_id q = pid then p' else q) (db_periods s)\<rparr>"
proof (cases r)
  case (Inl e)
  with assms show thesis by (intro rejected) (auto simp: close_period_def act)
next
  case (Inr y)
  from assms [unfolded Inr close_period_def atomic_Inr bind_act_Inr query_iff]
  obtain p where p: "p \<in> set (db_periods s)" "p_id p = pid" "p_fund p = fid"
    and run: "(if p_status p = CLOSED then ret (p, False)
       else
         bind_act (query (\<lambda>s. ensure (earlier_open s fid p = []) (LedgerErr PeriodNotClosable))) (\<lambda>_.
         bind_act (query (\<lambda>s. ensure (period_imbalance s (p_id p) = 0) (LedgerErr PeriodNotClosable))) (\<lambda>_.
         let p' = p\<lparr>p_status := CLOSED, p_closed_at := Some (now env), p_closed_by := by\<rparr>
         in bind_act (update_period p') (\<lambda>_. ret (p', True))))) s = (Inr y, s')"
    by (blast dest: get_row_Inr)
  show thesis
  proof (cases "p_status p")
    case CLOSED
    with run have "y = (p, False)" "s' = s" by (simp_all add: ret_def)
    then show thesis using already [of p] p Inr CLOSED by simp
  next
    case OPEN
    define p' where "p' = p\<lparr>p_status := CLOSED, p_closed_at := Some (now env), p_closed_by := by\<rparr>"
    have "p_id p' = pid" by (simp add: p'_def p)
    with run OPEN have "earlier_open s fid p = []" "period_imbalance s pid = 0" "y = (p', True)"
      "s' = s\<lparr>db_periods := map (\<lambda>q. if p_id q = pid then p' else q) (db_periods s)\<rparr>"
      by (simp_all add: act Let_def p'_def [symmetric] update_period_Inr p)
    then show thesis using closed [of p' p] p Inr OPEN by (simp add: p'_def)
  qed
qed

lemma close_period_committed:
  assumes "committed s" and "close_period env fid pid by s = (r, s')"
  shows "committed s' \<and> step_ok s s'"
proof -
  have "db_ok s" using assms(1) by (simp add: committed_def)
  then have "step_ok s s'" using keepsD [OF keeps_close_period step_ok_refl assms(2)] by blast
  moreover have "db_pending s' = []"
    using assms(2) by (cases rule: close_period_cases) (use assms(1) in \<open>simp_all add: committed_def\<close>)
  ultimately show ?thesis by (simp add: committed_def step_ok_def)
qed

text \<open>Periods of a fund are closed from the earliest on.\<close>

definition closed_in_order :: "db \<Rightarrow> bool" where
  "closed_in_order s \<longleftrightarrow>
     (\<forall>p \<in> set (db_periods s). \<forall>q \<in> set (db_periods s).
        p_status p = CLOSED \<and> p_fund q = p_fund p \<and> p_start_date q < p_start_date p \<longrightarrow> p_status q = CLOSED)"

lemma closed_in_order_close:
  assumes wf: "periods_wf s" and ord: "closed_in_order s" and r: "close_period env fid pid by s = (r, s')"
  shows "closed_in_order s'"
  using r
proof (cases rule: close_period_cases)
  case (closed p p')
  have earlier: "p_status q = CLOSED" if "q \<in> set (db_periods s)" "p_fund q = fid" "p_start_date q < p_start_date p" for q
    using closed(6) that by (cases "p_status q") (auto simp: earlier_open_def filter_empty_conv)
  have st: "p_status p' = CLOSED" "p_fund p' = fid" "p_start_date p' = p_start_date p"
    by (simp_all add: closed)
  have "p_status b = CLOSED"
    if "a \<in> set (db_periods s')" "b \<in> set (db_periods s')" "p_status a = CLOSED" "p_fund b = p_fund a"
      "p_start_date b < p_start_date a" for a b
  proof (cases "b = p'")
    case False
    then have b: "b \<in> set (db_periods s)" using that(2) by (auto simp: closed(9) split: if_splits)
    show ?thesis
    proof (cases "a = p'")
      case True
      then show ?thesis using earlier [OF b] that st by simp
    next
      case False
      then have "a \<in> set (db_periods s)" using that(1) by (auto simp: closed(9) split: if_splits)
      then show ?thesis using ord b that unfolding closed_in_order_def by blast
    qed
  qed (simp add: st)
  then show ?thesis unfolding closed_in_order_def by blast
qed (use ord in simp_all)

end
