(* ===== verification/Operations.thy ===== *)
theory Operations
  imports Allocation Periods
begin

text \<open>
  \<^verbatim>\<open>operations/services.py\<close> and \<^verbatim>\<open>operations/queries.py\<close>: the
  business operations. Each works out amounts and legs, then calls the ledger engine. Amounts
  are finite decimals; texts that the code formats from them into descriptions are arguments.
\<close>

section \<open>operations/queries.py\<close>

definition contributed_by_account :: "account list \<Rightarrow> db \<Rightarrow> (uuid \<times> rat) list" where
  "contributed_by_account lp_accounts s =
     map (\<lambda>a. (a_id a, - sum_list (map signed_base_amount
            (filter (\<lambda>e. e_account e = a_id a \<and> effective_type s e = Some TT_CAPITAL_CALL) (db_entries s)))))
       lp_accounts"

definition contributed :: "account \<Rightarrow> db \<Rightarrow> rat" where
  "contributed a s = the (map_of (contributed_by_account [a] s) (a_id a))"

text \<open>\<^verbatim>\<open>d[k]\<close> on a dictionary.\<close>

definition lookup :: "('k \<times> 'v) list \<Rightarrow> 'k \<Rightarrow> exn + 'v" where
  "lookup d k = (case map_of d k of None \<Rightarrow> Inl KeyErr | Some v \<Rightarrow> Inr v)"

section \<open>Shares\<close>

definition pro_rata :: "fund \<Rightarrow> rat \<Rightarrow> db \<Rightarrow> exn + commitment list \<times> (uuid \<times> rat) list" where
  "pro_rata fund amount s =
     (let commitments = filter (\<lambda>c. c_fund c = f_id fund) (db_commitments s)
      in if commitments = [] then Inl (LedgerErr (InvalidTransfer NoCommitments))
         else case allocate uuid_str amount (map (\<lambda>c. (c_lp c, c_committed_amount c)) commitments) PENNY of
                Inl e \<Rightarrow> Inl (if e = ValueErr then LedgerErr (InvalidTransfer NotAllocatable) else e)
              | Inr shares \<Rightarrow> Inr (commitments, shares))"

definition by_lp :: "(uuid \<times> rat) list \<Rightarrow> (uuid \<times> rat) list" where
  "by_lp shares = sort_key (\<lambda>item. uuid_str (fst item)) shares"

definition plain_leg :: "uuid \<Rightarrow> direction \<Rightarrow> rat \<Rightarrow> leg" where
  "plain_leg aid d x = \<lparr>l_account_id = aid, l_direction = d, l_amount = Decimal x, l_fx_rate = None, l_base_amount = None\<rparr>"

text \<open>Two legs per share that is not zero: cash, and the LP's capital account.\<close>

fun share_legs :: "(uuid \<Rightarrow> uuid \<Rightarrow> rat \<Rightarrow> leg list) \<Rightarrow> uuid \<Rightarrow> (uuid \<times> account) list \<Rightarrow> (uuid \<times> rat) list \<Rightarrow> exn + leg list" where
  "share_legs mk cash lp_accounts [] = Inr []"
| "share_legs mk cash lp_accounts ((lp, share) # rest) =
     (if share = 0 then share_legs mk cash lp_accounts rest
      else rbind (lookup lp_accounts lp) (\<lambda>a.
           rbind (share_legs mk cash lp_accounts rest) (\<lambda>legs. Inr (mk cash (a_id a) share @ legs))))"

definition call_pair :: "uuid \<Rightarrow> uuid \<Rightarrow> rat \<Rightarrow> leg list" where
  "call_pair cash lp_account share = [plain_leg cash DEBIT share, plain_leg lp_account CREDIT share]"

definition distribution_pair :: "uuid \<Rightarrow> uuid \<Rightarrow> rat \<Rightarrow> leg list" where
  "distribution_pair cash lp_account share = [plain_leg lp_account DEBIT share, plain_leg cash CREDIT share]"

definition next_number :: "nat list \<Rightarrow> nat" where
  "next_number numbers = foldr max numbers 0 + 1"

section \<open>create\_capital\_call\<close>

text \<open>The keyword arguments of \<^verbatim>\<open>create_capital_call\<close> but the key.\<close>

record call_request =
  cr_fund :: uuid
  cr_total :: rat
  cr_notice_date :: date
  cr_due_date :: date
  cr_created_by :: string

definition call_fingerprint :: "env \<Rightarrow> call_request \<Rightarrow> exn + string" where
  "call_fingerprint env r =
     rbind (money_str (cr_total r)) (\<lambda>m.
       Inr (request_fingerprint env
         [(''kind'', JStr ''capital_call''), (''fund'', JStr (uuid_str (cr_fund r))), (''total'', JStr m),
          (''notice_date'', JStr (date_str (cr_notice_date r))), (''due_date'', JStr (date_str (cr_due_date r)))]))"

text \<open>The loop over the commitments that raises \<^verbatim>\<open>CommitmentExceeded\<close>.\<close>

definition check_commitment ::
    "(uuid \<times> rat) list \<Rightarrow> (uuid \<times> account) list \<Rightarrow> (uuid \<times> rat) list \<Rightarrow> commitment \<Rightarrow> exn + unit" where
  "check_commitment shares lp_accounts paid_in c =
     rbind (lookup lp_accounts (c_lp c)) (\<lambda>a.
     rbind (lookup paid_in (a_id a)) (\<lambda>paid.
     rbind (lookup shares (c_lp c)) (\<lambda>share.
       let unfunded = c_committed_amount c - paid
       in ensure (\<not> unfunded < share) (LedgerErr CommitmentExceeded))))"

definition capital_call_posting :: "call_request \<Rightarrow> string \<Rightarrow> string \<Rightarrow> nat \<Rightarrow> leg list \<Rightarrow> period \<Rightarrow> posting" where
  "capital_call_posting r key h number legs p =
     \<lparr>po_idempotency_key = key, po_legs = legs, po_period = p, po_transfer_type = TT_CAPITAL_CALL,
      po_description = ''Capital call #'' @ nat_str (int number), po_reverses = None, po_request_hash = h,
      po_created_by = cr_created_by r, po_fx_date = None\<rparr>"

definition call_document :: "env \<Rightarrow> call_request \<Rightarrow> nat \<Rightarrow> transfer \<Rightarrow> capital_call" where
  "call_document env r number t =
     \<lparr>cc_id = new_document_id env, cc_fund = cr_fund r, cc_call_number = number,
      cc_notice_date = cr_notice_date r, cc_due_date = cr_due_date r, cc_total_amount = cr_total r,
      cc_transfer = t_id t, cc_created_at = now env\<rparr>"

text \<open>The closure \<^verbatim>\<open>create\<close> and the lambda \<^verbatim>\<open>replay\<close>.\<close>

definition create_call :: "env \<times> call_request \<Rightarrow> string \<Rightarrow> string \<Rightarrow> capital_call op" where
  "create_call req key h =
     (let env = fst req; r = snd req in
      bind_act (query (\<lambda>s. get_row (\<lambda>f. f_id f = cr_fund r) (db_funds s))) (\<lambda>fund.
      bind_act (query (period_for fund (cr_notice_date r))) (\<lambda>p.
      bind_act (query (pro_rata fund (cr_total r))) (\<lambda>(commitments, shares).
      bind_act (query (\<lambda>s. Inr (lp_capital_accounts fund s))) (\<lambda>lp_accounts.
      bind_act (query (\<lambda>s. Inr (contributed_by_account (map snd lp_accounts) s))) (\<lambda>paid_in.
      bind_act (query (\<lambda>_. each (check_commitment shares lp_accounts paid_in) commitments)) (\<lambda>_.
      bind_act (query (get_account fund AT_CASH None)) (\<lambda>cash.
      bind_act (query (\<lambda>_. share_legs call_pair (a_id cash) lp_accounts (by_lp shares))) (\<lambda>legs.
      bind_act (query (\<lambda>s. Inr (next_number (map cc_call_number
          (filter (\<lambda>c. cc_fund c = f_id fund) (db_capital_calls s)))))) (\<lambda>number.
      bind_act (post_transfer env (capital_call_posting r key h number legs p)) (\<lambda>t.
      bind_act (insert_capital_call (call_document env r number t)) (\<lambda>_.
      ret (call_document env r number t)))))))))))))"

definition replay_call :: "env \<times> call_request \<Rightarrow> transfer \<Rightarrow> capital_call op" where
  "replay_call req t = query (\<lambda>s. get_row (\<lambda>c. cc_transfer c = t_id t) (db_capital_calls s))"

definition create_capital_call ::
    "(db \<Rightarrow> db) \<Rightarrow> (db \<Rightarrow> db) \<Rightarrow> env \<Rightarrow> string \<Rightarrow> call_request \<Rightarrow> (capital_call \<times> bool) op" where
  "create_capital_call i1 i2 env key r =
     bind_act (query (\<lambda>_. call_fingerprint env r)) (\<lambda>h.
       run_idempotent i1 i2 key h (create_call (env, r) key h) (replay_call (env, r)))"

section \<open>create\_distribution\<close>

record distribution_request =
  dr_fund :: uuid
  dr_total :: rat
  dr_payment_date :: date
  dr_classification :: classification
  dr_created_by :: string

fun classification_str :: "classification \<Rightarrow> string" where
  "classification_str RETURN_OF_CAPITAL = ''RETURN_OF_CAPITAL''"
| "classification_str GAIN = ''GAIN''"
| "classification_str INCOME = ''INCOME''"

definition distribution_fingerprint :: "env \<Rightarrow> distribution_request \<Rightarrow> exn + string" where
  "distribution_fingerprint env r =
     rbind (money_str (dr_total r)) (\<lambda>m.
       Inr (request_fingerprint env
         [(''kind'', JStr ''distribution''), (''fund'', JStr (uuid_str (dr_fund r))), (''total'', JStr m),
          (''payment_date'', JStr (date_str (dr_payment_date r))),
          (''classification'', JStr (classification_str (dr_classification r)))]))"

definition distribution_posting ::
    "distribution_request \<Rightarrow> string \<Rightarrow> string \<Rightarrow> nat \<Rightarrow> leg list \<Rightarrow> period \<Rightarrow> posting" where
  "distribution_posting r key h number legs p =
     \<lparr>po_idempotency_key = key, po_legs = legs, po_period = p, po_transfer_type = TT_DISTRIBUTION,
      po_description = ''Distribution #'' @ nat_str (int number) @ '' ('' @ classification_str (dr_classification r) @ '')'',
      po_reverses = None, po_request_hash = h, po_created_by = dr_created_by r, po_fx_date = None\<rparr>"

definition distribution_document :: "env \<Rightarrow> distribution_request \<Rightarrow> nat \<Rightarrow> transfer \<Rightarrow> distribution" where
  "distribution_document env r number t =
     \<lparr>d_id = new_document_id env, d_fund = dr_fund r, d_distribution_number = number,
      d_payment_date = dr_payment_date r, d_total_amount = dr_total r,
      d_classification = dr_classification r, d_transfer = t_id t, d_created_at = now env\<rparr>"

definition create_payout :: "env \<times> distribution_request \<Rightarrow> string \<Rightarrow> string \<Rightarrow> distribution op" where
  "create_payout req key h =
     (let env = fst req; r = snd req in
      bind_act (query (\<lambda>s. get_row (\<lambda>f. f_id f = dr_fund r) (db_funds s))) (\<lambda>fund.
      bind_act (query (period_for fund (dr_payment_date r))) (\<lambda>p.
      bind_act (query (pro_rata fund (dr_total r))) (\<lambda>(_, shares).
      bind_act (query (\<lambda>s. Inr (lp_capital_accounts fund s))) (\<lambda>lp_accounts.
      bind_act (query (get_account fund AT_CASH None)) (\<lambda>cash.
      bind_act (query (\<lambda>_. share_legs distribution_pair (a_id cash) lp_accounts (by_lp shares))) (\<lambda>legs.
      bind_act (query (\<lambda>s. Inr (next_number (map d_distribution_number
          (filter (\<lambda>d. d_fund d = f_id fund) (db_distributions s)))))) (\<lambda>number.
      bind_act (post_transfer env (distribution_posting r key h number legs p)) (\<lambda>t.
      bind_act (insert_distribution (distribution_document env r number t)) (\<lambda>_.
      ret (distribution_document env r number t)))))))))))"

definition replay_payout :: "env \<times> distribution_request \<Rightarrow> transfer \<Rightarrow> distribution op" where
  "replay_payout req t = query (\<lambda>s. get_row (\<lambda>d. d_transfer d = t_id t) (db_distributions s))"

definition create_distribution ::
    "(db \<Rightarrow> db) \<Rightarrow> (db \<Rightarrow> db) \<Rightarrow> env \<Rightarrow> string \<Rightarrow> distribution_request \<Rightarrow> (distribution \<times> bool) op" where
  "create_distribution i1 i2 env key r =
     bind_act (query (\<lambda>_. distribution_fingerprint env r)) (\<lambda>h.
       run_idempotent i1 i2 key h (create_payout (env, r) key h) (replay_payout (env, r)))"

section \<open>Investments, fees and valuations\<close>

definition service_posting :: "string \<Rightarrow> leg list \<Rightarrow> period \<Rightarrow> transfer_type \<Rightarrow> string \<Rightarrow> date option \<Rightarrow> posting" where
  "service_posting key legs p ty description fx_date =
     \<lparr>po_idempotency_key = key, po_legs = legs, po_period = p, po_transfer_type = ty,
      po_description = description, po_reverses = None, po_request_hash = [], po_created_by = [],
      po_fx_date = fx_date\<rparr>"

text \<open>
  \<^verbatim>\<open>(amount * rate).quantize(PENNY, rounding=ROUND_HALF_EVEN)\<close>, in the default
  context: the product is rounded to 28 digits first.
\<close>

definition investment_cost :: "rat \<Rightarrow> rat \<Rightarrow> exn + rat" where
  "investment_cost amount rate =
     (case quantize 28 2 (ctx_round 28 (amount * rate)) of None \<Rightarrow> Inl DecimalInvalid | Some c \<Rightarrow> Inr c)"

text \<open>\<open>amount_text\<close> is \<^verbatim>\<open>str(amount)\<close>, for the description.\<close>

definition investment_legs :: "fund \<Rightarrow> uuid \<Rightarrow> uuid \<Rightarrow> rat \<Rightarrow> string \<Rightarrow> date \<Rightarrow> db \<Rightarrow> exn + leg list" where
  "investment_legs fund investment cash amount currency on_date s =
     (if currency = f_base_currency fund then
        Inr [plain_leg investment DEBIT amount, plain_leg cash CREDIT amount]
      else
        rbind (fx_rate_for s currency (f_base_currency fund) on_date) (\<lambda>rate.
        rbind (investment_cost amount rate) (\<lambda>cost.
          Inr [(plain_leg investment DEBIT amount)\<lparr>l_fx_rate := Some rate, l_base_amount := Some cost\<rparr>,
               plain_leg cash CREDIT cost])))"

definition record_investment ::
    "(db \<Rightarrow> db) \<Rightarrow> (db \<Rightarrow> db) \<Rightarrow> env \<Rightarrow> string \<Rightarrow> uuid \<Rightarrow> string \<Rightarrow> rat \<Rightarrow> string \<Rightarrow> date \<Rightarrow> (transfer \<times> bool) op" where
  "record_investment i1 i2 env amount_text fund_id key amount currency on_date =
     bind_act (query (\<lambda>s. get_row (\<lambda>f. f_id f = fund_id) (db_funds s))) (\<lambda>fund.
     bind_act (query (period_for fund on_date)) (\<lambda>p.
     bind_act (ensure_account env (new_account_id env 0) fund AT_INVESTMENT (Some currency)) (\<lambda>investment.
     bind_act (query (get_account fund AT_CASH None)) (\<lambda>cash.
     bind_act (query (investment_legs fund (a_id investment) (a_id cash) amount currency on_date)) (\<lambda>legs.
     post_transfer_idempotent i1 i2 env
       (service_posting key legs p TT_INVESTMENT (''Investment '' @ amount_text @ '' '' @ currency) (Some on_date)))))))"

definition charge_fee ::
    "(db \<Rightarrow> db) \<Rightarrow> (db \<Rightarrow> db) \<Rightarrow> env \<Rightarrow> uuid \<Rightarrow> string \<Rightarrow> rat \<Rightarrow> date \<Rightarrow> (transfer \<times> bool) op" where
  "charge_fee i1 i2 env fund_id key amount on_date =
     bind_act (query (\<lambda>s. get_row (\<lambda>f. f_id f = fund_id) (db_funds s))) (\<lambda>fund.
     bind_act (query (get_account fund AT_FEE_EXPENSE None)) (\<lambda>fee.
     bind_act (query (get_account fund AT_CASH None)) (\<lambda>cash.
     bind_act (query (period_for fund on_date)) (\<lambda>p.
     post_transfer_idempotent i1 i2 env
       (service_posting key [plain_leg (a_id fee) DEBIT amount, plain_leg (a_id cash) CREDIT amount] p
          TT_FEE ''Management fee'' None)))))"

text \<open>\<^verbatim>\<open>abs\<close> is an operation of the context, too.\<close>

definition record_valuation ::
    "(db \<Rightarrow> db) \<Rightarrow> (db \<Rightarrow> db) \<Rightarrow> env \<Rightarrow> uuid \<Rightarrow> string \<Rightarrow> rat \<Rightarrow> date \<Rightarrow> (transfer \<times> bool) op" where
  "record_valuation i1 i2 env fund_id key change on_date =
     bind_act (query (\<lambda>_. ensure (change \<noteq> 0) (LedgerErr (InvalidTransfer ZeroValuation)))) (\<lambda>_.
     bind_act (query (\<lambda>s. get_row (\<lambda>f. f_id f = fund_id) (db_funds s))) (\<lambda>fund.
     bind_act (query (get_account fund AT_INVESTMENT None)) (\<lambda>investment.
     bind_act (query (get_account fund AT_GAIN_LOSS None)) (\<lambda>gain_loss.
     let (debit, credit) = (if 0 < change then (a_id investment, a_id gain_loss)
                            else (a_id gain_loss, a_id investment));
         size = ctx_round 28 \<bar>change\<bar>
     in bind_act (query (period_for fund on_date)) (\<lambda>p.
        post_transfer_idempotent i1 i2 env
          (service_posting key [plain_leg debit DEBIT size, plain_leg credit CREDIT size] p
             TT_ADJUSTMENT ''Valuation change'' None))))))"

section \<open>The operations keep the ledger\<close>

lemma split_keeps [keeps_intros]: "(\<And>a b. keeps P (f a b)) \<Longrightarrow> keeps P (case p of (a, b) \<Rightarrow> f a b)"
  by (cases p) simp

lemma create_call_InrE:
  assumes "create_call (env, r) key h s = (Inr doc, s')"
  obtains fund p commitments shares cash legs number t s1 where
    "get_row (\<lambda>f. f_id f = cr_fund r) (db_funds s) = Inr fund"
    "period_for fund (cr_notice_date r) s = Inr p"
    "pro_rata fund (cr_total r) s = Inr (commitments, shares)"
    "\<forall>c \<in> set commitments. check_commitment shares (lp_capital_accounts fund s)
       (contributed_by_account (map snd (lp_capital_accounts fund s)) s) c = Inr ()"
    "get_account fund AT_CASH None s = Inr cash"
    "share_legs call_pair (a_id cash) (lp_capital_accounts fund s) (by_lp shares) = Inr legs"
    "post_transfer env (capital_call_posting r key h number legs p) s = (Inr t, s1)"
    "insert_capital_call (call_document env r number t) s1 = (Inr (), s')"
    "doc = call_document env r number t"
  using assms by (auto simp: create_call_def Let_def act each_Inr)

lemma create_payout_InrE:
  assumes "create_payout (env, r) key h s = (Inr doc, s')"
  obtains fund p commitments shares cash legs number t s1 where
    "get_row (\<lambda>f. f_id f = dr_fund r) (db_funds s) = Inr fund"
    "period_for fund (dr_payment_date r) s = Inr p"
    "pro_rata fund (dr_total r) s = Inr (commitments, shares)"
    "get_account fund AT_CASH None s = Inr cash"
    "share_legs distribution_pair (a_id cash) (lp_capital_accounts fund s) (by_lp shares) = Inr legs"
    "post_transfer env (distribution_posting r key h number legs p) s = (Inr t, s1)"
    "insert_distribution (distribution_document env r number t) s1 = (Inr (), s')"
    "doc = distribution_document env r number t"
  using assms by (auto simp: create_payout_def Let_def act)

text \<open>The document of a new call is that of the new transfer.\<close>

lemma create_call_document:
  assumes "create_call (env, r) key h s = (Inr doc, s')"
  obtains t number where "keyed key s' = keyed key s @ [t]" "doc = call_document env r number t"
  using assms
proof (cases rule: create_call_InrE)
  case (1 fund p commitments shares cash legs number t s1)
  from 1(7) have "keyed key s1 = keyed key s @ [t]"
    by (rule post_transfer_stored) (simp add: keyed_def new_transfer_def capital_call_posting_def)
  moreover have "db_transfers s' = db_transfers s1" using other_tables_same(7) [OF 1(8)] by (simp add: same_ledger_def)
  ultimately show thesis using that 1(9) by (simp add: keyed_def)
qed

text \<open>The runs of the two closures, step by step.\<close>

lemma create_call_fresh:
  assumes "get_row (\<lambda>f. f_id f = cr_fund r) (db_funds s) = Inr fund"
    and "period_for fund (cr_notice_date r) s = Inr p"
    and "pro_rata fund (cr_total r) s = Inr (commitments, shares)"
    and "each (check_commitment shares (lp_capital_accounts fund s)
       (contributed_by_account (map snd (lp_capital_accounts fund s)) s)) commitments = Inr ()"
    and "get_account fund AT_CASH None s = Inr cash"
    and "share_legs call_pair (a_id cash) (lp_capital_accounts fund s) (by_lp shares) = Inr legs"
    and "next_number (map cc_call_number (filter (\<lambda>c. cc_fund c = f_id fund) (db_capital_calls s))) = number"
    and "post_transfer env (capital_call_posting r key h number legs p) s = (Inr t, s1)"
    and "insert_capital_call (call_document env r number t) s1 = (Inr (), s')"
  shows "create_call (env, r) key h s = (Inr (call_document env r number t), s')"
  using assms by (simp add: create_call_def Let_def act)

lemma create_payout_fresh:
  assumes "get_row (\<lambda>f. f_id f = dr_fund r) (db_funds s) = Inr fund"
    and "period_for fund (dr_payment_date r) s = Inr p"
    and "pro_rata fund (dr_total r) s = Inr (commitments, shares)"
    and "get_account fund AT_CASH None s = Inr cash"
    and "share_legs distribution_pair (a_id cash) (lp_capital_accounts fund s) (by_lp shares) = Inr legs"
    and "next_number (map d_distribution_number (filter (\<lambda>d. d_fund d = f_id fund) (db_distributions s))) = number"
    and "post_transfer env (distribution_posting r key h number legs p) s = (Inr t, s1)"
    and "insert_distribution (distribution_document env r number t) s1 = (Inr (), s')"
  shows "create_payout (env, r) key h s = (Inr (distribution_document env r number t), s')"
  using assms by (simp add: create_payout_def Let_def act)

text \<open>A posting followed by a write outside the ledger's tables.\<close>

lemma posting_then_document:
  assumes c: "committed s" and p: "post_transfer env po s = (Inr t, s1)" and d: "same_ledger s1 s'"
  shows "committed s' \<and> step_ok s s'"
    and "\<exists>t. db_transfers s' = db_transfers s @ [t] \<and> t_idempotency_key t = po_idempotency_key po \<and> t_request_hash t = po_request_hash po"
proof -
  have 1: "committed s1 \<and> step_ok s s1" using post_transfer_committed [OF c p] .
  then have "step_ok s1 s'" using d by (auto simp: committed_def intro: same_ledger_step)
  with 1 d show "committed s' \<and> step_ok s s'"
    by (auto simp: committed_def same_ledger_def step_ok_def dest: extends_trans closed_frozen_trans)
  show "\<exists>t. db_transfers s' = db_transfers s @ [t] \<and> t_idempotency_key t = po_idempotency_key po \<and> t_request_hash t = po_request_hash po"
    using p d by (auto elim!: post_transfer_stored simp: same_ledger_def new_transfer_def)
qed

interpretation call_once: exactly_once create_call replay_call
proof unfold_locales
  fix s s' :: db and req :: "env \<times> call_request" and key h x
  assume c: "committed s" and r: "create_call req key h s = (Inr x, s')"
  obtain env cr where req: "req = (env, cr)" by (cases req)
  from r [unfolded req] obtain p legs number t s1 where
    p: "post_transfer env (capital_call_posting cr key h number legs p) s = (Inr t, s1)"
    and d: "insert_capital_call (call_document env cr number t) s1 = (Inr (), s')"
    by (rule create_call_InrE)
  note k = posting_then_document [OF c p other_tables_same(7) [OF d]]
  show "committed s' \<and> step_ok s s'" using k(1) .
  show "\<exists>t. db_transfers s' = db_transfers s @ [t] \<and> t_idempotency_key t = key \<and> t_request_hash t = h"
    using k(2) by (simp add: capital_call_posting_def)
next
  show "replay_call req t s = (r, s') \<Longrightarrow> s' = s" for req t s r s'
    by (simp add: replay_call_def query_def)
qed

interpretation payout_once: exactly_once create_payout replay_payout
proof unfold_locales
  fix s s' :: db and req :: "env \<times> distribution_request" and key h x
  assume c: "committed s" and r: "create_payout req key h s = (Inr x, s')"
  obtain env dr where req: "req = (env, dr)" by (cases req)
  from r [unfolded req] obtain p legs number t s1 where
    p: "post_transfer env (distribution_posting dr key h number legs p) s = (Inr t, s1)"
    and d: "insert_distribution (distribution_document env dr number t) s1 = (Inr (), s')"
    by (rule create_payout_InrE)
  note k = posting_then_document [OF c p other_tables_same(8) [OF d]]
  show "committed s' \<and> step_ok s s'" using k(1) .
  show "\<exists>t. db_transfers s' = db_transfers s @ [t] \<and> t_idempotency_key t = key \<and> t_request_hash t = h"
    using k(2) by (simp add: distribution_posting_def)
next
  show "replay_payout req t s = (r, s') \<Longrightarrow> s' = s" for req t s r s'
    by (simp add: replay_payout_def query_def)
qed

end
