(* ===== verification/Operations_Correct.thy ===== *)
theory Operations_Correct
  imports Operations Pricing_Correct
begin

text \<open>
  Correctness of the business operations: a call or a distribution moves exactly its total
  between cash and the LPs' capital accounts, in the shares of the allocation, and no call
  takes an LP beyond its commitment.
\<close>

section \<open>The legs of a share list\<close>

lemma leg_effect_append: "leg_effect (xs @ ys) aid = leg_effect xs aid + leg_effect ys aid"
  by (simp add: leg_effect_def)

lemma pair_effects:
  "leg_effect (call_pair cash a x) aid = (if aid = cash then x else 0) - (if aid = a then x else 0)"
  "leg_effect (distribution_pair cash a x) aid = (if aid = a then x else 0) - (if aid = cash then x else 0)"
  by (simp_all add: leg_effect_def call_pair_def distribution_pair_def plain_leg_def leg_signed_def)

text \<open>What the shares put on one capital account.\<close>

definition share_on :: "(uuid \<times> account) list \<Rightarrow> (uuid \<times> rat) list \<Rightarrow> uuid \<Rightarrow> rat" where
  "share_on lp_accounts shares aid =
     sum_list (map snd (filter (\<lambda>p. map_option a_id (map_of lp_accounts (fst p)) = Some aid) shares))"

lemma lookup_Inr [simp]: "lookup d k = Inr v \<longleftrightarrow> map_of d k = Some v"
  by (auto simp: lookup_def split: option.splits)

lemma share_legs_call:
  "share_legs call_pair cash lp_accounts shares = Inr legs \<Longrightarrow>
   leg_effect legs aid = (if aid = cash then sum_list (map snd shares) else 0) - share_on lp_accounts shares aid"
  by (induction call_pair cash lp_accounts shares arbitrary: legs rule: share_legs.induct)
    (auto simp: leg_effect_append pair_effects share_on_def leg_effect_def [of "[]"] split: if_splits)

lemma share_legs_distribution:
  "share_legs distribution_pair cash lp_accounts shares = Inr legs \<Longrightarrow>
   leg_effect legs aid = share_on lp_accounts shares aid - (if aid = cash then sum_list (map snd shares) else 0)"
  by (induction distribution_pair cash lp_accounts shares arbitrary: legs rule: share_legs.induct)
    (auto simp: leg_effect_append pair_effects share_on_def leg_effect_def [of "[]"] split: if_splits)

lemma share_legs_plain:
  assumes "share_legs mk cash lp_accounts shares = Inr legs" and "mk = call_pair \<or> mk = distribution_pair"
  shows "\<forall>l \<in> set legs. l_base_amount l = None"
  using assms
  by (induction mk cash lp_accounts shares arbitrary: legs rule: share_legs.induct)
    (fastforce simp: call_pair_def distribution_pair_def plain_leg_def split: if_splits)+

lemma by_lp_sums [simp]:
  "sum_list (map snd (by_lp shares)) = sum_list (map snd shares)"
  "share_on lp_accounts (by_lp shares) aid = share_on lp_accounts shares aid"
proof -
  show "share_on lp_accounts (by_lp shares) aid = share_on lp_accounts shares aid"
    unfolding share_on_def by_lp_def by (rule sum_list_sort_key)
  show "sum_list (map snd (by_lp shares)) = sum_list (map snd shares)"
    using sum_list_sort_key [of snd "\<lambda>_. True"] by (simp add: by_lp_def)
qed

section \<open>LP accounts\<close>

lemma lp_account_unique:
  assumes wf: "accounts_wf s" and a: "(lp, a) \<in> set (lp_capital_accounts fund s)" "(lp, b) \<in> set (lp_capital_accounts fund s)"
  shows "a = b"
proof -
  let ?k = "\<lambda>a. (a_fund a, a_owner_lp a, a_currency a)"
  let ?xs = "filter (\<lambda>a. a_account_type a = AT_LP_CAPITAL) (db_accounts s)"
  have inj: "inj_on ?k (set ?xs)" using wf unfolding accounts_wf_def distinct_map by blast
  have "a \<in> set ?xs" "b \<in> set ?xs" "?k a = ?k b" using a by (auto simp: lp_capital_accounts_mem)
  then show ?thesis using inj_onD [OF inj] by blast
qed

lemma lp_account_lookup:
  assumes "accounts_wf s" and "(lp, a) \<in> set (lp_capital_accounts fund s)"
  shows "map_of (lp_capital_accounts fund s) lp = Some a"
proof -
  obtain b where b: "map_of (lp_capital_accounts fund s) lp = Some b"
    using assms(2) by (metis map_of_eq_None_iff option.exhaust image_eqI fst_conv)
  then have "(lp, b) \<in> set (lp_capital_accounts fund s)" by (rule map_of_SomeD)
  with lp_account_unique [OF assms] b show ?thesis by simp
qed

lemma share_on_lp:
  assumes wf: "accounts_wf s" and a: "(lp, a) \<in> set (lp_capital_accounts fund s)" and d: "distinct (map fst shares)"
  shows "share_on (lp_capital_accounts fund s) shares (a_id a) = dict_get shares lp"
proof -
  have "map_option a_id (map_of (lp_capital_accounts fund s) k) = Some (a_id a) \<longleftrightarrow> k = lp" for k
  proof
    assume "map_option a_id (map_of (lp_capital_accounts fund s) k) = Some (a_id a)"
    then obtain b where b: "(k, b) \<in> set (lp_capital_accounts fund s)" "a_id b = a_id a"
      by (auto dest: map_of_SomeD)
    then have "b = a"
      using a find_account_distinct [OF wf] by (metis lp_capital_accounts_mem option.inject)
    with a b show "k = lp" by (simp add: lp_capital_accounts_mem)
  next
    assume "k = lp"
    then show "map_option a_id (map_of (lp_capital_accounts fund s) k) = Some (a_id a)"
      using lp_account_lookup [OF wf a] by simp
  qed
  then have "share_on (lp_capital_accounts fund s) shares (a_id a) = sum_list (map snd (filter (\<lambda>p. fst p = lp) shares))"
    by (simp add: share_on_def)
  also have "\<dots> = dict_get shares lp"
    using d
  proof (induction shares)
    case (Cons p shares)
    have "filter (\<lambda>q. fst q = lp) shares = []" if "fst p = lp"
      using Cons.prems that by (auto simp: filter_empty_conv image_iff)
    with Cons show ?case by (cases p) (auto simp: dict_get_def)
  qed (simp add: dict_get_def)
  finally show ?thesis .
qed

section \<open>Shares\<close>

definition commitments_wf :: "db \<Rightarrow> bool" where
  "commitments_wf s \<longleftrightarrow>
     distinct (map (\<lambda>c. (c_fund c, c_lp c)) (db_commitments s)) \<and> (\<forall>c \<in> set (db_commitments s). 0 < c_committed_amount c)"

lemma insert_commitment_wf: "commitments_wf s \<Longrightarrow> insert_commitment c s = (r, s') \<Longrightarrow> commitments_wf s'"
  by (cases r; auto simp: commitments_wf_def insert_commitment_def act; blast)

lemma fund_commitments_distinct:
  assumes "commitments_wf s"
  shows "distinct (map c_lp (filter (\<lambda>c. c_fund c = fid) (db_commitments s)))"
proof -
  have "inj_on (\<lambda>c. (c_fund c, c_lp c)) (set (db_commitments s))" "distinct (db_commitments s)"
    using assms by (simp_all add: commitments_wf_def distinct_map)
  then have "inj_on c_lp (set (filter (\<lambda>c. c_fund c = fid) (db_commitments s)))"
    by (auto simp: inj_on_def)
  with \<open>distinct (db_commitments s)\<close> show ?thesis by (simp add: distinct_map)
qed

lemma numeric_store_arg: "numeric_store 20 4 x = Some y \<Longrightarrow> \<bar>x\<bar> < 10 ^ 24"
proof -
  assume "numeric_store 20 4 x = Some y"
  then have c: "\<bar>round_half_away (x * 10 ^ 4)\<bar> < 10 ^ 20" by (auto simp: numeric_store_def Let_def split: if_splits)
  have "\<bar>of_int (round_half_away (x * 10 ^ 4)) - x * 10 ^ 4\<bar> \<le> 1"
    unfolding round_half_away_def by (auto simp: abs_le_iff) linarith+
  moreover have "of_int \<bar>round_half_away (x * 10 ^ 4)\<bar> < (of_int (10 ^ 20) :: rat)" using c by (simp only: of_int_less_iff)
  ultimately show ?thesis by (auto simp: abs_less_iff abs_le_iff)
qed

lemma numeric_store_nonneg: "numeric_store 20 4 x = Some y \<Longrightarrow> 0 < y \<Longrightarrow> 0 \<le> x"
proof (rule ccontr)
  assume y: "numeric_store 20 4 x = Some y" "0 < y" and "\<not> 0 \<le> x"
  then have "round_half_away (x * 10 ^ 4) \<le> 0" by (simp add: round_half_away_def mult_le_0_iff)
  with y show False by (auto simp: numeric_store_def Let_def divide_le_0_iff not_less [symmetric] split: if_splits)
qed

lemma pro_rata_Inr:
  assumes wf: "commitments_wf s" and big: "\<bar>amount\<bar> < 10 ^ 24"
    and r: "pro_rata fund amount s = Inr (commitments, shares)"
  shows "commitments = filter (\<lambda>c. c_fund c = f_id fund) (db_commitments s)"
    and "sum_list (map snd shares) = amount" and "map fst shares = map c_lp commitments"
    and "distinct (map fst shares)"
proof -
  let ?w = "map (\<lambda>c. (c_lp c, c_committed_amount c)) (filter (\<lambda>c. c_fund c = f_id fund) (db_commitments s))"
  have al: "allocate uuid_str amount ?w (money_quantum 2) = Inr shares"
    and c: "commitments = filter (\<lambda>c. c_fund c = f_id fund) (db_commitments s)"
    using r by (auto simp: pro_rata_def Let_def quantum_values split: if_splits sum.splits)
  have keys: "map fst ?w = map c_lp commitments" by (simp add: c comp_def)
  then have d: "distinct (map fst ?w)" using fund_commitments_distinct [OF wf, of "f_id fund"] by (simp only: c)
  show "commitments = filter (\<lambda>c. c_fund c = f_id fund) (db_commitments s)" by (rule c)
  show "sum_list (map snd shares) = amount" using allocate_sum(1) [OF _ big d al] by simp
  show k: "map fst shares = map c_lp commitments" using allocate_sum(2) [OF _ big d al] keys by simp
  show "distinct (map fst shares)" using d keys k by simp
qed

section \<open>What a call and a distribution do\<close>

lemma insert_document_entries:
  "insert_capital_call c s = (Inr u, s') \<Longrightarrow> db_entries s' = db_entries s"
  "insert_distribution d s = (Inr u, s') \<Longrightarrow> db_entries s' = db_entries s"
  using other_tables_same(7,8) by (auto simp: same_ledger_def)

lemma native_balance_cong: "db_entries s' = db_entries s \<Longrightarrow> native_balance s' aid d = native_balance s aid d"
  by (simp add: native_balance_def account_entries_def)

lemma create_call_effect:
  assumes c: "committed s" and wf: "commitments_wf s" and r: "create_call (env, r) key h s = (Inr doc, s')"
  obtains fund cash commitments shares where
    "get_row (\<lambda>f. f_id f = cr_fund r) (db_funds s) = Inr fund"
    "get_account fund AT_CASH None s = Inr cash" "pro_rata fund (cr_total r) s = Inr (commitments, shares)"
    "sum_list (map snd shares) = cr_total r" "distinct (map fst shares)"
    "\<And>aid. native_balance s' aid None = native_balance s aid None
       + (if aid = a_id cash then cr_total r else 0) - share_on (lp_capital_accounts fund s) shares aid"
  using r
proof (cases rule: create_call_InrE)
  case (1 fund p commitments shares cash legs number t s1)
  have "\<bar>cr_total r\<bar> < 10 ^ 24"
    using 1(8) numeric_store_arg
    by (auto simp: insert_capital_call_def act column_def call_document_def split: option.splits)
  note pr = pro_rata_Inr [OF wf this 1(3)]
  have "native_balance s' aid None = native_balance s aid None
       + (if aid = a_id cash then cr_total r else 0) - share_on (lp_capital_accounts fund s) shares aid" for aid
    using post_transfer_balances [OF 1(7), of aid] share_legs_call [OF 1(6), of aid]
      native_balance_cong [OF insert_document_entries(1) [OF 1(8)]] pr(2)
    by (simp add: capital_call_posting_def)
  with 1(1,3,5) pr(2,4) show thesis by (intro that)
qed

lemma create_payout_effect:
  assumes c: "committed s" and wf: "commitments_wf s" and r: "create_payout (env, r) key h s = (Inr doc, s')"
  obtains fund cash commitments shares where
    "get_row (\<lambda>f. f_id f = dr_fund r) (db_funds s) = Inr fund"
    "get_account fund AT_CASH None s = Inr cash" "pro_rata fund (dr_total r) s = Inr (commitments, shares)"
    "sum_list (map snd shares) = dr_total r" "distinct (map fst shares)"
    "\<And>aid. native_balance s' aid None = native_balance s aid None
       - (if aid = a_id cash then dr_total r else 0) + share_on (lp_capital_accounts fund s) shares aid"
  using r
proof (cases rule: create_payout_InrE)
  case (1 fund p commitments shares cash legs number t s1)
  have "\<bar>dr_total r\<bar> < 10 ^ 24"
    using 1(7) numeric_store_arg
    by (auto simp: insert_distribution_def act column_def distribution_document_def split: option.splits)
  note pr = pro_rata_Inr [OF wf this 1(3)]
  have "native_balance s' aid None = native_balance s aid None
       - (if aid = a_id cash then dr_total r else 0) + share_on (lp_capital_accounts fund s) shares aid" for aid
    using post_transfer_balances [OF 1(6), of aid] share_legs_distribution [OF 1(5), of aid]
      native_balance_cong [OF insert_document_entries(2) [OF 1(7)]] pr(2)
    by (simp add: distribution_posting_def)
  with 1(1,3,4) pr(2,4) show thesis by (intro that)
qed

section \<open>Contributions stay within commitments\<close>

lemma contributed_eq:
  "contributed a s = - sum_list (map signed_base_amount
     (filter (\<lambda>e. e_account e = a_id a \<and> effective_type s e = Some TT_CAPITAL_CALL) (db_entries s)))"
  by (simp add: contributed_def contributed_by_account_def)

definition within_commitments :: "db \<Rightarrow> bool" where
  "within_commitments s \<longleftrightarrow>
     (\<forall>fund \<in> set (db_funds s). \<forall>(lp, a) \<in> set (lp_capital_accounts fund s). \<forall>c \<in> set (db_commitments s).
        c_fund c = f_id fund \<and> c_lp c = lp \<longrightarrow> contributed a s \<le> c_committed_amount c)"

text \<open>Appending a transfer does not change the effective type of an entry that was there.\<close>

lemma effective_type_append:
  assumes wf: "transfers_wf s" "entries_wf s" and ts: "db_transfers s' = db_transfers s @ [t]" and e: "e \<in> set (db_entries s)"
  shows "effective_type s' e = effective_type s e"
proof -
  obtain t0 where t0: "find_transfer s (e_transfer e) = Some t0"
    using wf(2) e by (auto simp: entries_wf_def entry_ok_def)
  then have t0': "find_transfer s' (e_transfer e) = Some t0" using find_transfer_append [OF ts] by simp
  have "transfer_ok s t0" using find_transfer_SomeD [OF t0] wf(1) by (auto simp: transfers_wf_def)
  then have "find_transfer s' r = find_transfer s r" if "t_reverses t0 = Some r" for r
    using that find_transfer_append [OF ts] by (simp add: transfer_ok_def)
  then show ?thesis using t0 t0' by (cases "t_reverses t0") (simp_all add: effective_type_def)
qed

lemma effective_type_new:
  assumes "find_transfer s' (t_id t) = Some t" and "t_reverses t = None" and "e_transfer e = t_id t"
  shows "effective_type s' e = Some (t_transfer_type t)"
  using assms by (simp add: effective_type_def)

text \<open>A capital-call posting contributes, on an LP account, the opposite of its effect.\<close>

lemma contributed_after_call:
  assumes c: "committed s" and p: "post_transfer env po s = (Inr t, s')"
    and ty: "po_transfer_type po = TT_CAPITAL_CALL" "po_reverses po = None"
    and f: "get_row (\<lambda>f. f_id f = p_fund (po_period po)) (db_funds s) = Inr fund"
    and b: "\<forall>l \<in> set (po_legs po). l_base_amount l = None"
    and a: "a \<in> set (db_accounts s)"
      "a_currency a = f_base_currency fund \<or> (\<forall>l \<in> set (po_legs po). l_account_id l \<noteq> a_id a)"
  shows "contributed a s' = contributed a s - leg_effect (po_legs po) (a_id a)"
proof -
  have wf: "transfers_wf s" "entries_wf s" "accounts_wf s" using c by (simp_all add: committed_def db_ok_def)
  obtain stored where st: "list_all2 (entry_of_leg env) (po_legs po) stored" "t = new_transfer env po"
    "s' = s\<lparr>db_transfers := db_transfers s @ [t], db_entries := db_entries s @ stored, db_pending := []\<rparr>"
    and par0: "\<And>e. e \<in> set stored \<Longrightarrow> a_id a = e_account e \<Longrightarrow> a_currency a = f_base_currency fund \<Longrightarrow>
       signed_base_amount e = signed_amount e"
    using post_transfer_at_par [OF wf(3) p f b] a(1) by metis
  have par: "signed_base_amount e = signed_amount e" if e: "e \<in> set stored" "a_id a = e_account e" for e
  proof -
    obtain l where "l \<in> set (po_legs po)" "entry_of_leg env l e" using list_all2_mem2 [OF st(1) e(1)] by blast
    then have "\<not> (\<forall>l \<in> set (po_legs po). l_account_id l \<noteq> a_id a)" using e(2) by (auto simp: entry_of_leg_def)
    with a(2) par0 [OF e] show ?thesis by blast
  qed
  have ts: "db_transfers s' = db_transfers s @ [t]" by (simp add: st(3))
  have "transfers_wf s'" using post_transfer_committed [OF c p] by (simp add: committed_def db_ok_def)
  then have ft: "find_transfer s' (t_id t) = Some t" by (rule find_transfer_distinct) (simp add: st(3))
  have t: "t_reverses t = None" "t_transfer_type t = TT_CAPITAL_CALL" "t_id t = new_transfer_id env"
    using st(2) ty by (simp_all add: new_transfer_def)
  have ety: "effective_type s' e = Some TT_CAPITAL_CALL" if e: "e \<in> set stored" for e
  proof -
    obtain l where "entry_of_leg env l e" using list_all2_mem2 [OF st(1) e] by blast
    then have "e_transfer e = t_id t" using t(3) by (simp add: entry_of_leg_def)
    from effective_type_new [OF ft t(1) this] show ?thesis using t(2) by simp
  qed
  let ?P = "\<lambda>s e. e_account e = a_id a \<and> effective_type s e = Some TT_CAPITAL_CALL"
  have old: "filter (?P s') (db_entries s) = filter (?P s) (db_entries s)"
    using effective_type_append [OF wf(1,2) ts] by (intro filter_cong) auto
  have "filter (?P s') stored = filter (\<lambda>e. e_account e = a_id a) stored"
    using ety by (intro filter_cong) auto
  moreover have "map signed_base_amount (filter (\<lambda>e. e_account e = a_id a) stored) =
    map signed_amount (filter (\<lambda>e. e_account e = a_id a) stored)"
    using par by (intro map_cong) auto
  ultimately have "sum_list (map signed_base_amount (filter (?P s') stored)) =
    sum_list (map signed_amount (filter (\<lambda>e. e_account e = a_id a) stored))" by (simp only:)
  also have "\<dots> = leg_effect (po_legs po) (a_id a)" using leg_effect_stored [OF st(1)] by simp
  finally have new: "sum_list (map signed_base_amount (filter (?P s') stored)) = leg_effect (po_legs po) (a_id a)" .
  have "db_entries s' = db_entries s @ stored" by (simp add: st(3))
  then show ?thesis using old new by (simp add: contributed_eq)
qed

lemma get_row_unique: "get_row P rows = Inr r \<Longrightarrow> x \<in> set rows \<Longrightarrow> P x \<Longrightarrow> x = r"
proof -
  assume "get_row P rows = Inr r" "x \<in> set rows" "P x"
  then have "filter P rows = [r]" "x \<in> set (filter P rows)" by (auto simp: get_row_def split: list.splits)
  then show "x = r" by simp
qed

lemma contributed_same_ledger:
  assumes "same_ledger s s'"
  shows "contributed a s' = contributed a s"
proof -
  have "find_transfer s' = find_transfer s" using assms by (simp add: fun_eq_iff find_transfer_def same_ledger_def)
  then have "effective_type s' = effective_type s" by (intro ext) (simp only: effective_type_def)
  then show ?thesis using assms by (simp add: contributed_eq same_ledger_def)
qed

lemma check_commitment_Inr:
  assumes "check_commitment shares lp_accounts (contributed_by_account (map snd lp_accounts) s) c = Inr ()"
    and a: "map_of lp_accounts (c_lp c) = Some a"
  shows "contributed a s + dict_get shares (c_lp c) \<le> c_committed_amount c"
proof -
  from assms obtain paid share where
    p: "map_of (contributed_by_account (map snd lp_accounts) s) (a_id a) = Some paid"
    and sh: "map_of shares (c_lp c) = Some share" and le: "paid + share \<le> c_committed_amount c"
    by (auto simp: check_commitment_def Let_def)
  have "paid = contributed a s"
    using map_of_SomeD [OF p] by (auto simp: contributed_by_account_def contributed_eq)
  with sh le show ?thesis by (simp add: dict_get_def)
qed

lemma contributed_lookup:
  "(lp, b) \<in> set lp_accounts \<Longrightarrow>
   map_of (contributed_by_account (map snd lp_accounts) s) (a_id b) = Some (contributed b s)"
proof -
  assume "(lp, b) \<in> set lp_accounts"
  then have "a_id b \<in> fst ` set (contributed_by_account (map snd lp_accounts) s)"
    by (force simp: contributed_by_account_def)
  then obtain x where x: "map_of (contributed_by_account (map snd lp_accounts) s) (a_id b) = Some x"
    by (metis domIff dom_map_of_conv_image_fst not_None_eq)
  then show ?thesis by (auto simp: contributed_by_account_def contributed_eq dest!: map_of_SomeD)
qed

lemma check_commitment_value:
  assumes "map_of lp_accounts (c_lp c) = Some a" and "c_lp c \<in> fst ` set shares"
  shows "check_commitment shares lp_accounts (contributed_by_account (map snd lp_accounts) s) c =
    ensure (\<not> c_committed_amount c - contributed a s < dict_get shares (c_lp c)) (LedgerErr CommitmentExceeded)"
proof -
  note contributed_lookup [OF map_of_SomeD [OF assms(1)], of s]
  moreover obtain x where "map_of shares (c_lp c) = Some x"
    using assms(2) by (metis domIff dom_map_of_conv_image_fst not_None_eq)
  ultimately show ?thesis
    using assms(1) by (simp add: check_commitment_def lookup_def dict_get_def Let_def)
qed

text \<open>The accounts that the legs of a share list touch.\<close>

lemma share_legs_accounts:
  assumes "share_legs mk cash lp_accounts shares = Inr legs" and "mk = call_pair \<or> mk = distribution_pair"
  shows "\<forall>l \<in> set legs. l_account_id l = cash \<or> (\<exists>lp b. (lp, b) \<in> set lp_accounts \<and> l_account_id l = a_id b)"
  using assms
  by (induction mk cash lp_accounts shares arbitrary: legs rule: share_legs.induct)
    (fastforce simp: call_pair_def distribution_pair_def plain_leg_def dest: map_of_SomeD split: if_splits)+

lemma other_fund_untouched:
  assumes wf: "accounts_wf s" and cash: "get_account fund AT_CASH None s = Inr cash"
    and legs: "share_legs call_pair (a_id cash) (lp_capital_accounts fund s) xs = Inr legs"
    and a: "a \<in> set (db_accounts s)" "a_fund a \<noteq> f_id fund"
  shows "\<forall>l \<in> set legs. l_account_id l \<noteq> a_id a"
proof
  fix l assume "l \<in> set legs"
  then obtain b where b: "b \<in> set (db_accounts s)" "a_fund b = f_id fund" "l_account_id l = a_id b"
    using share_legs_accounts [OF legs] get_account_Inr [OF cash] by (auto simp: lp_capital_accounts_mem)
  with a show "l_account_id l \<noteq> a_id a"
    using find_account_distinct [OF wf] by (metis option.inject)
qed

lemma leg_effect_untouched: "\<forall>l \<in> set legs. l_account_id l \<noteq> aid \<Longrightarrow> leg_effect legs aid = 0"
proof -
  assume "\<forall>l \<in> set legs. l_account_id l \<noteq> aid"
  then have "filter (\<lambda>l. l_account_id l = aid) legs = []" by (auto simp: filter_empty_conv)
  then show ?thesis by (simp add: leg_effect_def)
qed

lemma contributed_after_create_call:
  assumes c: "committed s" and wf: "commitments_wf s" and r: "create_call (env, r) key h s = (Inr doc, s')"
    and f': "fund' \<in> set (db_funds s)" and a: "(lp, a) \<in> set (lp_capital_accounts fund' s)"
    and cm: "cm \<in> set (db_commitments s)" "c_fund cm = f_id fund'" "c_lp cm = lp"
  shows "contributed a s' \<le> contributed a s \<or> contributed a s' \<le> c_committed_amount cm"
  using r
proof (cases rule: create_call_InrE)
  case (1 fund p commitments shares cash legs number t s1)
  let ?po = "capital_call_posting r key h number legs p"
  have acc: "accounts_wf s" using c by (simp add: committed_def db_ok_def)
  have num: "numeric_store 20 4 (cr_total r) \<noteq> None" "0 \<le> cr_total r"
    using 1(8) numeric_store_nonneg
    by (auto simp: insert_capital_call_def act column_def call_document_def split: option.splits)
  then have "\<bar>cr_total r\<bar> < 10 ^ 24" using numeric_store_arg by blast
  note pr = pro_rata_Inr [OF wf this 1(3)]
  have pf: "p_fund p = f_id fund" using period_for_Inr [OF 1(2)] by simp
  have fid: "cr_fund r = f_id fund" using get_row_Inr [OF 1(1)] by simp
  have fund: "get_row (\<lambda>f. f_id f = p_fund (po_period ?po)) (db_funds s) = Inr fund"
    using 1(1) by (simp add: capital_call_posting_def pf fid)
  have plain: "\<forall>l \<in> set (po_legs ?po). l_base_amount l = None"
    using share_legs_plain [OF 1(6)] by (simp add: capital_call_posting_def)
  have as: "a \<in> set (db_accounts s)" "a_fund a = f_id fund'" "a_currency a = f_base_currency fund'"
    using a by (simp_all add: lp_capital_accounts_mem)
  have same: "contributed a s' = contributed a s1"
    using contributed_same_ledger [OF other_tables_same(7) [OF 1(8)]] .
  have after: "contributed a s1 = contributed a s - leg_effect legs (a_id a)"
    if "a_currency a = f_base_currency fund \<or> (\<forall>l \<in> set legs. l_account_id l \<noteq> a_id a)"
    using contributed_after_call [OF c 1(7) _ _ fund plain as(1)] that by (simp add: capital_call_posting_def)
  show ?thesis
  proof (cases "f_id fund' = f_id fund")
    case False
    then have n: "\<forall>l \<in> set legs. l_account_id l \<noteq> a_id a"
      using other_fund_untouched [OF acc 1(5,6) as(1)] as(2) by simp
    with after leg_effect_untouched [OF n] same show ?thesis by simp
  next
    case True
    then have f: "fund' = fund" using get_row_unique [OF 1(1) f'] fid by simp
    have "leg_effect legs (a_id a) = (if a_id a = a_id cash then cr_total r else 0) - dict_get shares lp"
      using share_legs_call [OF 1(6), of "a_id a"] share_on_lp [OF acc a [unfolded f] pr(4)] pr(2) by simp
    then have le: "contributed a s' \<le> contributed a s + dict_get shares lp"
      using after as(3) f same num(2) by simp
    have "cm \<in> set commitments" using cm f by (simp add: pr(1))
    then have "contributed a s + dict_get shares lp \<le> c_committed_amount cm"
      using check_commitment_Inr [of shares _ s cm a] 1(4) lp_account_lookup [OF acc a] cm(3) f by blast
    with le show ?thesis by simp
  qed
qed

lemma create_call_within:
  assumes c: "committed s" and wf: "commitments_wf s" and w: "within_commitments s"
    and r: "create_call (env, r) key h s = (Inr doc, s')"
  shows "within_commitments s'"
proof -
  have tabs: "db_funds s' = db_funds s" "db_commitments s' = db_commitments s" "db_accounts s' = db_accounts s"
    using r
  proof (atomize (full), cases rule: create_call_InrE)
    case (1 fund p commitments shares cash legs number t s1)
    from 1(7) show "db_funds s' = db_funds s \<and> db_commitments s' = db_commitments s \<and> db_accounts s' = db_accounts s"
      by (rule post_transfer_stored) (use 1(8) in \<open>auto simp: insert_capital_call_def act\<close>)
  qed
  then have lps: "lp_capital_accounts f s' = lp_capital_accounts f s" for f by (simp add: lp_capital_accounts_def)
  have "contributed a s' \<le> c_committed_amount cm"
    if "f \<in> set (db_funds s)" "(lp, a) \<in> set (lp_capital_accounts f s)" "cm \<in> set (db_commitments s)"
      "c_fund cm = f_id f" "c_lp cm = lp" for f lp a cm
  proof -
    have "contributed a s \<le> c_committed_amount cm" using w that by (fastforce simp: within_commitments_def)
    with contributed_after_create_call [OF c wf r that] show ?thesis by linarith
  qed
  then show ?thesis unfolding within_commitments_def tabs lps by blast
qed

end
