(* ===== verification/Nav.thy ===== *)
theory Nav
  imports Statements
begin

text \<open>
  The LPs' closing balances add up to the fund's net asset value: the accounts that the
  statements divide among the LPs and those that the net asset value counts are the two sides
  of books that balance in every period.
\<close>

section \<open>Funds do not mix\<close>

text \<open>
  Every entry is on an account of the fund that its transfer's period belongs to. The engine
  checks it (\<^verbatim>\<open>_validate_context\<close>); no constraint of the database does.
\<close>

definition entry_fund_ok :: "db \<Rightarrow> entry \<Rightarrow> bool" where
  "entry_fund_ok s e \<longleftrightarrow>
     (case (find_account s (e_account e), Option.bind (entry_period s e) (find_period s)) of
        (Some a, Some p) \<Rightarrow> a_fund a = p_fund p
      | _ \<Rightarrow> False)"

definition funds_separate :: "db \<Rightarrow> bool" where
  "funds_separate s \<longleftrightarrow> list_all (entry_fund_ok s) (db_entries s)"

lemma entry_fund_okD:
  assumes "entry_fund_ok s e"
  obtains a pid p where "find_account s (e_account e) = Some a" "entry_period s e = Some pid"
    "find_period s pid = Some p" "a_fund a = p_fund p"
  using assms by (auto simp: entry_fund_ok_def bind_eq_Some_conv split: option.splits)

text \<open>The engine keeps funds apart, given a period object of the right fund.\<close>

lemma post_transfer_separate:
  assumes c: "committed s" and sep: "funds_separate s"
    and q: "find_period s (p_id (po_period po)) = Some q" "p_fund q = p_fund (po_period po)"
    and r: "post_transfer env po s = (Inr t, s')"
  shows "funds_separate s'"
  using r
proof (cases rule: post_transfer_InrE)
  case (1 locked fund priced stored)
  have wf: "accounts_wf s" "entries_wf s" using c by (simp_all add: committed_def db_ok_def)
  have ts: "db_transfers s' = db_transfers s @ [t]" by (simp add: 1(11))
  have same: "find_account s' = find_account s" "find_period s' = find_period s"
    by (simp_all add: fun_eq_iff 1(11) find_account_def find_period_def)
  have "transfers_wf s'" using post_transfer_committed [OF c r] by (simp add: committed_def db_ok_def)
  then have ft: "find_transfer s' (t_id t) = Some t" by (rule find_transfer_distinct) (simp add: 1(11))
  have old: "entry_fund_ok s' e" if e: "e \<in> set (db_entries s)" for e
    using sep e entry_period_append [OF ts wf(2) e]
    by (simp add: entry_fund_ok_def funds_separate_def list_all_iff same)
  have legs: "list_all2 (entry_of_leg env) (po_legs po) stored" by (rule stored_of_legs [OF 1(1) price_legs_match [OF 1(5)] 1(10)])
  have new: "entry_fund_ok s' e" if e: "e \<in> set stored" for e
  proof -
    obtain l where l: "l \<in> set (po_legs po)" "entry_of_leg env l e" using list_all2_mem2 [OF legs e] by blast
    obtain pl where "leg_match (account_dict locked) l pl" using list_all2_mem1 [OF price_legs_match [OF 1(5)] l(1)] by blast
    then obtain a where a: "a \<in> set locked" "a_id a = e_account e"
      using l(2) by (auto simp: leg_match_def entry_of_leg_def dest: account_dict_Some)
    then have "a \<in> set (db_accounts s)" using lock_accounts_Inr(1) [OF 1(2)] by simp
    with a(2) have fa: "find_account s (e_account e) = Some a" using find_account_distinct [OF wf(1)] by metis
    have "a_fund a = p_fund (po_period po)"
      using 1(3) a(1) by (auto simp: validate_context_def filter_empty_conv)
    moreover have "entry_period s' e = Some (p_id (po_period po))"
      using ft l(2) 1(8) by (simp add: entry_period_def entry_of_leg_def new_transfer_def)
    ultimately show ?thesis using fa q by (simp add: entry_fund_ok_def same)
  qed
  show ?thesis using old new by (auto simp: funds_separate_def list_all_iff 1(11))
qed

section \<open>One period\<close>

definition account_types :: "account_type list" where
  "account_types = [AT_CASH, AT_INVESTMENT, AT_FEE_EXPENSE, AT_GAIN_LOSS, AT_LP_CAPITAL, AT_GP_CAPITAL]"

lemma account_types_UNIV: "set account_types = UNIV" "distinct account_types"
proof -
  have "t \<in> set account_types" for t by (cases t) (simp_all add: account_types_def)
  then show "set account_types = UNIV" by blast
qed (simp add: account_types_def)

text \<open>An entry of a period of the fund is on one of its accounts; the types divide them.\<close>

lemma entry_of_period:
  assumes sep: "funds_separate s" and wf: "periods_wf s" and p: "p \<in> set (db_periods s)" "p_fund p = f_id fund"
    and e: "e \<in> set (db_entries s)" "entry_period s e = Some (p_id p)"
  shows "account_is s fund P e \<longleftrightarrow> P (the (map_option a_account_type (find_account s (e_account e))))"
proof -
  have "entry_fund_ok s e" using sep e(1) by (simp add: funds_separate_def list_all_iff)
  then obtain a pid q where a: "find_account s (e_account e) = Some a" and "entry_period s e = Some pid"
    "find_period s pid = Some q" "a_fund a = p_fund q"
    by (rule entry_fund_okD)
  then have "a_fund a = f_id fund" using e(2) find_period_distinct [OF wf p(1)] p(2) by auto
  with a show ?thesis by (simp add: account_is_def)
qed

lemma period_types_zero:
  assumes c: "committed s" and sep: "funds_separate s" and p: "p \<in> set (db_periods s)" "p_fund p = f_id fund"
  shows "sum_list (map (\<lambda>ty. fund_total fund p ty s) account_types) = 0"
proof -
  let ?es = "filter (\<lambda>e. entry_period s e = Some (p_id p)) (db_entries s)"
  let ?ty = "\<lambda>e. the (map_option a_account_type (find_account s (e_account e)))"
  have wf: "periods_wf s" using c by (simp add: committed_def db_ok_def)
  have "fund_total fund p ty s = sum_list (map signed_base_amount (filter (\<lambda>e. ?ty e = ty) ?es))" for ty
    unfolding fund_total_def filter_filter
    using entry_of_period [OF sep wf p]
    by (intro arg_cong [where f = sum_list] arg_cong2 [where f = map] filter_cong refl) auto
  then have "sum_list (map (\<lambda>ty. fund_total fund p ty s) account_types) =
    sum_list (map (\<lambda>ty. sum_list (map signed_base_amount (filter (\<lambda>e. ?ty e = ty) ?es))) account_types)"
    by simp
  also have "\<dots> = (\<Sum>ty \<in> UNIV. sum_list (map signed_base_amount (filter (\<lambda>e. ?ty e = ty) ?es)))"
    unfolding account_types_UNIV(1) [symmetric] using account_types_UNIV(2)
    by (simp only: sum_list_distinct_conv_sum_set)
  also have "\<dots> = sum_list (map signed_base_amount ?es)"
    using finite_set [of account_types] unfolding account_types_UNIV(1) by (intro sum_list_group [symmetric]) auto
  also have "\<dots> = period_imbalance s (p_id p)" by (simp add: period_imbalance_def)
  also have "\<dots> = 0" using period_imbalance_zero committed_imbalance [OF c] by blast
  finally show ?thesis .
qed

section \<open>Net asset value by periods\<close>

lemma sum_list_swap:
  "sum_list (map (\<lambda>x. sum_list (map (f x) ys)) xs) = sum_list (map (\<lambda>y. sum_list (map (\<lambda>x. f x y) xs)) ys)"
  for f :: "'a \<Rightarrow> 'b \<Rightarrow> rat"
  by (induction xs) (auto simp: sum_list_addf)

lemma sum_filter_disjoint:
  fixes f :: "'a \<Rightarrow> rat"
  assumes "\<And>x. \<not> (P x \<and> Q x)"
  shows "sum_list (map f (filter (\<lambda>x. (P x \<or> Q x) \<and> R x) xs)) =
    sum_list (map f (filter (\<lambda>x. P x \<and> R x) xs)) + sum_list (map f (filter (\<lambda>x. Q x \<and> R x) xs))"
  using assms by (induction xs) auto

lemma nav_by_periods:
  assumes c: "committed s" and sep: "funds_separate s"
  shows "nav fund (Some p) s =
    sum_list (map (\<lambda>q. fund_total fund q AT_CASH s + fund_total fund q AT_INVESTMENT s) (periods_through fund p s))"
proof -
  have wf: "periods_wf s" using c by (simp add: committed_def db_ok_def)
  let ?P = "\<lambda>t. t = AT_CASH \<or> t = AT_INVESTMENT"
  let ?es = "filter (\<lambda>e. account_is s fund ?P e \<and> in_period_through s p e) (db_entries s)"
  let ?PS = "periods_through fund p s"
  note ps = periods_through_props [OF wf, of fund p]
  have in_ps: "e \<in> set ?es \<Longrightarrow> \<exists>q \<in> set ?PS. entry_period s e = Some (p_id q)" for e
  proof -
    assume e: "e \<in> set ?es"
    then have "entry_fund_ok s e" using sep by (simp add: funds_separate_def list_all_iff)
    then obtain a pid q where q: "find_account s (e_account e) = Some a" "entry_period s e = Some pid"
      "find_period s pid = Some q" "a_fund a = p_fund q" by (rule entry_fund_okD)
    with e have "p_fund q = f_id fund" "p_start_date q \<le> p_start_date p"
      by (auto simp: account_is_def in_period_through_def)
    with find_period_SomeD [OF q(3)] have "q \<in> set ?PS" "p_id q = pid" by (simp_all add: ps(2))
    with q(2) show ?thesis by auto
  qed
  have part: "sum_list (map signed_base_amount (filter (\<lambda>e. entry_period s e = Some (p_id q)) ?es)) =
      fund_total fund q AT_CASH s + fund_total fund q AT_INVESTMENT s" if q: "q \<in> set ?PS" for q
  proof -
    have q': "q \<in> set (db_periods s)" "p_fund q = f_id fund" "p_start_date q \<le> p_start_date p"
      using q by (simp_all add: ps(2))
    have "in_period_through s p e" if "entry_period s e = Some (p_id q)" for e
      using that find_period_distinct [OF wf q'(1)] q'(3) by (simp add: in_period_through_def)
    then have "filter (\<lambda>e. entry_period s e = Some (p_id q)) ?es =
        filter (\<lambda>e. account_is s fund ?P e \<and> entry_period s e = Some (p_id q)) (db_entries s)"
      unfolding filter_filter by (intro filter_cong) auto
    moreover have "account_is s fund ?P = (\<lambda>e. account_is s fund (\<lambda>t. t = AT_CASH) e \<or> account_is s fund (\<lambda>t. t = AT_INVESTMENT) e)"
      by (auto simp: fun_eq_iff account_is_def split: option.splits)
    ultimately show ?thesis
      unfolding fund_total_def by (simp only:) (rule sum_filter_disjoint, simp add: account_is_def split: option.splits)
  qed
  have "nav fund (Some p) s = sum_list (map signed_base_amount ?es)" by (simp add: nav_def)
  also have "\<dots> = (\<Sum>k \<in> (\<lambda>q. Some (p_id q)) ` set ?PS. sum_list (map signed_base_amount (filter (\<lambda>e. entry_period s e = k) ?es)))"
    using in_ps by (intro sum_list_group) auto
  also have "\<dots> = (\<Sum>q \<in> set ?PS. sum_list (map signed_base_amount (filter (\<lambda>e. entry_period s e = Some (p_id q)) ?es)))"
    using ps(1) by (subst sum.reindex) (auto simp: distinct_map inj_on_def)
  also have "\<dots> = (\<Sum>q \<in> set ?PS. fund_total fund q AT_CASH s + fund_total fund q AT_INVESTMENT s)"
    using part by (rule sum.cong [OF refl])
  also have "\<dots> = sum_list (map (\<lambda>q. fund_total fund q AT_CASH s + fund_total fund q AT_INVESTMENT s) ?PS)"
    using ps(1) by (subst sum_list_distinct_conv_sum_set) (auto simp: distinct_map)
  finally show ?thesis .
qed

section \<open>The LPs' shares of one period\<close>

text \<open>Every capital account of the fund is the account of an LP with a commitment.\<close>

definition capital_covered :: "fund \<Rightarrow> db \<Rightarrow> bool" where
  "capital_covered fund s \<longleftrightarrow>
     list_all (\<lambda>a. a_fund a = f_id fund \<and> a_account_type a = AT_LP_CAPITAL \<longrightarrow>
         a_currency a = f_base_currency fund \<and>
         (case a_owner_lp a of None \<Rightarrow> False | Some lp \<Rightarrow> lp \<in> set (map fst (weights_of fund s))))
       (db_accounts s)"

lemma sum_lookup_keys:
  "distinct (map fst d) \<Longrightarrow> sum_list (map (\<lambda>k. the (map_of d k)) (map fst d)) = sum_list (map snd d)"
  for d :: "('k \<times> rat) list"
proof -
  assume d: "distinct (map fst d)"
  have "map (\<lambda>k. the (map_of d k)) (map fst d) = map snd d"
    using d by (auto simp: map_of_is_SomeI)
  then show ?thesis by (simp only:)
qed

lemma period_movement_Inr:
  assumes "period_movement fund w lp a s p = Inr m"
  obtains g f where "allocate uuid_str (- fund_total fund p AT_GAIN_LOSS s) w FOUR_DP = Inr g"
    "allocate uuid_str (fund_total fund p AT_FEE_EXPENSE s) w FOUR_DP = Inr f"
    "movement_net m = - sum_list (map signed_base_amount
        (filter (\<lambda>e. e_account e = a_id a \<and> entry_period s e = Some (p_id p)) (db_entries s)))
      + the (map_of g lp) - the (map_of f lp)"
proof -
  from assms obtain g f x y where gf: "allocate uuid_str (- fund_total fund p AT_GAIN_LOSS s) w FOUR_DP = Inr g"
    "allocate uuid_str (fund_total fund p AT_FEE_EXPENSE s) w FOUR_DP = Inr f"
    and xy: "map_of g lp = Some x" "map_of f lp = Some y"
    and m: "m = (lp_ledger_movement a p s)\<lparr>mv_allocated_gains := x, mv_allocated_fees := y\<rparr>"
    by (auto simp: period_movement_def)
  have "movement_net m = movement_net (lp_ledger_movement a p s) + x - y"
    by (simp add: m movement_net_def lp_ledger_movement_net(2,3))
  with that gf xy lp_ledger_movement_net(1) show thesis by simp
qed

lemma weights_distinct: "commitments_wf s \<Longrightarrow> distinct (map fst (weights_of fund s))"
  using fund_commitments_distinct [of s "f_id fund"] by (simp add: weights_of_def comp_def)

text \<open>The ledger movements of all the LPs' accounts are those of the LP capital accounts.\<close>

lemma lp_accounts_total:
  assumes c: "committed s" and sep: "funds_separate s" and cw: "commitments_wf s" and cov: "capital_covered fund s"
    and p: "p \<in> set (db_periods s)" "p_fund p = f_id fund"
    and acct: "\<forall>lp \<in> set (map fst (weights_of fund s)). map_of (lp_capital_accounts fund s) lp = Some (acct lp)"
  shows "sum_list (map (\<lambda>lp. sum_list (map signed_base_amount
        (filter (\<lambda>e. e_account e = a_id (acct lp) \<and> entry_period s e = Some (p_id p)) (db_entries s))))
      (map fst (weights_of fund s))) = fund_total fund p AT_LP_CAPITAL s"
proof -
  let ?lps = "map fst (weights_of fund s)"
  let ?es = "filter (\<lambda>e. account_is s fund (\<lambda>t. t = AT_LP_CAPITAL) e \<and> entry_period s e = Some (p_id p)) (db_entries s)"
  have wf: "accounts_wf s" "entries_wf s" using c by (simp_all add: committed_def db_ok_def)
  have acct': "(lp, acct lp) \<in> set (lp_capital_accounts fund s)" if "lp \<in> set ?lps" for lp
    using acct that map_of_SomeD by fast
  have on: "e_account e = a_id (acct lp) \<longleftrightarrow> account_is s fund (\<lambda>t. t = AT_LP_CAPITAL) e \<and>
      the (map_option a_owner_lp (find_account s (e_account e))) = Some lp" if lp: "lp \<in> set ?lps" for lp e
  proof
    assume "e_account e = a_id (acct lp)"
    with acct' [OF lp] find_account_distinct [OF wf(1)]
    show "account_is s fund (\<lambda>t. t = AT_LP_CAPITAL) e \<and> the (map_option a_owner_lp (find_account s (e_account e))) = Some lp"
      by (auto simp: lp_capital_accounts_mem account_is_def)
  next
    assume r: "account_is s fund (\<lambda>t. t = AT_LP_CAPITAL) e \<and> the (map_option a_owner_lp (find_account s (e_account e))) = Some lp"
    then obtain a where a: "find_account s (e_account e) = Some a" "a_fund a = f_id fund" "a_account_type a = AT_LP_CAPITAL"
      "a_owner_lp a = Some lp" by (auto simp: account_is_def split: option.splits)
    have am: "a \<in> set (db_accounts s)" "a_id a = e_account e" using find_account_SomeD [OF a(1)] by auto
    with cov a have "a_currency a = f_base_currency fund" by (auto simp: capital_covered_def list_all_iff)
    with am a have "(lp, a) \<in> set (lp_capital_accounts fund s)" by (simp add: lp_capital_accounts_mem)
    then have "a = acct lp" using acct' [OF lp] by (rule lp_account_unique [OF wf(1)])
    with am(2) show "e_account e = a_id (acct lp)" by simp
  qed
  let ?own = "\<lambda>e. the (the (map_option a_owner_lp (find_account s (e_account e))))"
  have own: "?own e \<in> set ?lps \<and> the (map_option a_owner_lp (find_account s (e_account e))) = Some (?own e)"
    if "account_is s fund (\<lambda>t. t = AT_LP_CAPITAL) e" for e
    using that cov find_account_SomeD
    by (fastforce simp: account_is_def capital_covered_def list_all_iff split: option.splits)
  have "sum_list (map (\<lambda>lp. sum_list (map signed_base_amount
        (filter (\<lambda>e. e_account e = a_id (acct lp) \<and> entry_period s e = Some (p_id p)) (db_entries s)))) ?lps) =
    sum_list (map (\<lambda>lp. sum_list (map signed_base_amount (filter (\<lambda>e. ?own e = lp) ?es))) ?lps)"
  proof (rule arg_cong [where f = sum_list], rule map_cong [OF refl])
    fix lp assume lp: "lp \<in> set ?lps"
    have "filter (\<lambda>e. e_account e = a_id (acct lp) \<and> entry_period s e = Some (p_id p)) (db_entries s) =
        filter (\<lambda>e. ?own e = lp) ?es"
      unfolding filter_filter using on [OF lp] own by (intro filter_cong refl) (metis option.sel)
    then show "sum_list (map signed_base_amount
        (filter (\<lambda>e. e_account e = a_id (acct lp) \<and> entry_period s e = Some (p_id p)) (db_entries s))) =
      sum_list (map signed_base_amount (filter (\<lambda>e. ?own e = lp) ?es))" by (simp only:)
  qed
  also have "\<dots> = (\<Sum>lp \<in> set ?lps. sum_list (map signed_base_amount (filter (\<lambda>e. ?own e = lp) ?es)))"
    using weights_distinct [OF cw] by (rule sum_list_distinct_conv_sum_set)
  also have "\<dots> = sum_list (map signed_base_amount ?es)"
    using own by (intro sum_list_group [symmetric] finite_set) auto
  finally show ?thesis by (simp add: fund_total_def)
qed

section \<open>Closing balances and net asset value\<close>

text \<open>Gains and fees are small enough for the default decimal context.\<close>

definition totals_bounded :: "fund \<Rightarrow> period \<Rightarrow> db \<Rightarrow> bool" where
  "totals_bounded fund p s \<longleftrightarrow>
     list_all (\<lambda>q. \<bar>fund_total fund q AT_GAIN_LOSS s\<bar> < 10 ^ 24 \<and> \<bar>fund_total fund q AT_FEE_EXPENSE s\<bar> < 10 ^ 24)
       (periods_through fund p s)"

lemma allocated_total:
  assumes cw: "commitments_wf s" and big: "\<bar>x\<bar> < 10 ^ 24"
    and r: "allocate uuid_str x (weights_of fund s) FOUR_DP = Inr g"
  shows "sum_list (map (\<lambda>lp. the (map_of g lp)) (map fst (weights_of fund s))) = x"
proof -
  note d = weights_distinct [OF cw, of fund]
  note g = allocate_sum [OF _ big d r [unfolded quantum_values], simplified]
  have "distinct (map fst g)" using d g(2) by (simp only:)
  from sum_lookup_keys [OF this] show ?thesis using g by (simp only:)
qed

lemma sum_list_net_parts:
  "sum_list (map (\<lambda>x. - f x + g x - h x) xs) = - sum_list (map f xs) + sum_list (map g xs) - sum_list (map h xs)"
  for f g h :: "'a \<Rightarrow> rat"
  by (induction xs) auto

text \<open>All LPs' movements of one period are the credits of the LP, gain and fee accounts.\<close>

lemma lp_movements_of_period:
  assumes c: "committed s" and sep: "funds_separate s" and cw: "commitments_wf s" and cov: "capital_covered fund s"
    and p: "p \<in> set (db_periods s)" "p_fund p = f_id fund"
    and big: "\<bar>fund_total fund p AT_GAIN_LOSS s\<bar> < 10 ^ 24" "\<bar>fund_total fund p AT_FEE_EXPENSE s\<bar> < 10 ^ 24"
    and acct: "\<forall>lp \<in> set (map fst (weights_of fund s)). map_of (lp_capital_accounts fund s) lp = Some (acct lp)"
    and ne: "weights_of fund s \<noteq> []"
    and mv: "\<forall>lp \<in> set (map fst (weights_of fund s)). \<exists>m. period_movement fund (weights_of fund s) lp (acct lp) s p = Inr m"
  shows "sum_list (map (\<lambda>lp. movement_net (projr (period_movement fund (weights_of fund s) lp (acct lp) s p)))
      (map fst (weights_of fund s))) =
    - fund_total fund p AT_LP_CAPITAL s - fund_total fund p AT_GAIN_LOSS s - fund_total fund p AT_FEE_EXPENSE s"
proof -
  let ?w = "weights_of fund s" and ?lps = "map fst (weights_of fund s)"
  let ?led = "\<lambda>lp. sum_list (map signed_base_amount
        (filter (\<lambda>e. e_account e = a_id (acct lp) \<and> entry_period s e = Some (p_id p)) (db_entries s)))"
  obtain lp0 m0 where "lp0 \<in> set ?lps" "period_movement fund ?w lp0 (acct lp0) s p = Inr m0"
    using ne mv by (metis list.map_disc_iff list.set_intros(1) neq_Nil_conv)
  then obtain g f where g: "allocate uuid_str (- fund_total fund p AT_GAIN_LOSS s) ?w FOUR_DP = Inr g"
    and f: "allocate uuid_str (fund_total fund p AT_FEE_EXPENSE s) ?w FOUR_DP = Inr f"
    by (auto elim: period_movement_Inr)
  have "movement_net (projr (period_movement fund ?w lp (acct lp) s p)) = - ?led lp + the (map_of g lp) - the (map_of f lp)"
    if lp: "lp \<in> set ?lps" for lp
  proof -
    obtain m where m: "period_movement fund ?w lp (acct lp) s p = Inr m" using mv lp by blast
    then show ?thesis by (rule period_movement_Inr) (use g f m in auto)
  qed
  then have "sum_list (map (\<lambda>lp. movement_net (projr (period_movement fund ?w lp (acct lp) s p))) ?lps) =
    sum_list (map (\<lambda>lp. - ?led lp + the (map_of g lp) - the (map_of f lp)) ?lps)"
    by (intro arg_cong [where f = sum_list] map_cong refl) auto
  also have "\<dots> = - sum_list (map ?led ?lps) + sum_list (map (\<lambda>lp. the (map_of g lp)) ?lps) - sum_list (map (\<lambda>lp. the (map_of f lp)) ?lps)"
    by (rule sum_list_net_parts)
  also have "sum_list (map ?led ?lps) = fund_total fund p AT_LP_CAPITAL s"
    using lp_accounts_total [OF c sep cw cov p acct] .
  also have "sum_list (map (\<lambda>lp. the (map_of g lp)) ?lps) = - fund_total fund p AT_GAIN_LOSS s"
    by (rule allocated_total [OF cw _ g]) (use big(1) in simp)
  also have "sum_list (map (\<lambda>lp. the (map_of f lp)) ?lps) = fund_total fund p AT_FEE_EXPENSE s"
    by (rule allocated_total [OF cw big(2) f])
  finally show ?thesis by simp
qed

text \<open>
  \<open>sts\<close> are the statements of all the LPs with a commitment, in their order.
\<close>

lemma closing_balances_nav:
  assumes c: "committed s" and sep: "funds_separate s" and cw: "commitments_wf s" and cov: "capital_covered fund s"
    and big: "totals_bounded fund p s" and p: "p \<in> set (db_periods s)" "p_fund p = f_id fund"
    and lps: "map lp_id lps = map fst (weights_of fund s)" "lps \<noteq> []"
    and sts: "rmap (\<lambda>lp. lp_statement fund lp p s) lps = Inr sts"
  shows "sum_list (map st_closing_balance sts) =
    nav fund (Some p) s + sum_list (map (\<lambda>q. fund_total fund q AT_GP_CAPITAL s) (periods_through fund p s))"
proof -
  let ?w = "weights_of fund s" and ?PS = "periods_through fund p s"
  have wf: "periods_wf s" using c by (simp add: committed_def db_ok_def)
  note ps = periods_through_props [OF wf, of fund p]
  define acct where "acct = (\<lambda>lp. the (map_of (lp_capital_accounts fund s) lp))"
  let ?mv = "\<lambda>lp. period_movement fund ?w lp (acct lp) s"
  have st: "map_of (lp_capital_accounts fund s) (lp_id lp) = Some (acct (lp_id lp)) \<and>
      st_closing_balance x = net_sum (?mv (lp_id lp)) ?PS \<and> (\<forall>q \<in> set ?PS. \<exists>m. ?mv (lp_id lp) q = Inr m)"
    if r: "lp_statement fund lp p s = Inr x" for lp x
    using r
  proof (cases rule: lp_statement_InrE)
    case (1 a opn to_date current)
    then have "a = acct (lp_id lp)" by (simp add: acct_def)
    with 1 statement_loop_Inr [OF 1(3) _ refl ps(1)] p show ?thesis by (simp add: ps(2))
  qed
  have all: "list_all2 (\<lambda>lp x. lp_statement fund lp p s = Inr x) lps sts" using sts by (rule rmap_list_all2)
  then have closing: "map st_closing_balance sts = map (\<lambda>lp. net_sum (?mv (lp_id lp)) ?PS) lps"
    by (induction rule: list_all2_induct) (auto simp: st)
  have facts: "map_of (lp_capital_accounts fund s) k = Some (acct k) \<and> (\<forall>q \<in> set ?PS. \<exists>m. ?mv k q = Inr m)"
    if k: "k \<in> set (map fst ?w)" for k
  proof -
    obtain lp where "lp \<in> set lps" "lp_id lp = k" using k unfolding lps(1) [symmetric] by auto
    moreover obtain x where "lp_statement fund lp p s = Inr x"
      using list_all2_mem1 [OF all \<open>lp \<in> set lps\<close>] by blast
    ultimately show ?thesis using st by blast
  qed
  have "map (\<lambda>lp. net_sum (?mv (lp_id lp)) ?PS) lps = map (\<lambda>k. net_sum (?mv k) ?PS) (map fst ?w)"
    unfolding lps(1) [symmetric] by simp
  with closing have "sum_list (map st_closing_balance sts) =
      sum_list (map (\<lambda>k. sum_list (map (\<lambda>q. movement_net (projr (?mv k q))) ?PS)) (map fst ?w))"
    by (simp only: net_sum_def)
  also have "\<dots> = sum_list (map (\<lambda>q. sum_list (map (\<lambda>k. movement_net (projr (?mv k q))) (map fst ?w))) ?PS)"
    by (rule sum_list_swap)
  also have "\<dots> = sum_list (map (\<lambda>q. (fund_total fund q AT_CASH s + fund_total fund q AT_INVESTMENT s) + fund_total fund q AT_GP_CAPITAL s) ?PS)"
  proof (rule arg_cong [where f = sum_list], rule map_cong [OF refl])
    fix q assume q: "q \<in> set ?PS"
    then have q': "q \<in> set (db_periods s)" "p_fund q = f_id fund" by (simp_all add: ps(2))
    have b: "\<bar>fund_total fund q AT_GAIN_LOSS s\<bar> < 10 ^ 24" "\<bar>fund_total fund q AT_FEE_EXPENSE s\<bar> < 10 ^ 24"
      using big q by (auto simp: totals_bounded_def list_all_iff)
    have ne: "?w \<noteq> []" using lps by (metis list.map_disc_iff)
    have "sum_list (map (\<lambda>k. movement_net (projr (?mv k q))) (map fst ?w)) =
      - fund_total fund q AT_LP_CAPITAL s - fund_total fund q AT_GAIN_LOSS s - fund_total fund q AT_FEE_EXPENSE s"
      using facts q by (intro lp_movements_of_period [OF c sep cw cov q' b _ ne]) blast+
    also have "\<dots> = (fund_total fund q AT_CASH s + fund_total fund q AT_INVESTMENT s) + fund_total fund q AT_GP_CAPITAL s"
      using period_types_zero [OF c sep q'] by (simp add: account_types_def)
    finally show "sum_list (map (\<lambda>k. movement_net (projr (?mv k q))) (map fst ?w)) =
      (fund_total fund q AT_CASH s + fund_total fund q AT_INVESTMENT s) + fund_total fund q AT_GP_CAPITAL s" .
  qed
  also have "\<dots> = nav fund (Some p) s + sum_list (map (\<lambda>q. fund_total fund q AT_GP_CAPITAL s) ?PS)"
    unfolding nav_by_periods [OF c sep] by (rule sum_list_addf)
  finally show ?thesis .
qed

end
