(* ===== verification/Posting_Succeeds.thy ===== *)
theory Posting_Succeeds
  imports Transfer_Service Pricing_Correct
begin

text \<open>
  Progress of the engine: a posting that obeys the rules of the ledger is never refused. The
  rules are those the code checks, in base currency; the conclusion is the exact state that
  the posting leaves.
\<close>

section \<open>What a caller has to respect\<close>

definition leg_value :: "leg \<Rightarrow> rat" where
  "leg_value l = (case l_amount l of Decimal x \<Rightarrow> x | _ \<Rightarrow> 0)"

definition legs_well_posed :: "leg list \<Rightarrow> fund \<Rightarrow> db \<Rightarrow> bool" where
  "legs_well_posed legs fund s \<longleftrightarrow>
     validate_legs legs = Inr () \<and> sum_list (map leg_signed legs) = 0 \<and>
     (\<forall>l \<in> set legs. l_base_amount l = None \<and> leg_value l < 10 ^ 16 \<and>
        (\<exists>a \<in> set (db_accounts s). a_id a = l_account_id l \<and> a_fund a = f_id fund \<and> a_currency a = f_base_currency fund \<and>
           (a_account_type a \<in> set NON_NEGATIVE_TYPES \<longrightarrow> 0 \<le> native_balance s (a_id a) None + leg_effect legs (a_id a))))"

definition ids_fresh :: "env \<Rightarrow> nat \<Rightarrow> db \<Rightarrow> bool" where
  "ids_fresh env n s \<longleftrightarrow>
     new_transfer_id env \<notin> set (map t_id (db_transfers s)) \<and> distinct (map (new_entry_id env) [0..<n]) \<and>
     (\<forall>i \<in> set [0..<n]. new_entry_id env i \<notin> set (map e_id (db_entries s)))"

definition well_posed :: "env \<Rightarrow> posting \<Rightarrow> fund \<Rightarrow> db \<Rightarrow> bool" where
  "well_posed env po fund s \<longleftrightarrow>
     legs_well_posed (po_legs po) fund s \<and> ids_fresh env (length (po_legs po)) s \<and>
     get_row (\<lambda>f. f_id f = p_fund (po_period po)) (db_funds s) = Inr fund \<and> iso_4217 (f_base_currency fund) \<and>
     p_status (po_period po) = OPEN \<and> map_option p_status (find_period s (p_id (po_period po))) = Some OPEN \<and>
     po_transfer_type po \<noteq> TT_REVERSAL \<and> po_reverses po = None \<and>
     po_idempotency_key po \<noteq> [] \<and> length (po_idempotency_key po) \<le> 255 \<and>
     po_idempotency_key po \<notin> set (map t_idempotency_key (db_transfers s)) \<and>
     length (po_request_hash po) \<le> 64 \<and> length (po_created_by po) \<le> 255"

text \<open>The row of a leg.\<close>

definition par_entry :: "env \<Rightarrow> string \<Rightarrow> nat \<Rightarrow> leg \<Rightarrow> entry" where
  "par_entry env ccy i l = \<lparr>e_id = new_entry_id env i, e_transfer = new_transfer_id env,
     e_account = l_account_id l, e_direction = l_direction l, e_amount = leg_value l, e_currency = ccy,
     e_fx_rate = None, e_base_amount = leg_value l, e_created_at = now env\<rparr>"

definition par_entries :: "env \<Rightarrow> string \<Rightarrow> leg list \<Rightarrow> entry list" where
  "par_entries env ccy legs = map2 (par_entry env ccy) [0..<length legs] legs"

lemma par_entries_length [simp]: "length (par_entries env ccy legs) = length legs"
  by (simp add: par_entries_def)

lemma par_entries_nth: "i < length legs \<Longrightarrow> par_entries env ccy legs ! i = par_entry env ccy i (legs ! i)"
  by (simp add: par_entries_def)

lemma par_entries_sum:
  "sum_list (map signed_base_amount (par_entries env ccy legs)) = sum_list (map leg_signed legs)"
  if "\<forall>l \<in> set legs. \<exists>x. l_amount l = Decimal x"
proof -
  have "map signed_base_amount (par_entries env ccy legs) = map leg_signed legs"
    using that
    by (intro nth_equalityI)
      (fastforce simp: par_entries_nth par_entry_def signed_base_amount_def leg_signed_def leg_value_def split: pynum.splits)+
  then show ?thesis by simp
qed

section \<open>The locked accounts\<close>

lemma lock_accounts_succeeds:
  assumes wf: "accounts_wf s" and all: "\<forall>l \<in> set legs. \<exists>a \<in> set (db_accounts s). a_id a = l_account_id l"
  obtains locked where "lock_accounts legs s = Inr locked"
    "\<And>a. a \<in> set (db_accounts s) \<Longrightarrow> a_id a \<in> l_account_id ` set legs \<Longrightarrow> account_dict locked (a_id a) = Some a"
proof -
  let ?ids = "remdups (map l_account_id legs)"
  let ?rows = "filter (\<lambda>a. a_id a \<in> set ?ids) (db_accounts s)"
  have d: "distinct (map a_id ?rows)" using wf by (auto simp: accounts_wf_def distinct_map_filter)
  have "set (map a_id ?rows) = set ?ids" using all by force
  then have "length ?rows = length ?ids" using d distinct_card by (metis distinct_remdups length_map)
  then have l: "lock_accounts legs s = Inr (sort_key a_id ?rows)" by (simp add: lock_accounts_def Let_def)
  have "account_dict (sort_key a_id ?rows) (a_id a) = Some a"
    if "a \<in> set (db_accounts s)" "a_id a \<in> l_account_id ` set legs" for a
  proof -
    have "mset (map a_id (sort_key a_id ?rows)) = mset (map a_id ?rows)" by simp
    then have "distinct (map a_id (sort_key a_id ?rows))" using d by (metis mset_eq_imp_distinct_iff)
    then show ?thesis
      using that unfolding account_dict_def by (intro map_of_is_SomeI) (auto simp: comp_def)
  qed
  with l show thesis by (rule that)
qed

section \<open>Prices at par\<close>

definition par_leg :: "account \<Rightarrow> leg \<Rightarrow> priced_leg" where
  "par_leg a l = \<lparr>pl_account = a, pl_direction = l_direction l, pl_amount = leg_value l, pl_currency = a_currency a,
     pl_fx_rate = None, pl_base_amount = leg_value l, pl_adjustable = False\<rparr>"

lemma price_each_par:
  assumes "\<forall>l \<in> set legs. (\<exists>x. l_amount l = Decimal x) \<and> l_base_amount l = None \<and>
      (\<exists>a. dict (l_account_id l) = Some a \<and> a_currency a = ccy)"
  shows "price_each s dict ccy d rates legs = Inr (map (\<lambda>l. par_leg (the (dict (l_account_id l))) l) legs)"
  using assms
proof (induction legs)
  case (Cons l legs)
  then obtain x a where la: "l_amount l = Decimal x" "l_base_amount l = None" "dict (l_account_id l) = Some a" "a_currency a = ccy"
    by auto
  then have "price_leg s dict ccy d rates l = Inr (par_leg a l, rates)"
    by (simp add: price_leg_def leg_amount.simps par_leg_def leg_value_def)
  with Cons la show ?case by simp
qed simp

lemma price_legs_par:
  assumes "\<forall>l \<in> set legs. (\<exists>x. l_amount l = Decimal x) \<and> l_base_amount l = None \<and>
      (\<exists>a. dict (l_account_id l) = Some a \<and> a_currency a = ccy)"
  shows "price_legs s legs dict ccy d = Inr (map (\<lambda>l. par_leg (the (dict (l_account_id l))) l) legs)"
  using price_each_par [OF assms] by (simp add: price_legs_def absorb_none_adjustable par_leg_def)

lemma par_balanced:
  assumes "\<forall>l \<in> set legs. (l_direction l = DEBIT \<or> l_direction l = CREDIT) \<and> (\<exists>x. l_amount l = Decimal x)"
    and "sum_list (map leg_signed legs) = 0"
  shows "check_balanced (map (\<lambda>l. par_leg (f l) l) legs) = Inr ()"
proof -
  let ?ps = "map (\<lambda>l. par_leg (f l) l) legs"
  have "debits ?ps - credits ?ps = net ?ps"
    using assms(1) by (intro net_debits_credits) (auto simp: par_leg_def)
  also have "\<dots> = sum_list (map leg_signed legs)"
    using assms(1) unfolding net_def
    by (intro arg_cong [where f = sum_list])
      (auto simp: par_leg_def leg_signed_def leg_value_def split: pynum.splits)
  finally show ?thesis using assms(2) by (simp add: check_balanced_def)
qed

lemma dict_sum_key: "(k, v) \<in> set (dict_sum P key val xs) \<Longrightarrow> \<exists>x \<in> set xs. P x \<and> key x = k"
proof -
  have "fst ` set (foldl (\<lambda>d x. if P x then dict_add (key x) (val x) d else d) d0 xs) =
      fst ` set d0 \<union> key ` {x \<in> set xs. P x}" for d0
    by (induction xs arbitrary: d0) (auto simp: dict_add_keys)
  from this [of "[]"] show "(k, v) \<in> set (dict_sum P key val xs) \<Longrightarrow> \<exists>x \<in> set xs. P x \<and> key x = k"
    unfolding dict_sum_def by force
qed

lemma sufficient_funds_par:
  assumes wf: "accounts_wf s" and l: "lock_accounts legs s = Inr locked"
    and m: "list_all2 (leg_match (account_dict locked)) legs ps"
    and ok: "\<And>a. a \<in> set (db_accounts s) \<Longrightarrow> a_id a \<in> l_account_id ` set legs \<Longrightarrow>
      a_account_type a \<in> set NON_NEGATIVE_TYPES \<Longrightarrow> 0 \<le> native_balance s (a_id a) None + leg_effect legs (a_id a)"
  shows "check_sufficient_funds ps s = Inr ()"
proof -
  have "0 \<le> native_balance s aid None + delta" if "(aid, delta) \<in> set (cash_deltas ps)" for aid delta
  proof -
    from dict_sum_key [OF that [unfolded cash_deltas_def]] obtain p where
      p: "p \<in> set ps" "a_account_type (pl_account p) \<in> set NON_NEGATIVE_TYPES" "a_id (pl_account p) = aid" by blast
    obtain lg where lg: "lg \<in> set legs" "leg_match (account_dict locked) lg p" using list_all2_mem2 [OF m p(1)] by blast
    then have a: "pl_account p \<in> set (db_accounts s)" "l_account_id lg = aid"
      using lock_accounts_Inr(1) [OF l] p(3) by (auto simp: leg_match_def dest: account_dict_Some)
    have "delta = dict_get (cash_deltas ps) aid"
      using that by (intro dict_get_item [symmetric]) (auto simp: cash_deltas_def dict_sum_distinct)
    also have "\<dots> = leg_effect legs aid" using cash_deltas_effect [OF wf l m a(1) p(2)] p(3) by simp
    finally show ?thesis using ok [OF a(1) _ p(2)] p(3) lg(1) a(2) by force
  qed
  then show ?thesis by (auto simp: check_sufficient_funds_def each_Inr not_less)
qed

section \<open>The rows\<close>

lemma insert_entries_succeed:
  assumes "\<forall>e \<in> set es. stored_entry e = Inr e \<and> assert_period_open s (e_transfer e) = Inr () \<and>
      entry_constraints s e = Inr ()"
    and "distinct (map e_id es)"
  shows "each_act insert_entry es s =
    (Inr (), s\<lparr>db_entries := db_entries s @ es, db_pending := db_pending s @ map e_transfer es\<rparr>)"
  using assms
proof (induction es arbitrary: s)
  case Nil
  then show ?case by (simp add: act)
next
  case (Cons e es)
  let ?s = "s\<lparr>db_entries := db_entries s @ [e], db_pending := db_pending s @ [e_transfer e]\<rparr>"
  have i: "insert_entry e s = (Inr (), ?s)" using Cons.prems(1) by (simp add: insert_entry_Inr)
  have "assert_period_open ?s (e_transfer e') = assert_period_open s (e_transfer e')" for e' :: entry
    by (simp add: assert_period_open_def find_transfer_def find_period_def cong: option.map_cong)
  moreover have "entry_constraints ?s e' = Inr ()" if e': "e' \<in> set es" for e'
  proof -
    have "e_id e' \<noteq> e_id e" using Cons.prems(2) e' by (auto simp: image_iff)
    moreover have "entry_constraints s e' = Inr ()" using Cons.prems(1) e' by simp
    ultimately show ?thesis by (simp add: entry_constraints_def find_account_def)
  qed
  ultimately have "each_act insert_entry es ?s =
      (Inr (), ?s\<lparr>db_entries := db_entries ?s @ es, db_pending := db_pending ?s @ map e_transfer es\<rparr>)"
    using Cons.prems by (intro Cons.IH) auto
  with i show ?case by (simp add: act)
qed

lemma par_entry_stored:
  assumes "valid_amount (leg_value l)" and "leg_value l < 10 ^ 16"
  shows "stored_entry (par_entry env ccy i l) = Inr (par_entry env ccy i l)"
proof -
  have "dp 4 (leg_value l)" "\<bar>leg_value l\<bar> * 10 ^ 4 < 10 ^ 20" using assms by (simp_all add: valid_amount_def)
  then show ?thesis using numeric_store_fits [of 4 "leg_value l" 20] by (simp add: stored_entry_def par_entry_def)
qed

lemma new_entries_par:
  assumes "\<forall>l \<in> set legs. a_id (f l) = l_account_id l \<and> a_currency (f l) = ccy"
  shows "new_entries env (new_transfer_id env) (map (\<lambda>l. par_leg (f l) l) legs) = par_entries env ccy legs"
  using assms
  by (intro nth_equalityI) (simp_all add: new_entries_nth par_entries_nth new_entry_def par_leg_def par_entry_def)

section \<open>Progress\<close>

text \<open>The checks in Python let it through, with these accounts and prices.\<close>

lemma well_posed_legs:
  assumes "legs_well_posed legs fund s" and "l \<in> set legs"
  shows "valid_amount (leg_value l)" "leg_value l < 10 ^ 16" "l_base_amount l = None" "l_amount l = Decimal (leg_value l)"
    "l_direction l = DEBIT \<or> l_direction l = CREDIT"
    "\<exists>a \<in> set (db_accounts s). a_id a = l_account_id l \<and> a_fund a = f_id fund \<and> a_currency a = f_base_currency fund \<and>
       (a_account_type a \<in> set NON_NEGATIVE_TYPES \<longrightarrow> 0 \<le> native_balance s (a_id a) None + leg_effect legs (a_id a))"
  using assms by (fastforce simp: legs_well_posed_def validate_legs_Inr leg_value_def)+

lemma well_posed_priced:
  assumes wf: "accounts_wf s" and lw: "legs_well_posed legs fund s"
  obtains locked f where "lock_accounts legs s = Inr locked" "\<forall>a \<in> set locked. a_fund a = f_id fund"
    "\<forall>l \<in> set legs. find_account s (l_account_id l) = Some (f l) \<and> a_id (f l) = l_account_id l \<and> a_currency (f l) = f_base_currency fund"
    "\<And>d. price_legs s legs (account_dict locked) (f_base_currency fund) d = Inr (map (\<lambda>l. par_leg (f l) l) legs)"
    "check_balanced (map (\<lambda>l. par_leg (f l) l) legs) = Inr ()"
    "check_sufficient_funds (map (\<lambda>l. par_leg (f l) l) legs) s = Inr ()"
proof -
  note leg = well_posed_legs [OF lw]
  obtain locked where l: "lock_accounts legs s = Inr locked"
    and dict: "\<And>a. a \<in> set (db_accounts s) \<Longrightarrow> a_id a \<in> l_account_id ` set legs \<Longrightarrow> account_dict locked (a_id a) = Some a"
    using lock_accounts_succeeds [OF wf, of legs] leg(6) by blast
  define f :: "leg \<Rightarrow> account" where "f l = the (account_dict locked (l_account_id l))" for l
  have f: "account_dict locked (l_account_id l) = Some (f l) \<and> f l \<in> set (db_accounts s) \<and> a_id (f l) = l_account_id l \<and>
      a_fund (f l) = f_id fund \<and> a_currency (f l) = f_base_currency fund" if "l \<in> set legs" for l
    using leg(6) [OF that] dict that by (force simp: f_def)
  have pr: "price_legs s legs (account_dict locked) (f_base_currency fund) d = Inr (map (\<lambda>l. par_leg (f l) l) legs)" for d
    unfolding f_def by (rule price_legs_par) (use leg(3,4) f in blast)
  have funds: "check_sufficient_funds (map (\<lambda>l. par_leg (f l) l) legs) s = Inr ()"
  proof (rule sufficient_funds_par [OF wf l price_legs_match [OF pr]])
    fix a assume a: "a \<in> set (db_accounts s)" "a_id a \<in> l_account_id ` set legs" "a_account_type a \<in> set NON_NEGATIVE_TYPES"
    then obtain l where lm: "l \<in> set legs" "a_id a = l_account_id l" by auto
    from leg(6) [OF lm(1)] obtain b where b: "b \<in> set (db_accounts s)" "a_id b = a_id a"
      "a_account_type b \<in> set NON_NEGATIVE_TYPES \<longrightarrow> 0 \<le> native_balance s (a_id b) None + leg_effect legs (a_id b)"
      using lm(2) by auto
    then have "b = a" using a(1) find_account_distinct [OF wf] by (metis option.inject)
    with b a(3) show "0 \<le> native_balance s (a_id a) None + leg_effect legs (a_id a)" by simp
  qed
  have "a_fund a = f_id fund" if a: "a \<in> set locked" for a
  proof -
    have "a \<in> set (db_accounts s)" "a_id a \<in> l_account_id ` set legs" using a lock_accounts_Inr(1) [OF l] by auto
    then show ?thesis using f dict by fastforce
  qed
  moreover have "check_balanced (map (\<lambda>l. par_leg (f l) l) legs) = Inr ()"
    using leg(4,5) lw by (intro par_balanced) (auto simp: legs_well_posed_def)
  moreover have "\<forall>l \<in> set legs. find_account s (l_account_id l) = Some (f l) \<and> a_id (f l) = l_account_id l \<and>
      a_currency (f l) = f_base_currency fund"
    using f find_account_distinct [OF wf] by metis
  ultimately show thesis using that l pr funds by blast
qed

text \<open>The database accepts the rows, and the deferred trigger finds the transfer balanced.\<close>

lemma par_entries_inserted:
  assumes wf: "transfers_wf s" and lw: "legs_well_posed legs fund s" and fresh: "ids_fresh env (length legs) s"
    and f: "\<forall>l \<in> set legs. find_account s (l_account_id l) = Some (f l) \<and> a_currency (f l) = f_base_currency fund"
    and iso: "iso_4217 (f_base_currency fund)" and p: "map_option p_status (find_period s (t_period t)) = Some OPEN"
    and t: "t_id t = new_transfer_id env"
  shows "each_act insert_entry (par_entries env (f_base_currency fund) legs) (s\<lparr>db_transfers := db_transfers s @ [t]\<rparr>) =
    (Inr (), s\<lparr>db_transfers := db_transfers s @ [t], db_entries := db_entries s @ par_entries env (f_base_currency fund) legs,
       db_pending := db_pending s @ map (\<lambda>l. new_transfer_id env) legs\<rparr>)"
proof -
  let ?ccy = "f_base_currency fund" and ?s1 = "s\<lparr>db_transfers := db_transfers s @ [t]\<rparr>"
  let ?es = "par_entries env ?ccy legs"
  have iso_len: "length ?ccy \<le> 3" using iso by (simp add: iso_4217_def)
  have "find (\<lambda>t. t_id t = new_transfer_id env) (db_transfers s) = None"
    using fresh by (simp only: find_None_key ids_fresh_def not_False_eq_True)
  then have "find_transfer ?s1 (new_transfer_id env) = Some t" by (simp add: find_transfer_def find_append t)
  moreover have "find_period ?s1 = find_period s" by (simp add: fun_eq_iff find_period_def)
  ultimately have po: "assert_period_open ?s1 (new_transfer_id env) = Inr ()"
    using p by (simp add: assert_period_open_def)
  have "stored_entry e = Inr e \<and> assert_period_open ?s1 (e_transfer e) = Inr () \<and> entry_constraints ?s1 e = Inr ()"
    if e: "e \<in> set ?es" for e
  proof -
    obtain i where i: "i < length legs" "e = par_entry env ?ccy i (legs ! i)"
      using e by (auto simp: in_set_conv_nth par_entries_nth)
    note leg = well_posed_legs [OF lw nth_mem [OF i(1)]]
    have "find_account ?s1 (l_account_id (legs ! i)) = Some (f (legs ! i))" "a_currency (f (legs ! i)) = ?ccy"
      using f i(1) by (simp_all add: find_account_def)
    then have "entry_constraints ?s1 e = Inr ()"
      using fresh i(1) leg(1,5) iso iso_len by (auto simp: entry_constraints_def i(2) par_entry_def valid_amount_def ids_fresh_def)
    with par_entry_stored [OF leg(1,2)] po show ?thesis by (simp add: i(2)) (simp add: par_entry_def)
  qed
  moreover have ids: "map e_id ?es = map (new_entry_id env) [0..<length legs]"
    by (intro nth_equalityI) (simp_all add: par_entries_nth par_entry_def)
  moreover have "map e_transfer ?es = map (\<lambda>l. new_transfer_id env) legs"
    by (intro nth_equalityI) (simp_all add: par_entries_nth par_entry_def)
  ultimately show ?thesis
    using insert_entries_succeed [of ?es ?s1] fresh by (simp add: ids_fresh_def)
qed

lemma par_entries_balance:
  assumes wf: "entries_wf s" and lw: "legs_well_posed legs fund s" and fresh: "ids_fresh env (length legs) s"
    and s': "db_entries s' = db_entries s @ par_entries env ccy legs"
  shows "assert_transfer_balances s' (new_transfer_id env) = Inr ()"
proof -
  have "entries_of (new_transfer_id env) s' = par_entries env ccy legs"
    using fresh
    by (intro entries_of_fresh [OF wf _ s']) (auto simp: ids_fresh_def in_set_conv_nth par_entries_nth par_entry_def)
  moreover have "sum_list (map leg_signed legs) = 0" using lw by (simp add: legs_well_posed_def)
  ultimately have "imbalance s' (new_transfer_id env) = 0"
    using par_entries_sum [of legs env ccy] well_posed_legs(4) [OF lw] by (simp add: imbalance_def)
  then show ?thesis using numeric_store_fits [of 4 0 20] by (simp add: assert_transfer_balances_def dp_def)
qed

lemma well_posed_succeeds:
  assumes c: "committed s" and w: "well_posed env po fund s"
  shows "post_transfer env po s = (Inr (new_transfer env po),
    s\<lparr>db_transfers := db_transfers s @ [new_transfer env po],
      db_entries := db_entries s @ par_entries env (f_base_currency fund) (po_legs po), db_pending := []\<rparr>)"
proof -
  let ?legs = "po_legs po" and ?ccy = "f_base_currency fund" and ?t = "new_transfer env po"
  let ?es = "par_entries env ?ccy ?legs"
  let ?s1 = "s\<lparr>db_transfers := db_transfers s @ [?t]\<rparr>"
  let ?s2 = "s\<lparr>db_transfers := db_transfers s @ [?t], db_entries := db_entries s @ ?es,
    db_pending := map (\<lambda>l. new_transfer_id env) ?legs\<rparr>"
  have wf: "transfers_wf s" "entries_wf s" "accounts_wf s" and pend: "db_pending s = []"
    using c by (auto simp: committed_def db_ok_def)
  have lw: "legs_well_posed ?legs fund s" and fresh: "ids_fresh env (length ?legs) s"
    and fund: "get_row (\<lambda>f. f_id f = p_fund (po_period po)) (db_funds s) = Inr fund"
    and iso: "iso_4217 ?ccy" and p: "map_option p_status (find_period s (t_period ?t)) = Some OPEN"
    using w by (simp_all add: well_posed_def new_transfer_def)
  have fid: "f_id fund = p_fund (po_period po)" using get_row_Inr [OF fund] by simp
  have v: "validate_legs ?legs = Inr ()" using lw by (simp add: legs_well_posed_def)
  obtain locked f where l: "lock_accounts ?legs s = Inr locked" "\<forall>a \<in> set locked. a_fund a = f_id fund"
    and f: "\<forall>l \<in> set ?legs. find_account s (l_account_id l) = Some (f l) \<and> a_id (f l) = l_account_id l \<and> a_currency (f l) = ?ccy"
    and pr: "\<And>d. price_legs s ?legs (account_dict locked) ?ccy d = Inr (map (\<lambda>l. par_leg (f l) l) ?legs)"
      "check_balanced (map (\<lambda>l. par_leg (f l) l) ?legs) = Inr ()"
      "check_sufficient_funds (map (\<lambda>l. par_leg (f l) l) ?legs) s = Inr ()"
    using well_posed_priced [OF wf(3) lw] by blast
  have ctx: "validate_context (po_period po) locked = Inr ()"
    using w l(2) fid by (simp add: validate_context_def well_posed_def filter_empty_conv)
  have it: "insert_transfer ?t s = (Inr (), ?s1)"
    using w fresh by (auto simp: insert_transfer_Inr transfer_constraints_def well_posed_def ids_fresh_def new_transfer_def)
  have ne: "new_entries env (new_transfer_id env) (map (\<lambda>l. par_leg (f l) l) ?legs) = ?es"
    using f by (intro new_entries_par) blast
  have ie: "each_act insert_entry ?es ?s1 = (Inr (), ?s2)"
    using par_entries_inserted [OF wf(1) lw fresh _ iso p, of f] f pend by (simp add: new_transfer_def)
  have "assert_transfer_balances ?s2 (new_transfer_id env) = Inr ()"
    by (rule par_entries_balance [OF wf(2) lw fresh]) simp
  then have fd: "fire_deferred ?s2 = (Inr (), ?s2\<lparr>db_pending := []\<rparr>)" by (auto simp: fire_deferred_Inr)
  show ?thesis
    using v l(1) ctx fund pr it ie fd by (simp add: post_transfer_def act ne)
qed

end
