(* ===== verification/Sample_Operations.thy ===== *)
theory Sample_Operations
  imports Sample_Ledger Nav Posting_Succeeds
begin

text \<open>
  The sample fund at work: a capital call of 1000.00 dollars, a fee of 30.00 and a distribution
  of 300.00, all in the open quarter, and the states they leave.
\<close>

definition sample_call :: call_request where
  "sample_call = \<lparr>cr_fund = 1, cr_total = 1000, cr_notice_date = Date 2024 5 1, cr_due_date = Date 2024 5 15,
     cr_created_by = ''ops''\<rparr>"

definition drawing_legs :: "leg list" where
  "drawing_legs = call_pair 21 22 (66667/100) @ call_pair 21 23 (33333/100)"

definition drawing :: posting where
  "drawing = capital_call_posting sample_call ''call-1'' ''h1'' 1 drawing_legs q2"

definition drawn_doc :: capital_call where
  "drawn_doc = call_document (sample_env 1) sample_call 1 (new_transfer (sample_env 1) drawing)"

definition drawn_db :: db where
  "drawn_db = sample_db\<lparr>db_transfers := [new_transfer (sample_env 1) drawing], db_entries := par_entries (sample_env 1) ''USD'' drawing_legs,
     db_pending := [],
     db_capital_calls := [drawn_doc]\<rparr>"

lemma lp_capital_accounts_sample:
  "lp_capital_accounts sample_fund sample_db =
     [(31, sample_account 22 ''LP-0000000000000000000000000000001f'' AT_LP_CAPITAL (Some 31) ''USD''),
      (32, sample_account 23 ''LP-00000000000000000000000000000020'' AT_LP_CAPITAL (Some 32) ''USD'')]"
  by code_simp

text \<open>The two keys are in the order of their texts; cash is account 21.\<close>

lemma by_lp_sample: "by_lp [(31, x), (32, y)] = [(31, x), (32, y)]"
  by code_simp

abbreviation sample_cash :: account where
  "sample_cash \<equiv> sample_account 21 ''CASH-USD'' AT_CASH None ''USD''"

lemma get_row_sample: "get_row (\<lambda>f. f_id f = 1) (db_funds sample_db) = Inr sample_fund"
  by code_simp

lemma cash_sample: "get_account sample_fund AT_CASH None sample_db = Inr sample_cash"
  by code_simp

lemma pro_rata_sample: "pro_rata sample_fund 1000 sample_db =
    Inr (db_commitments sample_db, [(31, 66667/100), (32, 33333/100)])"
  by code_simp

lemma stored_total: "numeric_store 20 4 1000 = Some 1000" "numeric_store 20 4 300 = Some 300"
  by code_simp+

lemma drawing_posted_well_posed: "well_posed (sample_env 1) drawing sample_fund sample_db"
  by code_simp

lemma drawing_posted: "post_transfer (sample_env 1) drawing sample_db =
    (Inr (new_transfer (sample_env 1) drawing), drawn_db\<lparr>db_capital_calls := []\<rparr>)"
  using well_posed_succeeds [OF committed_sample drawing_posted_well_posed]
  by (simp add: drawn_db_def drawing_def capital_call_posting_def sample_fund_def sample_db_def empty_db_def)

lemma drawn: "create_call (sample_env 1, sample_call) ''call-1'' ''h1'' sample_db = (Inr drawn_doc, drawn_db)"
  unfolding drawn_doc_def
proof (rule create_call_fresh)
  show "get_row (\<lambda>f. f_id f = cr_fund sample_call) (db_funds sample_db) = Inr sample_fund"
    using get_row_sample by (simp add: sample_call_def)
  show "period_for sample_fund (cr_notice_date sample_call) sample_db = Inr q2" by code_simp
  show "pro_rata sample_fund (cr_total sample_call) sample_db =
      Inr (db_commitments sample_db, [(31, 66667/100), (32, 33333/100)])"
    using pro_rata_sample by (simp add: sample_call_def)
  show "each (check_commitment [(31, 66667/100), (32, 33333/100)] (lp_capital_accounts sample_fund sample_db)
      (contributed_by_account (map snd (lp_capital_accounts sample_fund sample_db)) sample_db)) (db_commitments sample_db) = Inr ()"
    by code_simp
  show "get_account sample_fund AT_CASH None sample_db = Inr sample_cash" by (rule cash_sample)
  show "share_legs call_pair (a_id sample_cash) (lp_capital_accounts sample_fund sample_db)
      (by_lp [(31, 66667/100), (32, 33333/100)]) = Inr drawing_legs"
    by (simp add: by_lp_sample lp_capital_accounts_sample lookup_def sample_account_def drawing_legs_def)
  show "next_number (map cc_call_number (filter (\<lambda>c. cc_fund c = f_id sample_fund) (db_capital_calls sample_db))) = 1"
    by code_simp
  show "post_transfer (sample_env 1) (capital_call_posting sample_call ''call-1'' ''h1'' 1 drawing_legs q2) sample_db =
      (Inr (new_transfer (sample_env 1) drawing), drawn_db\<lparr>db_capital_calls := []\<rparr>)"
    using drawing_posted by (simp only: drawing_def)
  show "insert_capital_call (call_document (sample_env 1) sample_call 1 (new_transfer (sample_env 1) drawing))
      (drawn_db\<lparr>db_capital_calls := []\<rparr>) = (Inr (), drawn_db)"
    by (simp add: insert_capital_call_def act column_def stored_total call_document_def drawn_doc_def drawn_db_def
        sample_call_def sample_db_def sample_fund_def find_transfer_def new_transfer_def less_eq_date_def)
qed

text \<open>The request, with any digest function that answers \<open>''h1''\<close> to it.\<close>

lemma call_requested_with:
  assumes "\<And>payload. h (json_dumps (JObj payload)) = ''h1''"
  shows "create_capital_call id id ((sample_env 1)\<lparr>sha256_hex := h\<rparr>) ''call-1'' sample_call sample_db =
    (Inr (drawn_doc, True), drawn_db)"
proof -
  let ?env = "(sample_env 1)\<lparr>sha256_hex := h\<rparr>"
  have e: "new_entry ?env = new_entry (sample_env 1)" "new_transfer ?env = new_transfer (sample_env 1)"
    "new_transfer_id ?env = new_transfer_id (sample_env 1)" "today ?env = today (sample_env 1)"
    "call_document ?env = call_document (sample_env 1)"
    by (simp_all add: fun_eq_iff new_entry_def new_transfer_def call_document_def)
  have p: "post_transfer ?env = post_transfer (sample_env 1)"
    by (intro ext) (simp only: post_transfer_def new_entries_def e)
  have "create_call (?env, sample_call) = create_call (sample_env 1, sample_call)"
    by (intro ext) (simp only: create_call_def Let_def fst_conv snd_conv e(5) p)
  with drawn have "create_call (?env, sample_call) ''call-1'' ''h1'' (id sample_db) = (Inr drawn_doc, drawn_db)"
    by simp
  moreover have "find_key ''call-1'' sample_db = None" by code_simp
  moreover have "\<exists>m. money_str (cr_total sample_call) = Inr m"
  proof -
    have "case money_str (cr_total sample_call) of Inr _ \<Rightarrow> True | Inl _ \<Rightarrow> False" by code_simp
    then show ?thesis by (auto split: sum.splits)
  qed
  then obtain m where m: "money_str (cr_total sample_call) = Inr m" by blast
  have digest: "sha256_hex ?env = h" by simp
  have "call_fingerprint ?env sample_call = Inr ''h1''"
    unfolding call_fingerprint_def m rbind.simps request_fingerprint_def digest by (simp only: assms)
  ultimately show ?thesis by (auto simp: create_capital_call_def run_idempotent_def act intro!: run_fresh)
qed

lemma commitments_wf_sample: "commitments_wf sample_db"
  by code_simp

lemma committed_drawn: "committed drawn_db"
  using call_once.create_steps [OF committed_sample drawn] by simp

text \<open>A management fee of 30.00.\<close>

definition fee_posting :: posting where
  "fee_posting = service_posting ''fee-1'' [plain_leg 27 DEBIT 30, plain_leg 21 CREDIT 30] q2 TT_FEE ''Management fee'' None"

definition charged_db :: db where
  "charged_db = drawn_db\<lparr>db_transfers := db_transfers drawn_db @ [new_transfer (sample_env 2) fee_posting],
     db_entries := db_entries drawn_db @ par_entries (sample_env 2) ''USD'' (po_legs fee_posting), db_pending := []\<rparr>"

lemma charged_well_posed: "well_posed (sample_env 2) fee_posting sample_fund drawn_db"
  by code_simp

lemma charged: "post_transfer (sample_env 2) fee_posting drawn_db = (Inr (new_transfer (sample_env 2) fee_posting), charged_db)"
  using well_posed_succeeds [OF committed_drawn charged_well_posed]
  by (simp add: charged_db_def fee_posting_def service_posting_def sample_fund_def)

lemma committed_charged: "committed charged_db"
  using post_transfer_committed [OF committed_drawn charged] by simp

text \<open>A distribution of 300.00. The chart, the commitments and the periods are as they were.\<close>

lemma charged_tables:
  "db_accounts charged_db = db_accounts sample_db" "db_commitments charged_db = db_commitments sample_db"
  "db_funds charged_db = db_funds sample_db" "db_periods charged_db = db_periods sample_db"
  "db_distributions charged_db = []"
  by (simp_all add: charged_db_def drawn_db_def sample_db_def empty_db_def)

definition sample_payout :: distribution_request where
  "sample_payout = \<lparr>dr_fund = 1, dr_total = 300, dr_payment_date = Date 2024 6 1, dr_classification = RETURN_OF_CAPITAL,
     dr_created_by = ''ops''\<rparr>"

definition payout_legs :: "leg list" where
  "payout_legs = distribution_pair 21 22 200 @ distribution_pair 21 23 100"

definition payout :: posting where
  "payout = distribution_posting sample_payout ''dist-1'' ''h3'' 1 payout_legs q2"

definition paid_doc :: distribution where
  "paid_doc = distribution_document (sample_env 3) sample_payout 1 (new_transfer (sample_env 3) payout)"

definition paid_db :: db where
  "paid_db = charged_db\<lparr>db_transfers := db_transfers charged_db @ [new_transfer (sample_env 3) payout],
     db_entries := db_entries charged_db @ par_entries (sample_env 3) ''USD'' payout_legs, db_pending := [], db_distributions := [paid_doc]\<rparr>"

lemma payout_posted_well_posed: "well_posed (sample_env 3) payout sample_fund charged_db"
  by code_simp

lemma payout_posted: "post_transfer (sample_env 3) payout charged_db =
    (Inr (new_transfer (sample_env 3) payout), paid_db\<lparr>db_distributions := []\<rparr>)"
  using well_posed_succeeds [OF committed_charged payout_posted_well_posed]
  by (simp add: paid_db_def payout_def distribution_posting_def sample_fund_def charged_tables)

lemma pro_rata_payout: "pro_rata sample_fund 300 sample_db = Inr (db_commitments sample_db, [(31, 200), (32, 100)])"
  by code_simp

lemma paid: "create_payout (sample_env 3, sample_payout) ''dist-1'' ''h3'' charged_db = (Inr paid_doc, paid_db)"
  unfolding paid_doc_def
proof (rule create_payout_fresh)
  have lp: "lp_capital_accounts sample_fund charged_db = lp_capital_accounts sample_fund sample_db"
    by (simp add: lp_capital_accounts_def charged_tables)
  show "get_row (\<lambda>f. f_id f = dr_fund sample_payout) (db_funds charged_db) = Inr sample_fund"
    using get_row_sample by (simp add: sample_payout_def charged_tables)
  have "period_for sample_fund (dr_payment_date sample_payout) sample_db = Inr q2" by code_simp
  then show "period_for sample_fund (dr_payment_date sample_payout) charged_db = Inr q2"
    by (simp add: period_for_def charged_tables)
  show "pro_rata sample_fund (dr_total sample_payout) charged_db = Inr (db_commitments sample_db, [(31, 200), (32, 100)])"
    using pro_rata_payout by (simp add: pro_rata_def sample_payout_def charged_tables)
  show "get_account sample_fund AT_CASH None charged_db = Inr sample_cash"
    using cash_sample by (simp add: get_account_def account_by_code_def charged_tables)
  show "share_legs distribution_pair (a_id sample_cash) (lp_capital_accounts sample_fund charged_db)
      (by_lp [(31, 200), (32, 100)]) = Inr payout_legs"
    by (simp add: by_lp_sample lp lp_capital_accounts_sample lookup_def sample_account_def payout_legs_def)
  show "next_number (map d_distribution_number (filter (\<lambda>d. d_fund d = f_id sample_fund) (db_distributions charged_db))) = 1"
    by (simp add: charged_tables next_number_def)
  show "post_transfer (sample_env 3) (distribution_posting sample_payout ''dist-1'' ''h3'' 1 payout_legs q2) charged_db =
      (Inr (new_transfer (sample_env 3) payout), paid_db\<lparr>db_distributions := []\<rparr>)"
    using payout_posted by (simp only: payout_def)
  show "insert_distribution (distribution_document (sample_env 3) sample_payout 1 (new_transfer (sample_env 3) payout))
      (paid_db\<lparr>db_distributions := []\<rparr>) = (Inr (), paid_db)"
    by (simp add: insert_distribution_def act column_def stored_total distribution_document_def paid_doc_def paid_db_def
        charged_tables sample_payout_def sample_db_def sample_fund_def find_transfer_def find_append new_transfer_def
        charged_db_def drawn_db_def split: option.split)
qed

lemma committed_paid: "committed paid_db"
  using payout_once.create_steps [OF committed_charged paid] by simp

end
