(* ===== verification/Operations_Properties.thy ===== *)
theory Operations_Properties
  imports Sample_Operations
begin

text \<open>
  The properties of the fund operations, each with its application to the sample fund:
  allocation, capital calls, distributions, period closing, the chart, statements and NAV.
\<close>

section \<open>Allocation\<close>


definition thirds :: "(string \<times> rat) list" where
  "thirds = [(''b'', 1), (''a'', 1), (''c'', 1), (''d'', 0)]"


text \<open>
  An allocation is refused exactly when there is no usable weight (none, a negative one, or
  all zero) or the amount is not a whole number of quanta; nothing else makes it fail.
\<close>

theorem allocation_defined:
  assumes "distinct (map fst weights)"
  shows "(\<exists>shares. allocate key_str amount weights (money_quantum s) = Inr shares) \<longleftrightarrow>
    weights \<noteq> [] \<and> (\<forall>(k, w) \<in> set weights. 0 \<le> w) \<and> sum_list (map snd weights) \<noteq> 0 \<and> dp s amount"
  using allocate_defined [OF assms] assms by (auto simp: valid_weights_def)

theorem allocation_defined_witness:
  "(\<nexists>shares. allocate (\<lambda>k. k) (1/3) thirds PENNY = Inr shares) \<and>
   (\<exists>shares. allocate (\<lambda>k. k) (-7) thirds PENNY = Inr shares)"
proof -
  have d: "distinct (map fst thirds)" by (simp add: thirds_def)
  have "\<not> dp 2 (1/3)" "dp 2 (-7)" by code_simp+
  then show ?thesis
    using allocation_defined [OF d, of "\<lambda>k. k" "1/3" 2] allocation_defined [OF d, of "\<lambda>k. k" "-7" 2]
    by (simp add: quantum_values) (simp add: thirds_def)
qed

text \<open>
  Who gets the odd cents does not depend on the order in which the database returns the
  commitments: permuting the weights permutes the shares.
\<close>

theorem allocation_order_insensitive:
  assumes "mset weights' = mset weights" and "inj_on key_str (fst ` set weights)" and "distinct (map fst weights)"
    and "allocate key_str amount weights q = Inr shares"
  shows "\<exists>shares'. allocate key_str amount weights' q = Inr shares' \<and> mset shares' = mset shares"
  using allocate_perm [OF assms(1-3), of amount q] assms(4)
  by (cases "allocate key_str amount weights' q") auto

section \<open>Capital calls\<close>

text \<open>
  C13: A capital call that returns moves exactly its total: cash goes up by the total, each LP's
  capital account goes down (is credited) by that LP's share, the shares add up to the total,
  and no other account of the database changes.
\<close>

theorem capital_call_moves_total:
  assumes "committed s" and "commitments_wf s" and "create_call (env, r) key h s = (Inr doc, s')"
    and "get_row (\<lambda>f. f_id f = cr_fund r) (db_funds s) = Inr fund" and "get_account fund AT_CASH None s = Inr cash"
  shows "\<exists>commitments shares. pro_rata fund (cr_total r) s = Inr (commitments, shares) \<and>
    sum_list (map snd shares) = cr_total r \<and>
    (\<forall>aid. native_balance s' aid None = native_balance s aid None + (if aid = a_id cash then cr_total r else 0)
       - share_on (lp_capital_accounts fund s) shares aid) \<and>
    (\<forall>(lp, a) \<in> set (lp_capital_accounts fund s).
       share_on (lp_capital_accounts fund s) shares (a_id a) = dict_get shares lp)"
proof -
  have "accounts_wf s" using assms(1) by (simp add: committed_def db_ok_def)
  with create_call_effect [OF assms(1-3)] assms(4,5) share_on_lp show ?thesis
    by (smt (verit) Inr_inject case_prodI2)
qed

theorem capital_call_moves_total_witness:
  "native_balance drawn_db 21 None = native_balance sample_db 21 None + 1000 \<and>
   native_balance drawn_db 23 None = native_balance sample_db 23 None - 33333/100"
proof -
  have "accounts_wf sample_db" using committed_sample by (simp add: committed_def db_ok_def)
  have row: "get_row (\<lambda>f. f_id f = cr_fund sample_call) (db_funds sample_db) = Inr sample_fund"
    using get_row_sample by (simp add: sample_call_def)
  from capital_call_moves_total [OF committed_sample commitments_wf_sample drawn row cash_sample] obtain commitments shares where
    sh: "pro_rata sample_fund 1000 sample_db = Inr (commitments, shares)" and
    eff: "\<And>aid. native_balance drawn_db aid None = native_balance sample_db aid None + (if aid = 21 then 1000 else 0)
       - share_on (lp_capital_accounts sample_fund sample_db) shares aid"
    by (auto simp: sample_call_def sample_account_def)
  have "shares = [(31, 66667/100), (32, 33333/100)]" using sh pro_rata_sample by simp
  then show ?thesis
    by (simp add: eff share_on_def lp_capital_accounts_sample sample_account_def)
qed

text \<open>
  C14: No LP is ever called for more than it committed: if in a state the capital-call
  contributions of every LP are within its commitment, they still are after a capital call.
\<close>

theorem calls_stay_within_commitments:
  assumes "committed s" and "commitments_wf s" and "within_commitments s" and "create_call (env, r) key h s = (Inr doc, s')"
  shows "within_commitments s'"
  by (rule create_call_within [OF assms])

theorem calls_stay_within_commitments_witness:
  "within_commitments drawn_db \<and> db_capital_calls drawn_db \<noteq> []"
proof -
  have "within_commitments sample_db" by code_simp
  from calls_stay_within_commitments [OF committed_sample commitments_wf_sample this drawn] show ?thesis
    by (simp add: drawn_db_def)
qed

text \<open>
  A call whose share for some LP exceeds what is left of that LP's commitment is refused as
  a whole, and nothing is written.
\<close>

theorem over_commitment_refused:
  assumes "get_row (\<lambda>f. f_id f = cr_fund r) (db_funds s) = Inr fund" and "period_for fund (cr_notice_date r) s = Inr p"
    and "pro_rata fund (cr_total r) s = Inr (commitments, shares)" and "accounts_wf s"
    and "\<forall>c \<in> set commitments. \<exists>a. (c_lp c, a) \<in> set (lp_capital_accounts fund s)"
    and "commitments_wf s" and "\<bar>cr_total r\<bar> < 10 ^ 24"
    and "c \<in> set commitments" and "(c_lp c, a) \<in> set (lp_capital_accounts fund s)"
    and "c_committed_amount c - contributed a s < dict_get shares (c_lp c)"
  shows "create_call (env, r) key h s = (Inl (LedgerErr CommitmentExceeded), s)"
proof -
  let ?f = "check_commitment shares (lp_capital_accounts fund s) (contributed_by_account (map snd (lp_capital_accounts fund s)) s)"
  note pr = pro_rata_Inr [OF assms(6,7,3)]
  have one: "?f d = ensure (\<not> c_committed_amount d - contributed b s < dict_get shares (c_lp d)) (LedgerErr CommitmentExceeded)"
    if "d \<in> set commitments" "(c_lp d, b) \<in> set (lp_capital_accounts fund s)" for d b
    using lp_account_lookup [OF assms(4) that(2)]
    by (rule check_commitment_value) (use pr(3) that(1) in \<open>metis image_eqI list.set_map\<close>)
  have "each ?f commitments = Inl (LedgerErr CommitmentExceeded)"
  proof (rule each_only_error [OF assms(8)])
    show "?f c \<noteq> Inr ()" using one [OF assms(8,9)] assms(10) by simp
    show "\<forall>d \<in> set commitments. ?f d = Inr () \<or> ?f d = Inl (LedgerErr CommitmentExceeded)"
    proof
      fix d assume d: "d \<in> set commitments"
      then obtain b where "(c_lp d, b) \<in> set (lp_capital_accounts fund s)" using assms(5) by blast
      from one [OF d this] show "?f d = Inr () \<or> ?f d = Inl (LedgerErr CommitmentExceeded)" by (simp add: ensure_def)
    qed
  qed
  with assms(1-3) show ?thesis by (simp add: create_call_def Let_def bind_act_def query_def)
qed

section \<open>Distributions\<close>

text \<open>
  C16: A distribution that returns pays out exactly its total: cash goes down by the total, each
  LP's capital account is debited with that LP's share, the shares add up to the total, and no
  other account of the database changes.
\<close>

theorem distribution_pays_total:
  assumes "committed s" and "commitments_wf s" and "create_payout (env, r) key h s = (Inr doc, s')"
    and "get_row (\<lambda>f. f_id f = dr_fund r) (db_funds s) = Inr fund" and "get_account fund AT_CASH None s = Inr cash"
  shows "\<exists>commitments shares. pro_rata fund (dr_total r) s = Inr (commitments, shares) \<and>
    sum_list (map snd shares) = dr_total r \<and>
    (\<forall>aid. native_balance s' aid None = native_balance s aid None - (if aid = a_id cash then dr_total r else 0)
       + share_on (lp_capital_accounts fund s) shares aid) \<and>
    (\<forall>(lp, a) \<in> set (lp_capital_accounts fund s).
       share_on (lp_capital_accounts fund s) shares (a_id a) = dict_get shares lp)"
proof -
  have "accounts_wf s" using assms(1) by (simp add: committed_def db_ok_def)
  with create_payout_effect [OF assms(1-3)] assms(4,5) share_on_lp show ?thesis
    by (smt (verit) Inr_inject case_prodI2)
qed

theorem distribution_pays_total_witness:
  "native_balance paid_db 21 None = native_balance charged_db 21 None - 300 \<and>
   native_balance paid_db 23 None = native_balance charged_db 23 None + 100"
proof -
  have lp: "lp_capital_accounts sample_fund charged_db = lp_capital_accounts sample_fund sample_db"
    by (simp add: lp_capital_accounts_def charged_tables)
  have row: "get_row (\<lambda>f. f_id f = dr_fund sample_payout) (db_funds charged_db) = Inr sample_fund"
    using get_row_sample by (simp add: sample_payout_def charged_tables)
  have cash: "get_account sample_fund AT_CASH None charged_db = Inr sample_cash"
    using cash_sample by (simp add: get_account_def account_by_code_def charged_tables)
  have cw: "commitments_wf charged_db" using commitments_wf_sample by (simp add: commitments_wf_def charged_tables)
  from distribution_pays_total [OF committed_charged cw paid row cash] obtain commitments shares where
    sh: "pro_rata sample_fund 300 charged_db = Inr (commitments, shares)" and
    eff: "\<And>aid. native_balance paid_db aid None = native_balance charged_db aid None - (if aid = 21 then 300 else 0)
       + share_on (lp_capital_accounts sample_fund charged_db) shares aid"
    by (auto simp: sample_payout_def sample_account_def)
  have "shares = [(31, 200), (32, 100)]" using sh pro_rata_payout by (simp add: pro_rata_def charged_tables)
  then show ?thesis
    by (simp add: eff share_on_def lp lp_capital_accounts_sample sample_account_def)
qed

section \<open>Documents exactly once\<close>

text \<open>
  C15: Whatever other sessions commit in between, a capital-call request that returns leaves one
  transfer with its key, recorded with the fingerprint of this request; the document it returns
  is stored and belongs to that transfer; and unless it was created now, this session wrote
  nothing.
\<close>

theorem capital_call_exactly_once:
  assumes "rely i1" and "rely i2" and "committed s"
    and "create_capital_call i1 i2 env key r s = (Inr (doc, created), s')"
  shows "\<exists>t. keyed key s' = [t] \<and> call_fingerprint env r = Inr (t_request_hash t) \<and>
    cc_transfer doc = t_id t \<and>
    (if created then keyed key s = [] \<and> doc = call_document env r (cc_call_number doc) t
     else doc \<in> set (db_capital_calls s') \<and> (s' = s \<or> s' = i2 (i1 s)))"
proof -
  from assms(4) obtain h where h: "call_fingerprint env r = Inr h"
    and run: "run_once i1 i2 key h (create_call (env, r) key h) (replay_call (env, r)) s = (Inr (doc, created), s')"
    by (auto simp: create_capital_call_def run_idempotent_def act)
  from call_once.run_exactly_once [OF assms(1-3) run] obtain t where t: "keyed key s' = [t]" "t_request_hash t = h"
    and d: "if created then keyed key s = [] \<and> create_call (env, r) key h (i1 s) = (Inr doc, s')
      else replay_call (env, r) t s' = (Inr doc, s') \<and> (s' = s \<or> s' = i2 (i1 s))" by blast
  show ?thesis
  proof (cases created)
    case True
    with d have "create_call (env, r) key h (i1 s) = (Inr doc, s')" by simp
    from create_call_document [OF this] obtain t' number where
      "keyed key s' = keyed key (i1 s) @ [t']" "doc = call_document env r number t'" by blast
    moreover from this(1) t(1) have "t' = t" by simp
    ultimately show ?thesis using t h d True by (auto simp: call_document_def)
  next
    case False
    with d have "get_row (\<lambda>c. cc_transfer c = t_id t) (db_capital_calls s') = Inr doc" by (simp add: replay_call_def act)
    with t h d False show ?thesis by (auto dest!: get_row_Inr)
  qed
qed

text \<open>The sample call, sent with a digest function that answers \<open>''h1''\<close>.\<close>

definition digest_env :: env where
  "digest_env = (sample_env 1)\<lparr>sha256_hex := \<lambda>_. ''h1''\<rparr>"

lemma call_requested: "create_capital_call id id digest_env ''call-1'' sample_call sample_db = (Inr (drawn_doc, True), drawn_db)"
  using call_requested_with [of "\<lambda>_. ''h1''"] by (simp add: digest_env_def)

theorem capital_call_exactly_once_witness:
  "\<exists>t. keyed ''call-1'' drawn_db = [t] \<and> cc_transfer drawn_doc = t_id t \<and> t_request_hash t = ''h1''"
proof -
  have "call_fingerprint digest_env sample_call = Inr h \<Longrightarrow> h = ''h1''" for h
    by (auto simp: call_fingerprint_def request_fingerprint_def digest_env_def)
  with capital_call_exactly_once [OF rely_id rely_id committed_sample call_requested] show ?thesis by blast
qed

section \<open>Progress\<close>

text \<open>
  C33: A posting that is well posed goes through: with legs on distinct rows that balance in the
  fund's currency, no account overdrawn, an open period, ids that are fresh and a key that is
  not in use, \<^verbatim>\<open>post\_transfer\<close> returns from every committed state; the transfer
  is the one with its key, its entries are those of the legs, in their order, and the
  state is committed.
\<close>

theorem well_posed_posting_goes_through:
  assumes "committed s" and "well_posed env po fund s"
  shows "\<exists>s'. post_transfer env po s = (Inr (new_transfer env po), s') \<and> committed s' \<and> step_ok s s' \<and>
    keyed (po_idempotency_key po) s' = [new_transfer env po] \<and>
    db_entries s' = db_entries s @ par_entries env (f_base_currency fund) (po_legs po)"
proof -
  let ?s' = "s\<lparr>db_transfers := db_transfers s @ [new_transfer env po],
      db_entries := db_entries s @ par_entries env (f_base_currency fund) (po_legs po), db_pending := []\<rparr>"
  have p: "post_transfer env po s = (Inr (new_transfer env po), ?s')" using well_posed_succeeds [OF assms] .
  have "keyed (po_idempotency_key po) s = []" using assms(2) by (auto simp: well_posed_def keyed_def filter_empty_conv image_iff)
  then have "keyed (po_idempotency_key po) ?s' = [new_transfer env po]" by (simp add: keyed_def new_transfer_def)
  with p post_transfer_committed [OF assms(1) p] show ?thesis by auto
qed

theorem well_posed_posting_goes_through_witness:
  "\<exists>s'. post_transfer (sample_env 1) drawing sample_db = (Inr (new_transfer (sample_env 1) drawing), s') \<and> committed s'"
  using well_posed_posting_goes_through [OF committed_sample drawing_posted_well_posed] by blast

end
