(* ===== verification/Sample_Statements.thy ===== *)
theory Sample_Statements
  imports Sample_Ledger Nav Posting_Succeeds
begin

text \<open>
  A fund with one LP, in its third quarter: it has paid in 1000.00 and was charged a management
  fee of 30.00, both in the second quarter.
\<close>

definition q3 :: period where
  "q3 = \<lparr>p_id = 13, p_fund = 1, p_start_date = Date 2024 7 1, p_end_date = Date 2024 9 30,
     p_status = OPEN, p_closed_at = None, p_closed_by = []\<rparr>"

definition solo_lp :: limited_partner where
  "solo_lp = \<lparr>lp_id = 31, lp_name = ''A'', lp_investor_type = PENSION\<rparr>"

definition solo_db :: db where
  "solo_db = empty_db\<lparr>
     db_funds := [sample_fund], db_lps := [solo_lp],
     db_commitments := [\<lparr>c_id = 41, c_fund = 1, c_lp = 31, c_committed_amount = 2000, c_signed_date = Date 2024 1 2\<rparr>],
     db_periods := [q1, q2, q3],
     db_accounts := [sample_account 21 ''CASH-USD'' AT_CASH None ''USD'',
       sample_account 22 ''LP-A'' AT_LP_CAPITAL (Some 31) ''USD'',
       sample_account 27 ''FEE_EXPENSE'' AT_FEE_EXPENSE None ''USD'']\<rparr>"

definition solo_call :: posting where
  "solo_call = service_posting ''k1'' [plain_leg 21 DEBIT 1000, plain_leg 22 CREDIT 1000] q2 TT_CAPITAL_CALL [] None"

definition solo_fee :: posting where
  "solo_fee = service_posting ''k2'' [plain_leg 27 DEBIT 30, plain_leg 21 CREDIT 30] q2 TT_FEE [] None"

definition solo_called :: db where
  "solo_called = solo_db\<lparr>db_transfers := [new_transfer (sample_env 1) solo_call],
     db_entries := par_entries (sample_env 1) ''USD'' (po_legs solo_call), db_pending := []\<rparr>"

definition solo_charged :: db where
  "solo_charged = solo_called\<lparr>db_transfers := db_transfers solo_called @ [new_transfer (sample_env 2) solo_fee],
     db_entries := db_entries solo_called @ par_entries (sample_env 2) ''USD'' (po_legs solo_fee), db_pending := []\<rparr>"

lemma committed_solo: "committed solo_db"
proof -
  have "transfers_wf solo_db" "entries_wf solo_db" by code_simp+
  moreover have "periods_wf solo_db" "accounts_wf solo_db" by code_simp+
  moreover have "db_entries solo_db = []" "db_pending solo_db = []" by code_simp+
  ultimately show ?thesis by (simp add: committed_def db_ok_def balances_def imbalance_def entries_of_def)
qed

lemma solo_call_well_posed: "well_posed (sample_env 1) solo_call sample_fund solo_db"
  by code_simp

lemma solo_called_posted: "post_transfer (sample_env 1) solo_call solo_db = (Inr (new_transfer (sample_env 1) solo_call), solo_called)"
  using well_posed_succeeds [OF committed_solo solo_call_well_posed]
  by (simp add: solo_called_def sample_fund_def) (simp add: solo_db_def empty_db_def)

lemma committed_solo_called: "committed solo_called"
  using post_transfer_committed [OF committed_solo solo_called_posted] by simp

lemma solo_fee_well_posed: "well_posed (sample_env 2) solo_fee sample_fund solo_called"
  by code_simp

lemma solo_charged_posted: "post_transfer (sample_env 2) solo_fee solo_called = (Inr (new_transfer (sample_env 2) solo_fee), solo_charged)"
  using well_posed_succeeds [OF committed_solo_called solo_fee_well_posed]
  by (simp add: solo_charged_def sample_fund_def)

lemma committed_solo_charged: "committed solo_charged"
  using post_transfer_committed [OF committed_solo_called solo_charged_posted] by simp

text \<open>The runs of the statement, step by step.\<close>

lemma period_movement_run:
  assumes "fund_total fund p AT_GAIN_LOSS s = g" and "fund_total fund p AT_FEE_EXPENSE s = f"
    and "allocate uuid_str (- g) w FOUR_DP = Inr gs" and "map_of gs lp = Some x"
    and "allocate uuid_str f w FOUR_DP = Inr fs" and "map_of fs lp = Some y"
    and "lp_ledger_movement a p s = m"
  shows "period_movement fund w lp a s p = Inr (m\<lparr>mv_allocated_gains := x, mv_allocated_fees := y\<rparr>)"
  using assms by (simp add: period_movement_def lookup_def)

lemma lp_statement_run:
  assumes "lp_id lp = i" and "p_id p = pid" and "weights_of fund s = w" and "map_of w i \<noteq> None"
    and "map_of (lp_capital_accounts fund s) i = Some a" and "periods_through fund p s = ps"
    and "statement_loop (period_movement fund w i a s) pid ps (0, 0, no_movement) = Inr (opn, to_date, m)"
  shows "\<exists>st. lp_statement fund lp p s = Inr st \<and> st_opening_balance st = opn \<and> st_closing_balance st = opn + movement_net m"
  using assms by (auto simp: lp_statement_def weights_of_def lookup_def Let_def)

lemma solo_lookups:
  "weights_of sample_fund solo_charged = [(31, 2000)]"
  "lp_capital_accounts sample_fund solo_charged = [(31, sample_account 22 ''LP-A'' AT_LP_CAPITAL (Some 31) ''USD'')]"
  "periods_through sample_fund q2 solo_charged = [q1, q2]" "periods_through sample_fund q3 solo_charged = [q1, q2, q3]"
  by code_simp+

lemma solo_totals:
  "map (\<lambda>p. fund_total sample_fund p AT_GAIN_LOSS solo_charged) [q1, q2, q3] = [0, 0, 0]"
  "map (\<lambda>p. fund_total sample_fund p AT_FEE_EXPENSE solo_charged) [q1, q2, q3] = [0, 30, 0]"
  by code_simp+

lemma solo_movements:
  "map (\<lambda>p. lp_ledger_movement (sample_account 22 ''LP-A'' AT_LP_CAPITAL (Some 31) ''USD'') p solo_charged) [q1, q2, q3] =
     [no_movement, no_movement\<lparr>mv_contributions := 1000\<rparr>, no_movement]"
  by code_simp

lemma solo_allocated:
  "allocate uuid_str 0 [(31, 2000)] FOUR_DP = Inr [(31, 0)]" "allocate uuid_str 30 [(31, 2000)] FOUR_DP = Inr [(31, 30)]"
  by code_simp+

lemma solo_period_movements:
  "period_movement sample_fund [(31, 2000)] 31 (sample_account 22 ''LP-A'' AT_LP_CAPITAL (Some 31) ''USD'') solo_charged q1 = Inr no_movement"
  "period_movement sample_fund [(31, 2000)] 31 (sample_account 22 ''LP-A'' AT_LP_CAPITAL (Some 31) ''USD'') solo_charged q2 =
     Inr (no_movement\<lparr>mv_contributions := 1000, mv_allocated_fees := 30\<rparr>)"
  "period_movement sample_fund [(31, 2000)] 31 (sample_account 22 ''LP-A'' AT_LP_CAPITAL (Some 31) ''USD'') solo_charged q3 = Inr no_movement"
  using solo_totals solo_movements
  by (simp_all add: period_movement_run [where gs = "[(31, 0)]" and g = 0] solo_allocated no_movement_def)

abbreviation solo_capital :: account where
  "solo_capital \<equiv> sample_account 22 ''LP-A'' AT_LP_CAPITAL (Some 31) ''USD''"

lemma solo_loops:
  "statement_loop (period_movement sample_fund [(31, 2000)] 31 solo_capital solo_charged) 12 [q1, q2] (0, 0, no_movement) =
     Inr (0, 1000, no_movement\<lparr>mv_contributions := 1000, mv_allocated_fees := 30\<rparr>)"
  "statement_loop (period_movement sample_fund [(31, 2000)] 31 solo_capital solo_charged) 13 [q1, q2, q3] (0, 0, no_movement) =
     Inr (970, 1000, no_movement)"
proof -
  have "p_id q1 = 11" "p_id q2 = 12" "p_id q3 = 13" by (simp_all add: q1_def q2_def q3_def)
  then show
    "statement_loop (period_movement sample_fund [(31, 2000)] 31 solo_capital solo_charged) 12 [q1, q2] (0, 0, no_movement) =
       Inr (0, 1000, no_movement\<lparr>mv_contributions := 1000, mv_allocated_fees := 30\<rparr>)"
    "statement_loop (period_movement sample_fund [(31, 2000)] 31 solo_capital solo_charged) 13 [q1, q2, q3] (0, 0, no_movement) =
       Inr (970, 1000, no_movement)"
    by (simp_all add: solo_period_movements) (simp_all add: no_movement_def movement_net_def)
qed

lemma solo_statements:
  "\<exists>st. lp_statement sample_fund solo_lp q2 solo_charged = Inr st \<and> st_opening_balance st = 0 \<and> st_closing_balance st = 970"
  "\<exists>st. lp_statement sample_fund solo_lp q3 solo_charged = Inr st \<and> st_opening_balance st = 970 \<and> st_closing_balance st = 970"
proof -
  have id: "lp_id solo_lp = 31" "p_id q2 = 12" "p_id q3 = 13" by (simp_all add: solo_lp_def q2_def q3_def)
  have net: "movement_net (no_movement\<lparr>mv_contributions := 1000, mv_allocated_fees := 30\<rparr>) = 970" "movement_net no_movement = 0"
    by (simp_all add: movement_net_def no_movement_def)
  have a: "map_of (lp_capital_accounts sample_fund solo_charged) 31 = Some solo_capital"
    by (simp add: solo_lookups)
  show "\<exists>st. lp_statement sample_fund solo_lp q2 solo_charged = Inr st \<and> st_opening_balance st = 0 \<and> st_closing_balance st = 970"
    using lp_statement_run [OF id(1,2) solo_lookups(1) _ a solo_lookups(3) solo_loops(1)] net by simp
  show "\<exists>st. lp_statement sample_fund solo_lp q3 solo_charged = Inr st \<and> st_opening_balance st = 970 \<and> st_closing_balance st = 970"
    using lp_statement_run [OF id(1,3) solo_lookups(1) _ a solo_lookups(4) solo_loops(2)] net by simp
qed

end
