(* ===== verification/Reporting_Properties.thy ===== *)
theory Reporting_Properties
  imports Sample_Operations Sample_Statements
begin

text \<open>
  The properties of periods, the chart of accounts, statements and NAV, each with its
  application to the sample fund.
\<close>

section \<open>Closing a period\<close>



text \<open>
  C20: Periods are closed from the earliest on: if in a state no period of a fund is closed while
  an earlier one is open, that still holds after any request to close a period, refused or not.
\<close>

theorem periods_close_in_order:
  assumes "committed s" and "closed_in_order s" and "close_period env fid pid by s = (r, s')"
  shows "closed_in_order s'"
  by (rule closed_in_order_close [OF _ assms(2,3)]) (use assms(1) in \<open>simp add: committed_def db_ok_def\<close>)

theorem periods_close_in_order_witness:
  "closed_in_order (snd (close_period (sample_env 7) 1 12 ''ops'' sample_db)) \<and>
   fst (close_period (sample_env 7) 1 12 ''ops'' sample_db) =
     Inr (q2\<lparr>p_status := CLOSED, p_closed_at := Some 7, p_closed_by := ''ops''\<rparr>, True)"
proof -
  have "closed_in_order sample_db" by code_simp
  moreover have "close_period (sample_env 7) 1 12 ''ops'' sample_db =
      (fst (close_period (sample_env 7) 1 12 ''ops'' sample_db), snd (close_period (sample_env 7) 1 12 ''ops'' sample_db))"
    by simp
  ultimately have "closed_in_order (snd (close_period (sample_env 7) 1 12 ''ops'' sample_db))"
    by (rule periods_close_in_order [OF committed_sample])
  moreover have "fst (close_period (sample_env 7) 1 12 ''ops'' sample_db) =
      Inr (q2\<lparr>p_status := CLOSED, p_closed_at := Some 7, p_closed_by := ''ops''\<rparr>, True)" by code_simp
  ultimately show ?thesis by simp
qed

section \<open>Funds\<close>

text \<open>
  C21: Money does not cross funds: if every entry is on an account of the fund of its period, a
  posting keeps it so, given a period object that has the fund its row has.
\<close>

theorem postings_keep_funds_apart:
  assumes "committed s" and "funds_separate s"
    and "find_period s (p_id (po_period po)) = Some q" and "p_fund q = p_fund (po_period po)"
    and "post_transfer env po s = (Inr t, s')"
  shows "funds_separate s'"
  by (rule post_transfer_separate [OF assms])

theorem postings_keep_funds_apart_witness: "funds_separate called_db \<and> db_entries called_db \<noteq> []"
proof -
  have "funds_separate sample_db" by code_simp
  moreover have "find_period sample_db (p_id (po_period call_posting)) = Some q2" "p_fund q2 = p_fund (po_period call_posting)"
    by code_simp+
  ultimately have "funds_separate called_db"
    by (rule postings_keep_funds_apart [OF committed_sample]) (rule call_posted)
  moreover have "db_entries called_db \<noteq> []" by code_simp
  ultimately show ?thesis by simp
qed

section \<open>The chart of accounts\<close>

text \<open>
  Asking for an account is idempotent: once it has returned, asking again, with any clock
  and any new identifier, returns the same account and changes nothing; and an account that
  is found by type and currency under a well-formed chart has that type.
\<close>

theorem accounts_are_get_or_create:
  assumes "ensure_account env aid fund ty currency s = (Inr a, s')" and "chart_ok s"
  shows "ensure_account env' aid' fund ty currency s' = (Inr a, s') \<and> chart_ok s' \<and>
    get_account fund ty currency s' = Inr a \<and> a_account_type a = ty"
proof -
  have ok: "chart_ok s'" using ensure_account_chart [OF assms(2,1)] .
  from assms(1) obtain code where "account_code ty (or_base fund currency) None = Inr code" "account_by_code fund code s' = Inr a"
    by (rule ensure_account_Inr)
  then have "get_account fund ty currency s' = Inr a" by (simp add: get_account_def)
  with ok show ?thesis using ensure_account_again [OF assms(1)] get_account_type by blast
qed

definition swiss :: account where
  "swiss = \<lparr>a_id = 310, a_fund = 1, a_code = ''CASH-CHF'', a_account_type = AT_CASH, a_owner_lp = None,
     a_currency = ''CHF'', a_created_at = 1\<rparr>"

section \<open>Statements and NAV\<close>

text \<open>
  Statements chain: an LP's opening balance in a period is its closing balance of the period
  before, although each statement is recomputed from the whole history.
\<close>

theorem statements_chain:
  assumes "periods_wf s" and "p \<in> set (db_periods s)" and "p_fund p = f_id fund"
    and "q \<in> set (db_periods s)" and "p_fund q = f_id fund" and "p_start_date p < p_start_date q"
    and "\<forall>x \<in> set (db_periods s). p_fund x = f_id fund \<longrightarrow>
        p_start_date x \<le> p_start_date p \<or> p_start_date q \<le> p_start_date x"
    and "lp_statement fund lp p s = Inr stp" and "lp_statement fund lp q s = Inr stq"
  shows "st_opening_balance stq = st_closing_balance stp"
  by (rule statement_continues [OF assms])

theorem statements_chain_witness:
  "\<exists>stp stq. lp_statement sample_fund solo_lp q2 solo_charged = Inr stp \<and> lp_statement sample_fund solo_lp q3 solo_charged = Inr stq \<and>
     st_closing_balance stp = 970 \<and> st_opening_balance stq = st_closing_balance stp"
proof -
  obtain stp stq where st: "lp_statement sample_fund solo_lp q2 solo_charged = Inr stp" "st_closing_balance stp = 970"
    "lp_statement sample_fund solo_lp q3 solo_charged = Inr stq"
    using solo_statements by blast
  have ps: "db_periods solo_charged = [q1, q2, q3]" by (simp add: solo_charged_def solo_called_def solo_db_def)
  have "st_opening_balance stq = st_closing_balance stp"
  proof (rule statements_chain [OF _ _ _ _ _ _ _ st(1,3)])
    show "periods_wf solo_charged" using committed_solo_charged by (simp add: committed_def db_ok_def)
  qed (simp_all add: ps, simp_all add: q1_def q2_def q3_def sample_fund_def less_eq_date_def less_date_def)
  with st show ?thesis by blast
qed



end
