(* ===== verification/Access.thy ===== *)
theory Access
  imports Operations
begin

text \<open>
  \<^verbatim>\<open>access/models.py\<close>, \<^verbatim>\<open>access/keys.py\<close>,
  \<^verbatim>\<open>access/authentication.py\<close> and \<^verbatim>\<open>access/permissions.py\<close>: users,
  fund memberships, API keys, and the two questions asked of every request: who is calling, and
  what is the caller's role on the fund it touches. The state is the ledger's database together
  with the tables of the access application.
\<close>

section \<open>access/models.py\<close>

datatype role = ROLE_LP | ROLE_VIEWER | ROLE_OPERATOR | ROLE_CONTROLLER

fun ROLE_RANK :: "role \<Rightarrow> nat" where
  "ROLE_RANK ROLE_LP = 0"
| "ROLE_RANK ROLE_VIEWER = 1"
| "ROLE_RANK ROLE_OPERATOR = 2"
| "ROLE_RANK ROLE_CONTROLLER = 3"

text \<open>What the code uses of \<^verbatim>\<open>django.contrib.auth\<close>'s user.\<close>

record user =
  u_id :: nat
  u_username :: string
  u_is_active :: bool

record fund_membership =
  m_id :: uuid
  m_user :: nat
  m_fund :: uuid
  m_role :: role
  m_lp :: "uuid option"
  m_created_at :: timestamp

record api_key =
  k_id :: uuid
  k_user :: nat
  k_name :: string
  k_prefix :: string
  k_key_hash :: string
  k_created_at :: timestamp
  k_expires_at :: "timestamp option"
  k_revoked_at :: "timestamp option"
  k_last_used_at :: "timestamp option"

record site =
  site_db :: db
  site_users :: "user list"
  site_memberships :: "fund_membership list"
  site_keys :: "api_key list"

text \<open>
  What a request or a command can raise: the program's exceptions, REST framework's, and
  \<^verbatim>\<open>CommandError\<close>.
\<close>

datatype fault =
    Program exn
  | NotAuthenticated
  | AuthenticationFailed string
  | PermissionDenied
  | NotFound
  | Throttled
  | ValidationError string
  | ParseError
  | CommandError string
  | RuntimeErr
  | MethodNotAllowed

type_synonym 'a site_op = "(site, fault, 'a) act"

text \<open>An operation of the ledger, in the site.\<close>

definition on_db :: "'a op \<Rightarrow> 'a site_op" where
  "on_db m = (\<lambda>s. case m (site_db s) of
       (Inl e, d) \<Rightarrow> (Inl (Program e), s\<lparr>site_db := d\<rparr>)
     | (Inr x, d) \<Rightarrow> (Inr x, s\<lparr>site_db := d\<rparr>))"

subsection \<open>Rows of access\_fundmembership and access\_apikey\<close>

definition membership_check :: "role \<Rightarrow> uuid option \<Rightarrow> bool" where
  "membership_check r lp \<longleftrightarrow> (r = ROLE_LP \<and> lp \<noteq> None) \<or> (r \<noteq> ROLE_LP \<and> lp = None)"

definition insert_membership :: "fund_membership \<Rightarrow> unit site_op" where
  "insert_membership m =
     bind_act (query (\<lambda>s. checks
       [(membership_check (m_role m) (m_lp m), Program (IntegrityErr ''membership_lp_iff_lp_role'')),
        (m_id m \<notin> set (map m_id (site_memberships s)), Program (IntegrityErr ''access_fundmembership_pkey'')),
        (\<forall>n \<in> set (site_memberships s). (m_user n, m_fund n) \<noteq> (m_user m, m_fund m),
           Program (IntegrityErr ''membership_one_per_user_fund'')),
        (m_user m \<in> set (map u_id (site_users s)), Program (IntegrityErr ''access_fundmembership_user_id_fk'')),
        (m_fund m \<in> set (map f_id (db_funds (site_db s))), Program (IntegrityErr ''access_fundmembership_fund_id_fk'')),
        (case m_lp m of None \<Rightarrow> True | Some lp \<Rightarrow> lp \<in> set (map lp_id (db_lps (site_db s))),
           Program (IntegrityErr ''access_fundmembership_lp_id_fk''))])) (\<lambda>_.
     modify (\<lambda>s. s\<lparr>site_memberships := site_memberships s @ [m]\<rparr>))"

text \<open>Role and LP of the row of a user and a fund.\<close>

definition update_membership :: "fund_membership \<Rightarrow> unit site_op" where
  "update_membership m =
     bind_act (query (\<lambda>s. checks
       [(membership_check (m_role m) (m_lp m), Program (IntegrityErr ''membership_lp_iff_lp_role'')),
        (case m_lp m of None \<Rightarrow> True | Some lp \<Rightarrow> lp \<in> set (map lp_id (db_lps (site_db s))),
           Program (IntegrityErr ''access_fundmembership_lp_id_fk''))])) (\<lambda>_.
     modify (\<lambda>s. s\<lparr>site_memberships := map (\<lambda>n. if m_id n = m_id m then m else n) (site_memberships s)\<rparr>))"

definition hex_digit :: "char \<Rightarrow> bool" where
  "hex_digit c \<longleftrightarrow> (CHR ''0'' \<le> c \<and> c \<le> CHR ''9'') \<or> (CHR ''a'' \<le> c \<and> c \<le> CHR ''f'')"

definition insert_api_key :: "api_key \<Rightarrow> unit site_op" where
  "insert_api_key k =
     bind_act (query (\<lambda>s. checks
       [(length (k_name k) \<le> 100 \<and> length (k_prefix k) \<le> 12 \<and> length (k_key_hash k) \<le> 64, Program DataErr),
        (length (k_key_hash k) = 64 \<and> list_all hex_digit (k_key_hash k), Program (IntegrityErr ''apikey_hash_is_sha256'')),
        (k_id k \<notin> set (map k_id (site_keys s)), Program (IntegrityErr ''access_apikey_pkey'')),
        (k_prefix k \<notin> set (map k_prefix (site_keys s)), Program (IntegrityErr ''apikey_prefix_unique'')),
        (k_user k \<in> set (map u_id (site_users s)), Program (IntegrityErr ''access_apikey_user_id_fk''))])) (\<lambda>_.
     modify (\<lambda>s. s\<lparr>site_keys := site_keys s @ [k]\<rparr>))"

section \<open>access/keys.py\<close>

text \<open>
  What \<^verbatim>\<open>secrets\<close> and \<^verbatim>\<open>uuid4\<close> draw: 12 hexadecimal digits, and 43
  characters of the URL-safe alphabet.
\<close>

record draw =
  dr_prefix :: string
  dr_secret :: string
  dr_id :: uuid

definition KEY_PREFIX :: string where
  "KEY_PREFIX = ''fl_''"

text \<open>A minute, in microseconds.\<close>

definition TOUCH_INTERVAL :: int where
  "TOUCH_INTERVAL = 60 * 1000000"

definition digest :: "env \<Rightarrow> string \<Rightarrow> string" where
  "digest env secret = sha256_hex env secret"

definition issue_key :: "env \<Rightarrow> draw \<Rightarrow> user \<Rightarrow> string \<Rightarrow> timestamp option \<Rightarrow> (api_key \<times> string) site_op" where
  "issue_key env d u name expires_at =
     (let k = \<lparr>k_id = dr_id d, k_user = u_id u, k_name = name, k_prefix = dr_prefix d,
               k_key_hash = digest env (dr_secret d), k_created_at = now env, k_expires_at = expires_at,
               k_revoked_at = None, k_last_used_at = None\<rparr>
      in bind_act (insert_api_key k) (\<lambda>_. ret (k, KEY_PREFIX @ dr_prefix d @ ''.'' @ dr_secret d)))"

text \<open>\<^verbatim>\<open>s.partition(".")\<close>: the second component says whether a dot was found.\<close>

definition partition_dot :: "string \<Rightarrow> string \<times> bool \<times> string" where
  "partition_dot s = (takeWhile (\<lambda>c. c \<noteq> CHR ''.'') s, CHR ''.'' \<in> set s, tl (dropWhile (\<lambda>c. c \<noteq> CHR ''.'') s))"

definition find_user :: "site \<Rightarrow> nat \<Rightarrow> user option" where
  "find_user s uid = find (\<lambda>u. u_id u = uid) (site_users s)"

definition live_key :: "env \<Rightarrow> site \<Rightarrow> api_key \<Rightarrow> string \<Rightarrow> bool" where
  "live_key env s k secret \<longleftrightarrow>
     k_key_hash k = digest env secret \<and> k_revoked_at k = None \<and>
     (case k_expires_at k of None \<Rightarrow> True | Some t \<Rightarrow> \<not> t \<le> now env) \<and>
     (case find_user s (k_user k) of None \<Rightarrow> False | Some u \<Rightarrow> u_is_active u)"

definition verify_key :: "env \<Rightarrow> string \<Rightarrow> site \<Rightarrow> api_key option" where
  "verify_key env raw s =
     (if take 3 raw \<noteq> KEY_PREFIX then None
      else let (prefix, dot, secret) = partition_dot (drop 3 raw)
           in if \<not> (dot \<and> prefix \<noteq> [] \<and> secret \<noteq> []) then None
              else case first_row (sort_key k_id (filter (\<lambda>k. k_prefix k = prefix) (site_keys s))) of
                     None \<Rightarrow> None
                   | Some k \<Rightarrow> if live_key env s k secret then Some k else None)"

definition record_use :: "env \<Rightarrow> api_key \<Rightarrow> unit site_op" where
  "record_use env k =
     (if (case k_last_used_at k of None \<Rightarrow> True | Some t \<Rightarrow> now env - t > TOUCH_INTERVAL)
      then modify (\<lambda>s. s\<lparr>site_keys := map (\<lambda>j. if k_id j = k_id k then j\<lparr>k_last_used_at := Some (now env)\<rparr> else j) (site_keys s)\<rparr>)
      else ret ())"

section \<open>access/authentication.py\<close>

text \<open>
  The bytes of a header as characters; \<^verbatim>\<open>bytes.split()\<close> on ASCII whitespace;
  \<^verbatim>\<open>bytes.lower()\<close>.
\<close>

definition ascii_space :: "char \<Rightarrow> bool" where
  "ascii_space c \<longleftrightarrow> c \<in> {CHR '' '', CHR 0x09, CHR 0x0A, CHR 0x0B, CHR 0x0C, CHR 0x0D}"

fun split_words :: "string \<Rightarrow> string \<Rightarrow> string list" where
  "split_words w [] = (if w = [] then [] else [w])"
| "split_words w (c # cs) =
     (if ascii_space c then (if w = [] then [] else [w]) @ split_words [] cs
      else split_words (w @ [c]) cs)"

definition lower_char :: "char \<Rightarrow> char" where
  "lower_char c = (if CHR ''A'' \<le> c \<and> c \<le> CHR ''Z'' then char_of (of_char c + (32 :: nat)) else c)"

definition authenticate :: "env \<Rightarrow> string \<Rightarrow> (user \<times> api_key) option site_op" where
  "authenticate env header =
     (case split_words [] header of
        [] \<Rightarrow> ret None
      | scheme # rest \<Rightarrow>
          if map lower_char scheme \<noteq> ''bearer'' then ret None
          else case rest of
                 [raw] \<Rightarrow>
                   if \<exists>c \<in> set raw. (128 :: nat) \<le> of_char c then raise (AuthenticationFailed ''Malformed API key.'')
                   else bind_act (query (\<lambda>s. Inr (verify_key env raw s))) (\<lambda>found.
                     case found of
                       None \<Rightarrow> raise (AuthenticationFailed ''Invalid, expired or revoked API key.'')
                     | Some k \<Rightarrow>
                         bind_act (record_use env k) (\<lambda>_.
                         bind_act (query (\<lambda>s. case find_user s (k_user k) of
                             None \<Rightarrow> Inl (Program DoesNotExist) | Some u \<Rightarrow> Inr u)) (\<lambda>u.
                         ret (Some (u, k)))))
               | _ \<Rightarrow> raise (AuthenticationFailed ''Malformed Authorization header.''))"

section \<open>access/permissions.py\<close>

text \<open>\<open>fund_of\<close> is the view's \<^verbatim>\<open>get_fund_id\<close>.\<close>

definition has_permission :: "user option \<Rightarrow> (db \<Rightarrow> fault + uuid) \<Rightarrow> role \<Rightarrow> site \<Rightarrow> fault + (bool \<times> fund_membership option)" where
  "has_permission caller fund_of required s =
     (case caller of
        None \<Rightarrow> Inr (False, None)
      | Some u \<Rightarrow>
          rbind (fund_of (site_db s)) (\<lambda>fid.
            case first_row (sort_key m_id (filter (\<lambda>m. m_user m = u_id u \<and> m_fund m = fid) (site_memberships s))) of
              None \<Rightarrow> Inl NotFound
            | Some m \<Rightarrow> Inr (ROLE_RANK required \<le> ROLE_RANK (m_role m), Some m)))"

text \<open>
  What REST framework does with the answer: 401 for a caller without credentials, 403 for one
  with; the membership stays with the request.
\<close>

definition check_permissions :: "user option \<Rightarrow> (db \<Rightarrow> fault + uuid) \<Rightarrow> role \<Rightarrow> site \<Rightarrow> fault + fund_membership" where
  "check_permissions caller fund_of required s =
     rbind (has_permission caller fund_of required s) (\<lambda>(allowed, membership).
       if \<not> allowed then Inl (if caller = None then NotAuthenticated else PermissionDenied)
       else case membership of None \<Rightarrow> Inl RuntimeErr | Some m \<Rightarrow> Inr m)"

definition membership_of :: "fund_membership option \<Rightarrow> fault + fund_membership" where
  "membership_of attribute = (case attribute of None \<Rightarrow> Inl RuntimeErr | Some m \<Rightarrow> Inr m)"

section \<open>Well-formed access tables\<close>

definition access_wf :: "site \<Rightarrow> bool" where
  "access_wf s \<longleftrightarrow>
     distinct (map u_id (site_users s)) \<and> distinct (map u_username (site_users s)) \<and>
     distinct (map m_id (site_memberships s)) \<and> distinct (map (\<lambda>m. (m_user m, m_fund m)) (site_memberships s)) \<and>
     (\<forall>m \<in> set (site_memberships s). membership_check (m_role m) (m_lp m)) \<and>
     distinct (map k_id (site_keys s)) \<and> distinct (map k_prefix (site_keys s)) \<and>
     (\<forall>k \<in> set (site_keys s). length (k_key_hash k) = 64 \<and> list_all hex_digit (k_key_hash k))"

lemma on_db_Inr [act]: "on_db m s = (Inr x, s') \<longleftrightarrow> (\<exists>d. m (site_db s) = (Inr x, d) \<and> s' = s\<lparr>site_db := d\<rparr>)"
  by (auto simp: on_db_def split: prod.splits sum.splits)

lemma on_db_Inl [act]: "on_db m s = (Inl e, s') \<longleftrightarrow> (\<exists>e' d. m (site_db s) = (Inl e', d) \<and> e = Program e' \<and> s' = s\<lparr>site_db := d\<rparr>)"
  by (auto simp: on_db_def split: prod.splits sum.splits)

lemma access_wf_on_db [keeps_intros]: "keeps access_wf (on_db m)"
  by (rule keepsI) (auto simp: on_db_def access_wf_def split: prod.splits sum.splits)

lemma access_wf_insert_membership [keeps_intros]: "keeps access_wf (insert_membership m)"
proof (rule keepsI)
  fix s r s' assume "access_wf s" "insert_membership m s = (r, s')"
  then show "access_wf s'"
    by (cases r) (auto simp: insert_membership_def act access_wf_def image_iff)
qed

lemma access_wf_insert_api_key [keeps_intros]: "keeps access_wf (insert_api_key k)"
proof (rule keepsI)
  fix s r s' assume "access_wf s" "insert_api_key k s = (r, s')"
  then show "access_wf s'"
    by (cases r) (auto simp: insert_api_key_def act access_wf_def image_iff)
qed

lemma access_wf_issue_key [keeps_intros]: "keeps access_wf (issue_key env d u name e)"
  unfolding issue_key_def Let_def by (intro keeps_intros)

text \<open>Updates of keys that leave identity, prefix and hash alone.\<close>

lemma access_wf_update_keys:
  assumes wf: "access_wf s" and g: "\<And>j. k_id (g j) = k_id j \<and> k_prefix (g j) = k_prefix j \<and> k_key_hash (g j) = k_key_hash j"
  shows "access_wf (s\<lparr>site_keys := map g (site_keys s)\<rparr>)"
proof -
  have "map k_id (map g (site_keys s)) = map k_id (site_keys s)"
    "map k_prefix (map g (site_keys s)) = map k_prefix (site_keys s)" using g by auto
  with wf g show ?thesis by (simp add: access_wf_def del: map_map)
qed

lemma access_wf_record_use [keeps_intros]: "keeps access_wf (record_use env k)"
proof (rule keepsI)
  fix s r s' assume "access_wf s" "record_use env k s = (r, s')"
  then show "access_wf s'"
    by (cases "s' = s") (auto simp: record_use_def act split: if_splits intro!: access_wf_update_keys)
qed

section \<open>Keys\<close>

lemma partition_dot_append: "CHR ''.'' \<notin> set p \<Longrightarrow> partition_dot (p @ ''.'' @ q) = (p, True, q)"
  by (induction p) (auto simp: partition_dot_def)

lemma partition_dot_found: "partition_dot s = (p, True, q) \<longleftrightarrow> s = p @ ''.'' @ q \<and> CHR ''.'' \<notin> set p"
proof
  assume "partition_dot s = (p, True, q)"
  then have p: "p = takeWhile (\<lambda>c. c \<noteq> CHR ''.'') s" and d: "CHR ''.'' \<in> set s"
    and q: "q = tl (dropWhile (\<lambda>c. c \<noteq> CHR ''.'') s)" by (auto simp: partition_dot_def)
  from d have "dropWhile (\<lambda>c. c \<noteq> CHR ''.'') s \<noteq> []" by simp
  then have "dropWhile (\<lambda>c. c \<noteq> CHR ''.'') s = CHR ''.'' # q"
    using hd_dropWhile [of "\<lambda>c. c \<noteq> CHR ''.''" s] q by (cases "dropWhile (\<lambda>c. c \<noteq> CHR ''.'') s") auto
  then show "s = p @ ''.'' @ q \<and> CHR ''.'' \<notin> set p"
    using takeWhile_dropWhile_id [of "\<lambda>c. c \<noteq> CHR ''.''" s] set_takeWhileD [of _ "\<lambda>c. c \<noteq> CHR ''.''" s] p by auto
next
  assume "s = p @ ''.'' @ q \<and> CHR ''.'' \<notin> set p"
  then show "partition_dot s = (p, True, q)" using partition_dot_append by blast
qed

lemma key_by_prefix:
  assumes "access_wf s" and "k \<in> set (site_keys s)"
  shows "filter (\<lambda>j. k_prefix j = k_prefix k) (site_keys s) = [k]"
  using assms by (auto simp: access_wf_def intro!: filter_distinct_unique)

text \<open>Exactly what it takes to be let in.\<close>

lemma verify_key_iff:
  assumes "access_wf s"
  shows "verify_key env raw s = Some k \<longleftrightarrow>
    k \<in> set (site_keys s) \<and> (\<exists>secret. raw = KEY_PREFIX @ k_prefix k @ ''.'' @ secret \<and> secret \<noteq> [] \<and>
      k_prefix k \<noteq> [] \<and> CHR ''.'' \<notin> set (k_prefix k) \<and> live_key env s k secret)"
proof
  assume v: "verify_key env raw s = Some k"
  obtain prefix dot secret where pd: "partition_dot (drop 3 raw) = (prefix, dot, secret)" by (cases "partition_dot (drop 3 raw)")
  with v have pre: "take 3 raw = KEY_PREFIX" and ok: "dot" "prefix \<noteq> []" "secret \<noteq> []"
    and row: "first_row (sort_key k_id (filter (\<lambda>j. k_prefix j = prefix) (site_keys s))) = Some k"
    and live: "live_key env s k secret"
    by (auto simp: verify_key_def Let_def split: if_splits option.splits)
  have k: "k \<in> set (site_keys s)" "k_prefix k = prefix" using first_row_Some [OF row] by auto
  have "drop 3 raw = prefix @ ''.'' @ secret" "CHR ''.'' \<notin> set prefix" using pd ok(1) partition_dot_found by auto
  moreover have "raw = take 3 raw @ drop 3 raw" by simp
  ultimately show "k \<in> set (site_keys s) \<and> (\<exists>secret. raw = KEY_PREFIX @ k_prefix k @ ''.'' @ secret \<and> secret \<noteq> [] \<and>
      k_prefix k \<noteq> [] \<and> CHR ''.'' \<notin> set (k_prefix k) \<and> live_key env s k secret)"
    using k ok live pre by metis
next
  assume "k \<in> set (site_keys s) \<and> (\<exists>secret. raw = KEY_PREFIX @ k_prefix k @ ''.'' @ secret \<and> secret \<noteq> [] \<and>
      k_prefix k \<noteq> [] \<and> CHR ''.'' \<notin> set (k_prefix k) \<and> live_key env s k secret)"
  then obtain secret where k: "k \<in> set (site_keys s)" "raw = KEY_PREFIX @ k_prefix k @ ''.'' @ secret" "secret \<noteq> []"
    "k_prefix k \<noteq> []" "CHR ''.'' \<notin> set (k_prefix k)" "live_key env s k secret" by blast
  then show "verify_key env raw s = Some k"
    using key_by_prefix [OF assms k(1)] partition_dot_append [OF k(5), of secret]
    by (simp add: verify_key_def KEY_PREFIX_def)
qed

end
