(* ===== verification/Demo.thy ===== *)
theory Demo
  imports Operations
begin

text \<open>
  \<^verbatim>\<open>operations/management/commands/seed_demo.py\<close> and
  \<^verbatim>\<open>operations/sandbox.py\<close>: the demo fund with a year of history, and the fresh
  fund that the public sandbox gets every day. \<open>demo_id\<close> stands for
  \<^verbatim>\<open>uuid.uuid5(DEMO_NS, name)\<close>; \<open>ids\<close> for the ids that
  \<^verbatim>\<open>uuid4\<close> draws for the rows without one.
\<close>

section \<open>Dates\<close>

definition leap_year :: "nat \<Rightarrow> bool" where
  "leap_year y \<longleftrightarrow> y mod 4 = 0 \<and> (y mod 100 \<noteq> 0 \<or> y mod 400 = 0)"

definition days_in_month :: "nat \<Rightarrow> nat \<Rightarrow> nat" where
  "days_in_month y m = (if m = 2 then (if leap_year y then 29 else 28) else if m \<in> {4, 6, 9, 11} then 30 else 31)"

text \<open>\<^verbatim>\<open>d - timedelta(days=1)\<close>.\<close>

fun previous_day :: "date \<Rightarrow> date" where
  "previous_day (Date y m d) =
     (if 1 < d then Date y m (d - 1)
      else if 1 < m then Date y (m - 1) (days_in_month y (m - 1))
      else Date (y - 1) 12 31)"

definition quarters :: "nat list \<Rightarrow> (date \<times> date) list" where
  "quarters years =
     concat (map (\<lambda>year. map (\<lambda>month.
       (Date year month 1, previous_day (if month = 10 then Date (year + 1) 1 1 else Date year (month + 3) 1)))
       [1, 4, 7, 10]) years)"

section \<open>get\_or\_create of the reference data\<close>

definition get_fund :: "uuid \<Rightarrow> db \<Rightarrow> exn + fund" where
  "get_fund fid s = get_row (\<lambda>f. f_id f = fid) (db_funds s)"

definition get_lp :: "uuid \<Rightarrow> db \<Rightarrow> exn + limited_partner" where
  "get_lp lid s = get_row (\<lambda>l. lp_id l = lid) (db_lps s)"

definition get_commitment :: "uuid \<Rightarrow> uuid \<Rightarrow> db \<Rightarrow> exn + commitment" where
  "get_commitment fid lid s = get_row (\<lambda>c. c_fund c = fid \<and> c_lp c = lid) (db_commitments s)"

definition get_period :: "uuid \<Rightarrow> date \<Rightarrow> db \<Rightarrow> exn + period" where
  "get_period fid start s = get_row (\<lambda>p. p_fund p = fid \<and> p_start_date p = start) (db_periods s)"

definition get_fx_rate :: "string \<Rightarrow> string \<Rightarrow> date \<Rightarrow> db \<Rightarrow> exn + fx_rate" where
  "get_fx_rate from_ccy to_ccy on s =
     get_row (\<lambda>x. x_from_currency x = from_ccy \<and> x_to_currency x = to_ccy \<and> x_as_of_date x = on) (db_fx_rates s)"

text \<open>\<^verbatim>\<open>Model.objects.create\<close> returns the object it was given.\<close>

definition created :: "unit op \<Rightarrow> 'a \<Rightarrow> 'a op" where
  "created ins x = bind_act ins (\<lambda>_. ret x)"

definition ensure_fund :: "fund \<Rightarrow> fund op" where
  "ensure_fund f = bind_act (get_or_create (get_fund (f_id f)) (created (insert_fund f) f))
     (\<lambda>(fund, _). ret fund)"

definition ensure_lp :: "limited_partner \<Rightarrow> limited_partner op" where
  "ensure_lp l = bind_act (get_or_create (get_lp (lp_id l)) (created (insert_lp l) l))
     (\<lambda>(lp, _). ret lp)"

definition ensure_commitment :: "commitment \<Rightarrow> unit op" where
  "ensure_commitment c =
     bind_act (get_or_create (get_commitment (c_fund c) (c_lp c))
                 (created (insert_commitment c) c)) (\<lambda>_. ret ())"

definition ensure_period :: "uuid \<Rightarrow> fund \<Rightarrow> date \<times> date \<Rightarrow> unit op" where
  "ensure_period pid fund quarter =
     (let p = \<lparr>p_id = pid, p_fund = f_id fund, p_start_date = fst quarter, p_end_date = snd quarter,
               p_status = OPEN, p_closed_at = None, p_closed_by = []\<rparr>
      in bind_act (get_or_create (get_period (f_id fund) (fst quarter))
                 (created (insert_period p) p)) (\<lambda>_. ret ()))"

definition ensure_fx_rate :: "fx_rate \<Rightarrow> unit op" where
  "ensure_fx_rate x =
     bind_act (get_or_create (get_fx_rate (x_from_currency x) (x_to_currency x) (x_as_of_date x))
                 (created (insert_fx_rate x) x))
       (\<lambda>_. ret ())"

text \<open>An LP of the lists below with its commitment.\<close>

definition ensure_investor ::
    "uuid \<Rightarrow> uuid \<Rightarrow> fund \<Rightarrow> date \<Rightarrow> string \<times> investor_type \<times> rat \<Rightarrow> unit op" where
  "ensure_investor lid cid fund signed_date row =
     bind_act (ensure_lp \<lparr>lp_id = lid, lp_name = fst row, lp_investor_type = fst (snd row)\<rparr>) (\<lambda>lp.
     ensure_commitment \<lparr>c_id = cid, c_fund = f_id fund, c_lp = lp_id lp, c_committed_amount = snd (snd row),
       c_signed_date = signed_date\<rparr>)"

section \<open>operations/sandbox.py\<close>

definition SANDBOX_LPS :: "(string \<times> investor_type \<times> rat) list" where
  "SANDBOX_LPS =
     [(''Sandbox Pension Scheme'', PENSION, 6000000),
      (''Sandbox Endowment'', ENDOWMENT, 333333333/100),
      (''Sandbox Family Office'', FAMILY_OFFICE, 1000000)]"

definition open_sandbox_fund :: "(string \<Rightarrow> uuid) \<Rightarrow> (nat \<Rightarrow> uuid) \<Rightarrow> env \<Rightarrow> date \<Rightarrow> fund op" where
  "open_sandbox_fund demo_id ids env day =
     bind_act (ensure_fund \<lparr>f_id = demo_id (''sandbox:'' @ date_str day), f_name = ''Sandbox '' @ date_str day,
         f_base_currency = ''GBP'', f_vintage_year = date_year day, f_inception_date = Date (date_year day) 1 1\<rparr>) (\<lambda>fund.
     bind_act (each_act (\<lambda>(i, row). ensure_investor (demo_id (''sandbox-lp:'' @ fst row)) (ids i) fund (f_inception_date fund) row)
         (enumerate 0 SANDBOX_LPS)) (\<lambda>_.
     bind_act (each_act (\<lambda>(i, q). ensure_period (ids i) fund q)
         (enumerate (length SANDBOX_LPS) (quarters [date_year day, date_year day + 1]))) (\<lambda>_.
     bind_act (open_fund_accounts env fund) (\<lambda>_.
     ret fund))))"

section \<open>seed\_demo\<close>

definition DEMO_LPS :: "(string \<times> investor_type \<times> rat) list" where
  "DEMO_LPS =
     [(''Clydeside Pension Scheme'', PENSION, 47300000),
      (''Forth Valley Endowment'', ENDOWMENT, 12125000),
      (''Northern Lights Sovereign Fund'', SOVEREIGN_WEALTH, 3333333333/100),
      (''Kelvin Family Office'', FAMILY_OFFICE, 5000000),
      (''Merchant City Fund of Funds'', FUND_OF_FUNDS, 8750000),
      (''Caledonian Mutual'', INSURANCE, 21000000),
      (''Strathclyde Alumni Trust'', ENDOWMENT, 1000000),
      (''Tay Bridge Pension'', PENSION, 15500000),
      (''Arran Capital Partners'', FUND_OF_FUNDS, 999999999/100),
      (''Lomond Family Office'', FAMILY_OFFICE, 2750000)]"

definition demo_rates :: "(string \<times> rat) list" where
  "demo_rates = [(''USD'', 79/100), (''EUR'', 85/100)]"

definition reference_data :: "(string \<Rightarrow> uuid) \<Rightarrow> (nat \<Rightarrow> uuid) \<Rightarrow> fund op" where
  "reference_data demo_id ids =
     atomic (
     bind_act (ensure_fund \<lparr>f_id = demo_id ''fund'', f_name = ''Glasgow Growth Partners I'', f_base_currency = ''GBP'',
         f_vintage_year = 2026, f_inception_date = Date 2026 1 1\<rparr>) (\<lambda>fund.
     bind_act (each_act (\<lambda>(i, row). ensure_investor (demo_id (''lp:'' @ fst row)) (ids i) fund (Date 2025 12 1) row)
         (enumerate 0 DEMO_LPS)) (\<lambda>_.
     bind_act (each_act (\<lambda>(i, q). ensure_period (ids i) fund q)
         (enumerate (length DEMO_LPS) (quarters [2026, 2027]))) (\<lambda>_.
     bind_act (each_act (\<lambda>(i, (ccy, rate)). ensure_fx_rate \<lparr>x_id = ids i, x_from_currency = ccy, x_to_currency = ''GBP'',
         x_rate = rate, x_as_of_date = Date 2026 1 1\<rparr>)
         (enumerate (length DEMO_LPS + 8) demo_rates)) (\<lambda>_.
     ret fund)))))"

text \<open>
  A year of activity with fixed keys. \<open>i1 k\<close> and \<open>i2 k\<close> are what other sessions commit while
  the \<open>k\<close>-th request runs, \<open>envs k\<close> its clock and ids.
\<close>

definition history :: "(nat \<Rightarrow> db \<Rightarrow> db) \<Rightarrow> (nat \<Rightarrow> db \<Rightarrow> db) \<Rightarrow> (nat \<Rightarrow> env) \<Rightarrow> uuid \<Rightarrow> unit op" where
  "history i1 i2 envs f =
     bind_act (create_capital_call (i1 0) (i2 0) (envs 0) ''demo:call:1''
       \<lparr>cr_fund = f, cr_total = 25000000, cr_notice_date = Date 2026 1 15, cr_due_date = Date 2026 1 29, cr_created_by = []\<rparr>) (\<lambda>_.
     bind_act (record_investment (i1 1) (i2 1) (envs 1) ''15000000.00'' f ''demo:invest:1'' 15000000 ''USD'' (Date 2026 2 10)) (\<lambda>_.
     bind_act (charge_fee (i1 2) (i2 2) (envs 2) f ''demo:fee:q1'' 412500 (Date 2026 3 31)) (\<lambda>_.
     bind_act (create_capital_call (i1 3) (i2 3) (envs 3) ''demo:call:2''
       \<lparr>cr_fund = f, cr_total = 10000000, cr_notice_date = Date 2026 4 15, cr_due_date = Date 2026 4 29, cr_created_by = []\<rparr>) (\<lambda>_.
     bind_act (record_valuation (i1 4) (i2 4) (envs 4) f ''demo:valuation:q2'' 1850000 (Date 2026 6 30)) (\<lambda>_.
     bind_act (create_distribution (i1 5) (i2 5) (envs 5) ''demo:dist:1''
       \<lparr>dr_fund = f, dr_total = 3000000, dr_payment_date = Date 2026 7 20, dr_classification = GAIN, dr_created_by = []\<rparr>) (\<lambda>_.
     ret ()))))))"

definition seed_demo ::
    "(string \<Rightarrow> uuid) \<Rightarrow> (nat \<Rightarrow> uuid) \<Rightarrow> (nat \<Rightarrow> db \<Rightarrow> db) \<Rightarrow> (nat \<Rightarrow> db \<Rightarrow> db) \<Rightarrow> (nat \<Rightarrow> env) \<Rightarrow> env \<Rightarrow> unit op" where
  "seed_demo demo_id ids i1 i2 envs env =
     bind_act (reference_data demo_id ids) (\<lambda>fund.
     bind_act (open_fund_accounts env fund) (\<lambda>_.
     history i1 i2 envs (f_id fund)))"

section \<open>Rows stay found\<close>

text \<open>
  \<open>rows_kept s s'\<close>: whatever a lookup by key found in \<open>s\<close> it finds in \<open>s'\<close>. Every insert
  keeps rows because the database refuses a second row with the key.
\<close>

definition rows_kept :: "db \<Rightarrow> db \<Rightarrow> bool" where
  "rows_kept s s' \<longleftrightarrow>
     (\<forall>fid x. get_fund fid s = Inr x \<longrightarrow> get_fund fid s' = Inr x) \<and>
     (\<forall>lid x. get_lp lid s = Inr x \<longrightarrow> get_lp lid s' = Inr x) \<and>
     (\<forall>fid lid x. get_commitment fid lid s = Inr x \<longrightarrow> get_commitment fid lid s' = Inr x) \<and>
     (\<forall>fid d x. get_period fid d s = Inr x \<longrightarrow> get_period fid d s' = Inr x) \<and>
     (\<forall>f t d x. get_fx_rate f t d s = Inr x \<longrightarrow> get_fx_rate f t d s' = Inr x) \<and>
     (\<forall>fund code x. account_by_code fund code s = Inr x \<longrightarrow> account_by_code fund code s' = Inr x)"

lemma rows_kept_refl: "rows_kept s s"
  by (simp add: rows_kept_def)

lemma rows_kept_trans: "rows_kept s s1 \<Longrightarrow> rows_kept s1 s2 \<Longrightarrow> rows_kept s s2"
  by (auto simp: rows_kept_def)

lemma get_row_append: "get_row P rows = Inr x \<Longrightarrow> \<not> P r \<Longrightarrow> get_row P (rows @ [r]) = Inr x"
  by (simp add: get_row_def)

lemma get_row_unique_append:
  "get_row P rows = Inr x \<Longrightarrow> (\<And>y. y \<in> set rows \<Longrightarrow> P y \<Longrightarrow> \<not> P r) \<Longrightarrow> get_row P (rows @ [r]) = Inr x"
  using get_row_Inr get_row_append by metis

lemma keeps_rowsI: "(\<And>s r s'. m s = (r, s') \<Longrightarrow> rows_kept s s') \<Longrightarrow> keeps (rows_kept s0) m"
  by (rule keepsI) (blast intro: rows_kept_trans)

lemma rows_kept_insert_fund: "insert_fund f s = (r, s') \<Longrightarrow> rows_kept s s'"
  by (cases r) (auto simp: insert_fund_def act rows_kept_def get_fund_def get_lp_def get_commitment_def get_period_def
      get_fx_rate_def account_by_code_def image_iff intro!: get_row_unique_append)

lemma rows_kept_insert_lp: "insert_lp l s = (r, s') \<Longrightarrow> rows_kept s s'"
  by (cases r) (auto simp: insert_lp_def act rows_kept_def get_fund_def get_lp_def get_commitment_def get_period_def
      get_fx_rate_def account_by_code_def image_iff intro!: get_row_unique_append)

lemma rows_kept_insert_commitment: "insert_commitment c s = (r, s') \<Longrightarrow> rows_kept s s'"
  by (cases r; auto simp: insert_commitment_def act rows_kept_def get_fund_def get_lp_def get_commitment_def get_period_def
      get_fx_rate_def account_by_code_def image_iff intro!: get_row_unique_append; metis)

lemma rows_kept_insert_fx_rate: "insert_fx_rate c s = (r, s') \<Longrightarrow> rows_kept s s'"
  by (cases r; auto simp: insert_fx_rate_def act rows_kept_def get_fund_def get_lp_def get_commitment_def get_period_def
      get_fx_rate_def account_by_code_def image_iff intro!: get_row_unique_append; metis)

lemma rows_kept_insert_period: "insert_period p s = (r, s') \<Longrightarrow> rows_kept s s'"
  by (cases r; auto simp: insert_period_def period_constraints_def act rows_kept_def get_fund_def get_lp_def get_commitment_def get_period_def
      get_fx_rate_def account_by_code_def image_iff intro!: get_row_unique_append; metis)

lemma rows_kept_insert_account: "insert_account a s = (r, s') \<Longrightarrow> rows_kept s s'"
  by (cases r) (auto simp: insert_account_def account_constraints_def act rows_kept_def get_fund_def get_lp_def get_commitment_def get_period_def
      get_fx_rate_def account_by_code_def image_iff intro!: get_row_unique_append)

lemma keeps_rows_inserts [keeps_intros]:
  shows "keeps (rows_kept s0) (insert_fund f)" and "keeps (rows_kept s0) (insert_lp l)"
    and "keeps (rows_kept s0) (insert_commitment c)" and "keeps (rows_kept s0) (insert_fx_rate x)"
    and "keeps (rows_kept s0) (insert_period p)" and "keeps (rows_kept s0) (insert_account a)"
  by (rule keeps_rowsI, erule rows_kept_insert_fund rows_kept_insert_lp rows_kept_insert_commitment
      rows_kept_insert_fx_rate rows_kept_insert_period rows_kept_insert_account)+

lemma keeps_created [keeps_intros]: "keeps P ins \<Longrightarrow> keeps P (created ins x)"
  unfolding created_def by (intro keeps_intros)

lemma keeps_seeds [keeps_intros]:
  shows "(\<And>f. keeps P (insert_fund f)) \<Longrightarrow> keeps P (ensure_fund f)"
    and "(\<And>l. keeps P (insert_lp l)) \<Longrightarrow> keeps P (ensure_lp l)"
    and "(\<And>c. keeps P (insert_commitment c)) \<Longrightarrow> keeps P (ensure_commitment c)"
    and "(\<And>p. keeps P (insert_period p)) \<Longrightarrow> keeps P (ensure_period pid fund q)"
    and "(\<And>x. keeps P (insert_fx_rate x)) \<Longrightarrow> keeps P (ensure_fx_rate x)"
  unfolding ensure_fund_def ensure_lp_def ensure_commitment_def ensure_period_def ensure_fx_rate_def Let_def
  by (intro keeps_intros; assumption | simp)+

lemma keeps_ensure_investor [keeps_intros]:
  assumes "\<And>l. keeps P (insert_lp l)" and "\<And>c. keeps P (insert_commitment c)"
  shows "keeps P (ensure_investor lid cid fund d row)"
  unfolding ensure_investor_def by (intro keeps_intros assms)

section \<open>Running it again\<close>

text \<open>
  \<open>again m m'\<close>: once \<open>m\<close> has returned, \<open>m'\<close> returns the same and changes nothing, now and in
  every later state that keeps the rows.
\<close>

definition again :: "'a op \<Rightarrow> 'a op \<Rightarrow> bool" where
  "again m m' \<longleftrightarrow> (\<forall>s x s' s''. m s = (Inr x, s') \<longrightarrow> rows_kept s' s'' \<longrightarrow> m' s'' = (Inr x, s''))"

lemma again_bind:
  assumes "again m m'" and "\<And>x. again (f x) (f' x)" and "\<And>x s. keeps (rows_kept s) (f x)"
  shows "again (bind_act m f) (bind_act m' f')"
  unfolding again_def
proof (intro allI impI)
  fix s y s' s'' assume r: "bind_act m f s = (Inr y, s')" and k: "rows_kept s' s''"
  from r obtain x s1 where 1: "m s = (Inr x, s1)" "f x s1 = (Inr y, s')" by (auto simp: act)
  have "rows_kept s1 s'" using keepsD [OF assms(3) rows_kept_refl 1(2)] .
  then have "m' s'' = (Inr x, s'')" using assms(1) 1(1) k rows_kept_trans unfolding again_def by blast
  moreover have "f' x s'' = (Inr y, s'')" using assms(2) 1(2) k unfolding again_def by blast
  ultimately show "bind_act m' f' s'' = (Inr y, s'')" by (simp add: bind_act_def)
qed

lemma again_ret: "again (ret x) (ret x)"
  by (simp add: again_def act)

lemma again_atomic: "again m m' \<Longrightarrow> again (atomic m) (atomic m')"
  by (simp add: again_def act)

lemma again_each:
  assumes "list_all2 (\<lambda>x y. again (f x) (g y)) xs ys" and "\<And>x s. keeps (rows_kept s) (f x)"
  shows "again (each_act f xs) (each_act g ys)"
  using assms(1)
proof (induction rule: list_all2_induct)
  case (Cons x xs y ys)
  then show ?case using assms(2) by (simp, intro again_bind) (auto intro: keeps_intros)
qed (simp add: again_ret)

text \<open>A get-or-create whose lookup is by a key that the insert sets.\<close>

lemma again_get_or_create:
  assumes kept: "\<And>s s' x. rows_kept s s' \<Longrightarrow> get s = Inr x \<Longrightarrow> get s' = Inr x"
    and new: "\<And>s y s1. get s = Inl DoesNotExist \<Longrightarrow> create s = (Inr y, s1) \<Longrightarrow> \<exists>x. get s1 = Inr x \<and> f x = f y"
  shows "again (bind_act (get_or_create get create) (\<lambda>p. ret (f (fst p)))) (bind_act (get_or_create get create') (\<lambda>p. ret (f (fst p))))"
  unfolding again_def
proof (intro allI impI)
  fix s z s' s'' assume r: "bind_act (get_or_create get create) (\<lambda>p. ret (f (fst p))) s = (Inr z, s')" and k: "rows_kept s' s''"
  from r obtain y c where g: "get_or_create get create s = (Inr (y, c), s')" and z: "z = f y" by (auto simp: act)
  have "\<exists>x. get s' = Inr x \<and> f x = f y"
  proof (cases "get s")
    case (Inr x)
    with g show ?thesis by (auto simp: get_or_create_def act)
  next
    case (Inl e)
    with g new show ?thesis by (auto simp: get_or_create_def act split: if_splits dest!: second_look_Inr)
  qed
  then obtain x where "get s'' = Inr x" "f x = z" using kept [OF k] z by auto
  then show "bind_act (get_or_create get create') (\<lambda>p. ret (f (fst p))) s'' = (Inr z, s'')"
    by (simp add: get_or_create_def bind_act_def query_def ret_def)
qed

lemma get_row_first: "get_row P rows = Inl DoesNotExist \<Longrightarrow> P r \<Longrightarrow> get_row P (rows @ [r]) = Inr r"
  by (simp add: get_row_DoesNotExist) (simp add: get_row_def)

lemma get_row_first_ex: "get_row P rows = Inl DoesNotExist \<Longrightarrow> P r \<Longrightarrow> \<exists>x. get_row P (rows @ [r]) = Inr x"
  using get_row_first by fast

lemma again_ensure_fund: "f_id f = f_id g \<Longrightarrow> again (ensure_fund f) (ensure_fund g)"
  unfolding ensure_fund_def
  by (simp add: case_prod_unfold, rule again_get_or_create [where f = id, simplified])
    (auto simp: rows_kept_def get_fund_def created_def act insert_fund_def intro: get_row_first)

lemma again_ensure_lp: "lp_id l = lp_id k \<Longrightarrow> again (ensure_lp l) (ensure_lp k)"
  unfolding ensure_lp_def
  by (simp add: case_prod_unfold, rule again_get_or_create [where f = id, simplified])
    (auto simp: rows_kept_def get_lp_def created_def act insert_lp_def intro: get_row_first)

lemma again_ensure_commitment:
  "c_fund c = c_fund d \<Longrightarrow> c_lp c = c_lp d \<Longrightarrow> again (ensure_commitment c) (ensure_commitment d)"
  unfolding ensure_commitment_def
  by (simp, rule again_get_or_create [where f = "\<lambda>_. ()"])
    (auto simp: rows_kept_def get_commitment_def created_def act insert_commitment_def intro!: get_row_first_ex)

lemma again_ensure_period: "again (ensure_period pid fund q) (ensure_period pid' fund q)"
  unfolding ensure_period_def Let_def
  by (rule again_get_or_create [where f = "\<lambda>_. ()"])
    (auto simp: rows_kept_def get_period_def created_def act insert_period_def intro!: get_row_first_ex)

lemma again_ensure_investor:
  "again (ensure_investor lid cid fund d row) (ensure_investor lid cid' fund d row)"
  unfolding ensure_investor_def
  by (intro again_bind again_ensure_lp again_ensure_commitment keeps_intros) simp_all

lemma again_ensure_account: "again (bind_act (ensure_account env aid fund ty ccy) (\<lambda>_. ret ())) (bind_act (ensure_account env' aid' fund ty ccy) (\<lambda>_. ret ()))"
proof -
  have "again (ensure_account env aid fund ty ccy) (ensure_account env' aid' fund ty ccy)"
    unfolding again_def
  proof (intro allI impI)
    fix s a s' s'' assume r: "ensure_account env aid fund ty ccy s = (Inr a, s')" and k: "rows_kept s' s''"
    from r obtain code where "account_code ty (or_base fund ccy) None = Inr code" "account_by_code fund code s' = Inr a"
      by (rule ensure_account_Inr)
    with k show "ensure_account env' aid' fund ty ccy s'' = (Inr a, s'')"
      by (auto simp: rows_kept_def ensure_account_def get_or_create_def Let_def bind_act_def query_def ret_def)
  qed
  then show ?thesis by (rule again_bind) (auto intro: again_ret keeps_intros)
qed

lemma again_ensure_lp_account: "again (ensure_lp_account env aid fund lp) (ensure_lp_account env' aid' fund lp)"
proof -
  have "\<exists>code. account_code AT_LP_CAPITAL (f_base_currency fund) (Some lp) = Inr code" by (simp add: account_code_def)
  then obtain code where c: "account_code AT_LP_CAPITAL (f_base_currency fund) (Some lp) = Inr code" ..
  have q: "bind_act (query (\<lambda>_. Inr code)) f = f code" for f :: "string \<Rightarrow> unit op"
    by (simp add: bind_act_def query_def)
  show ?thesis
    unfolding ensure_lp_account_def c q
    by (rule again_get_or_create [where f = "\<lambda>_. ()"])
      (auto simp: rows_kept_def intro!: exI account_created)
qed

lemma keeps_open_accounts [keeps_intros]:
  assumes "\<And>a. keeps P (insert_account a)"
  shows "keeps P (ensure_account env aid fund ty ccy)" and "keeps P (ensure_lp_account env aid fund lp)"
  unfolding ensure_account_def ensure_lp_account_def create_account_def Let_def
  by (intro keeps_intros assms; auto intro: keeps_intros)+

lemma open_fund_accounts_again:
  assumes "open_fund_accounts env fund s = (Inr (), s')" and k: "rows_kept s' s''" and c: "db_commitments s'' = db_commitments s"
  shows "open_fund_accounts env' fund s'' = (Inr (), s'')"
proof -
  let ?std = "\<lambda>env (i, ty). bind_act (ensure_account env (new_account_id env i) fund ty None) (\<lambda>_. ret ())"
  let ?lps = "\<lambda>env (i, c). ensure_lp_account env (new_account_id env i) fund (c_lp c)"
  let ?cs = "filter (\<lambda>c. c_fund c = f_id fund) (db_commitments s)"
  from assms(1) obtain s1 where 1: "each_act (?std env) (enumerate 0 STANDARD_TYPES) s = (Inr (), s1)"
    and 2: "each_act (?lps env) (enumerate (length STANDARD_TYPES) (filter (\<lambda>c. c_fund c = f_id fund) (db_commitments s1))) s1 = (Inr (), s')"
    by (auto simp: open_fund_accounts_def act)
  have kc: "keeps (\<lambda>t. db_commitments t = cs) (insert_account a)" for cs a
    by (rule keepsI) (auto simp: insert_account_def bind_act_def query_def modify_def split: sum.splits)
  have ks: "keeps P (?std env x)" "keeps P (?lps env y)" if "\<And>a. keeps P (insert_account a)" for P x y
    using that by (cases x; cases y; simp; intro keeps_intros)+
  have "keeps (\<lambda>t. db_commitments t = db_commitments s) (each_act (?std env) (enumerate 0 STANDARD_TYPES))"
    by (intro keeps_each ks kc)
  from keepsD [OF this _ 1] have cs: "db_commitments s1 = db_commitments s" by simp
  have a1: "again (each_act (?std env) xs) (each_act (?std env') xs)" for xs
    by (rule again_each) (auto simp: list_all2_same again_ensure_account intro!: ks keeps_intros)
  have a2: "again (each_act (?lps env) xs) (each_act (?lps env') xs)" for xs
    by (rule again_each) (auto simp: list_all2_same again_ensure_lp_account intro!: ks keeps_intros)
  have "keeps (rows_kept s1) (each_act (?lps env) (enumerate (length STANDARD_TYPES) ?cs))"
    by (intro keeps_each ks keeps_intros)
  from keepsD [OF this rows_kept_refl 2 [unfolded cs]] k have "rows_kept s1 s''" by (rule rows_kept_trans)
  then have "each_act (?std env') (enumerate 0 STANDARD_TYPES) s'' = (Inr (), s'')"
    using a1 1 unfolding again_def by blast
  moreover have "each_act (?lps env') (enumerate (length STANDARD_TYPES) ?cs) s'' = (Inr (), s'')"
    using a2 2 [unfolded cs] k unfolding again_def by blast
  ultimately show ?thesis by (simp add: open_fund_accounts_def bind_act_def query_def c)
qed

lemma keeps_open_fund_accounts_rows [keeps_intros]: "keeps (rows_kept s0) (open_fund_accounts env fund)"
  unfolding open_fund_accounts_def by (intro keeps_intros)

lemma commitments_insert_account: "keeps (\<lambda>t. db_commitments t = cs) (insert_account a)"
  by (rule keepsI) (auto simp: insert_account_def bind_act_def query_def modify_def split: sum.splits)

lemma commitments_open_fund_accounts: "keeps (\<lambda>t. db_commitments t = cs) (open_fund_accounts env fund)"
  unfolding open_fund_accounts_def by (intro keeps_intros) (auto intro!: keeps_intros commitments_insert_account)

lemma again_open_accounts:
  "open_fund_accounts env fund s = (Inr (), s') \<Longrightarrow> open_fund_accounts env' fund s' = (Inr (), s')"
  using open_fund_accounts_again [OF _ rows_kept_refl] keepsD [OF commitments_open_fund_accounts refl] by blast

text \<open>The sandbox fund of a day, opened again on the state it leaves: the same fund, nothing new.\<close>

lemma sandbox_again:
  assumes "open_sandbox_fund demo_id ids env day s = (Inr fund, s')"
  shows "open_sandbox_fund demo_id ids' env' day s' = (Inr fund, s')"
proof -
  let ?f = "\<lparr>f_id = demo_id (''sandbox:'' @ date_str day), f_name = ''Sandbox '' @ date_str day,
         f_base_currency = ''GBP'', f_vintage_year = date_year day, f_inception_date = Date (date_year day) 1 1\<rparr>"
  let ?lps = "\<lambda>ids. each_act (\<lambda>(i, row). ensure_investor (demo_id (''sandbox-lp:'' @ fst row)) (ids i) fund (f_inception_date fund) row)
         (enumerate 0 SANDBOX_LPS)"
  let ?ps = "\<lambda>ids. each_act (\<lambda>(i, q). ensure_period (ids i) fund q)
         (enumerate (length SANDBOX_LPS) (quarters [date_year day, date_year day + 1]))"
  from assms obtain s1 s2 s3 where 1: "ensure_fund ?f s = (Inr fund, s1)" and 2: "?lps ids s1 = (Inr (), s2)"
    and 3: "?ps ids s2 = (Inr (), s3)" and 4: "open_fund_accounts env fund s3 = (Inr (), s')"
    by (auto simp: open_sandbox_fund_def act)
  have k34: "rows_kept s3 s'" using keepsD [OF keeps_open_fund_accounts_rows rows_kept_refl 4] .
  have kp: "keeps (rows_kept s0) (?ps ids)" for s0 by (intro keeps_intros)
  have kl: "keeps (rows_kept s0) (?lps ids)" for s0 by (intro keeps_intros)
  have k24: "rows_kept s2 s'" using keepsD [OF kp rows_kept_refl 3] k34 by (rule rows_kept_trans)
  have k14: "rows_kept s1 s'" using keepsD [OF kl rows_kept_refl 2] k24 by (rule rows_kept_trans)
  have "ensure_fund ?f s' = (Inr fund, s')"
    using again_ensure_fund [OF refl] 1 k14 unfolding again_def by blast
  moreover have "again (?lps ids) (?lps ids')"
    by (rule again_each) (auto simp: list_all2_same again_ensure_investor intro!: keeps_intros)
  then have "?lps ids' s' = (Inr (), s')" using 2 k24 unfolding again_def by blast
  moreover have "again (?ps ids) (?ps ids')"
    by (rule again_each) (auto simp: list_all2_same again_ensure_period intro!: keeps_intros)
  then have "?ps ids' s' = (Inr (), s')" using 3 k34 unfolding again_def by blast
  moreover have "open_fund_accounts env' fund s' = (Inr (), s')" using 4 by (rule again_open_accounts)
  ultimately show ?thesis by (simp add: open_sandbox_fund_def bind_act_def ret_def)
qed

section \<open>When everything is there\<close>

lemma get_or_create_found: "get s = Inr x \<Longrightarrow> get_or_create get create s = (Inr (x, False), s)"
  by (simp add: get_or_create_def bind_act_def query_def ret_def)

lemma each_act_idle: "(\<And>i x. x \<in> set xs \<Longrightarrow> f (i, x) s = (Inr (), s)) \<Longrightarrow> each_act f (enumerate k xs) s = (Inr (), s)"
  by (induction xs arbitrary: k) (auto simp: ret_def bind_act_def)

definition is_found :: "exn + 'a \<Rightarrow> bool" where
  "is_found r = (case r of Inr _ \<Rightarrow> True | Inl _ \<Rightarrow> False)"

lemma is_found_iff: "is_found r \<longleftrightarrow> (\<exists>x. r = Inr x)"
  by (cases r) (auto simp: is_found_def)

text \<open>Every account that \<open>open_fund_accounts\<close> and every row that \<open>open_sandbox_fund\<close> looks for.\<close>

definition accounts_open :: "fund \<Rightarrow> db \<Rightarrow> bool" where
  "accounts_open fund s \<longleftrightarrow>
     list_all (\<lambda>ty. is_found (get_account fund ty None s)) STANDARD_TYPES \<and>
     list_all (\<lambda>c. c_fund c = f_id fund \<longrightarrow>
       is_found (rbind (account_code AT_LP_CAPITAL (f_base_currency fund) (Some (c_lp c))) (\<lambda>code. account_by_code fund code s)))
       (db_commitments s)"

definition sandbox_open :: "(string \<Rightarrow> uuid) \<Rightarrow> date \<Rightarrow> fund \<Rightarrow> db \<Rightarrow> bool" where
  "sandbox_open demo_id day fund s \<longleftrightarrow>
     get_fund (demo_id (''sandbox:'' @ date_str day)) s = Inr fund \<and>
     list_all (\<lambda>row. case get_lp (demo_id (''sandbox-lp:'' @ fst row)) s of
         Inl _ \<Rightarrow> False | Inr lp \<Rightarrow> is_found (get_commitment (f_id fund) (lp_id lp) s)) SANDBOX_LPS \<and>
     list_all (\<lambda>q. is_found (get_period (f_id fund) (fst q) s)) (quarters [date_year day, date_year day + 1]) \<and>
     accounts_open fund s"

lemma bind_idle: "m s = (Inr x, s) \<Longrightarrow> bind_act m f s = f x s"
  by (simp add: bind_act_def)

lemma ensure_account_idle:
  assumes "get_account fund ty None s = Inr a"
  shows "bind_act (ensure_account env aid fund ty None) (\<lambda>_. ret ()) s = (Inr (), s)"
proof -
  from assms obtain code where "account_code ty (or_base fund None) None = Inr code" "account_by_code fund code s = Inr a"
    by (auto simp: get_account_def)
  then have "ensure_account env aid fund ty None s = (Inr a, s)"
    by (simp add: ensure_account_def Let_def bind_act_def query_def get_or_create_found ret_def)
  then show ?thesis by (simp add: bind_idle ret_def)
qed

lemma ensure_lp_account_idle:
  assumes "rbind (account_code AT_LP_CAPITAL (f_base_currency fund) (Some lp)) (\<lambda>code. account_by_code fund code s) = Inr a"
  shows "ensure_lp_account env aid fund lp s = (Inr (), s)"
  using assms by (auto simp: ensure_lp_account_def bind_act_def query_def get_or_create_found ret_def)

lemma open_fund_accounts_idle:
  assumes "accounts_open fund s"
  shows "open_fund_accounts env fund s = (Inr (), s)"
proof -
  have std: "bind_act (ensure_account env aid fund ty None) (\<lambda>_. ret ()) s = (Inr (), s)" if "ty \<in> set STANDARD_TYPES" for ty aid
    using assms that ensure_account_idle by (force simp: accounts_open_def list_all_iff is_found_iff simp del: rbind_Inr)
  have lps: "ensure_lp_account env aid fund (c_lp c) s = (Inr (), s)"
    if "c \<in> set (filter (\<lambda>c. c_fund c = f_id fund) (db_commitments s))" for c aid
    using assms that ensure_lp_account_idle by (force simp: accounts_open_def list_all_iff is_found_iff simp del: rbind_Inr)
  have "each_act (\<lambda>(i, ty). bind_act (ensure_account env (new_account_id env i) fund ty None) (\<lambda>_. ret ()))
      (enumerate 0 STANDARD_TYPES) s = (Inr (), s)"
    by (rule each_act_idle) (simp only: prod.case, erule std)
  moreover have "each_act (\<lambda>(i, c). ensure_lp_account env (new_account_id env i) fund (c_lp c))
      (enumerate k (filter (\<lambda>c. c_fund c = f_id fund) (db_commitments s))) s = (Inr (), s)" for k
    by (rule each_act_idle) (simp only: prod.case, erule lps)
  ultimately show ?thesis by (simp add: open_fund_accounts_def bind_act_def query_def)
qed

lemma ensure_investor_idle:
  "get_lp lid s = Inr lp \<Longrightarrow> get_commitment (f_id fund) (lp_id lp) s = Inr c \<Longrightarrow>
     ensure_investor lid cid fund d row s = (Inr (), s)"
  by (simp add: ensure_investor_def ensure_lp_def ensure_commitment_def bind_act_def get_or_create_found ret_def)

lemma ensure_period_idle: "get_period (f_id fund) (fst q) s = Inr p \<Longrightarrow> ensure_period pid fund q s = (Inr (), s)"
  by (simp add: ensure_period_def Let_def bind_act_def get_or_create_found ret_def)

lemma sandbox_idle:
  assumes "sandbox_open demo_id day fund s"
  shows "open_sandbox_fund demo_id ids env day s = (Inr fund, s)"
proof -
  have f: "ensure_fund \<lparr>f_id = demo_id (''sandbox:'' @ date_str day), f_name = n, f_base_currency = b,
      f_vintage_year = v, f_inception_date = d\<rparr> s = (Inr fund, s)" for n b v d
    using assms by (simp add: sandbox_open_def ensure_fund_def get_or_create_found bind_idle ret_def)
  have inv: "ensure_investor (demo_id (''sandbox-lp:'' @ fst row)) cid fund d row s = (Inr (), s)"
    if "row \<in> set SANDBOX_LPS" for row cid d
  proof -
    have row: "case get_lp (demo_id (''sandbox-lp:'' @ fst row)) s of
        Inl _ \<Rightarrow> False | Inr lp \<Rightarrow> is_found (get_commitment (f_id fund) (lp_id lp) s)"
      using assms that unfolding sandbox_open_def list_all_iff by blast
    then obtain lp where "get_lp (demo_id (''sandbox-lp:'' @ fst row)) s = Inr lp"
      "is_found (get_commitment (f_id fund) (lp_id lp) s)"
      by (cases "get_lp (demo_id (''sandbox-lp:'' @ fst row)) s") simp_all
    then show ?thesis using ensure_investor_idle unfolding is_found_iff by blast
  qed
  have per: "ensure_period pid fund q s = (Inr (), s)" if "q \<in> set (quarters [date_year day, date_year day + 1])" for q pid
    using assms that ensure_period_idle unfolding sandbox_open_def list_all_iff is_found_iff by blast
  have l: "each_act (\<lambda>(i, row). ensure_investor (demo_id (''sandbox-lp:'' @ fst row)) (ids i) fund d row)
      (enumerate 0 SANDBOX_LPS) s = (Inr (), s)" for d
    by (rule each_act_idle) (simp only: prod.case, erule inv)
  have p: "each_act (\<lambda>(i, q). ensure_period (ids i) fund q)
      (enumerate k (quarters [date_year day, date_year day + 1])) s = (Inr (), s)" for k
    by (rule each_act_idle) (simp only: prod.case, erule per)
  have a: "open_fund_accounts env fund s = (Inr (), s)"
    using assms by (intro open_fund_accounts_idle) (simp add: sandbox_open_def)
  show ?thesis
    unfolding open_sandbox_fund_def
    by (subst bind_idle, rule f, subst bind_idle, rule l, subst bind_idle, rule p, subst bind_idle, rule a, rule ret_def [THEN fun_cong])
qed

end
