(* ===== verification/Access_Commands.thy ===== *)
theory Access_Commands
  imports Access Demo
begin

text \<open>
  The management commands of \<^verbatim>\<open>access/management/commands/\<close>: issuing, listing and
  revoking API keys, granting roles, the demo keys, and the daily rotation of the public
  sandbox. Each is an operation on the site; what it prints is its result. Statements outside
  \<^verbatim>\<open>transaction.atomic()\<close> commit one by one, so a command that raises leaves what it
  did before.
\<close>

section \<open>Users and memberships\<close>

definition insert_user :: "user \<Rightarrow> unit site_op" where
  "insert_user u =
     bind_act (query (\<lambda>s. checks
       [(u_id u \<notin> set (map u_id (site_users s)), Program (IntegrityErr ''auth_user_pkey'')),
        (u_username u \<notin> set (map u_username (site_users s)), Program (IntegrityErr ''auth_user_username_key''))])) (\<lambda>_.
     modify (\<lambda>s. s\<lparr>site_users := site_users s @ [u]\<rparr>))"

definition user_named :: "string \<Rightarrow> site \<Rightarrow> user option" where
  "user_named name s = first_row (sort_key u_id (filter (\<lambda>u. u_username u = name) (site_users s)))"

text \<open>
  \<^verbatim>\<open>User.objects.get_or_create(username=...)\<close> followed, for a new user, by
  \<^verbatim>\<open>set_unusable_password\<close>: passwords are not part of the model, no login uses one.
\<close>

definition ensure_user :: "nat \<Rightarrow> string \<Rightarrow> user site_op" where
  "ensure_user uid name =
     bind_act (query (\<lambda>s. Inr (user_named name s))) (\<lambda>found.
       case found of
         Some u \<Rightarrow> ret u
       | None \<Rightarrow>
           let u = \<lparr>u_id = uid, u_username = name, u_is_active = True\<rparr>
           in bind_act (insert_user u) (\<lambda>_. ret u))"

definition membership_on :: "nat \<Rightarrow> uuid \<Rightarrow> site \<Rightarrow> fund_membership option" where
  "membership_on uid fid s =
     first_row (sort_key m_id (filter (\<lambda>m. m_user m = uid \<and> m_fund m = fid) (site_memberships s)))"

text \<open>\<^verbatim>\<open>FundMembership.objects.update_or_create(user=, fund=, defaults=)\<close>.\<close>

definition update_or_create_membership ::
    "env \<Rightarrow> uuid \<Rightarrow> user \<Rightarrow> uuid \<Rightarrow> role \<Rightarrow> uuid option \<Rightarrow> unit site_op" where
  "update_or_create_membership env mid u fid r lp =
     atomic (
     bind_act (query (\<lambda>s. Inr (membership_on (u_id u) fid s))) (\<lambda>found.
       case found of
         Some m \<Rightarrow> update_membership (m\<lparr>m_role := r, m_lp := lp\<rparr>)
       | None \<Rightarrow> insert_membership \<lparr>m_id = mid, m_user = u_id u, m_fund = fid, m_role = r, m_lp = lp,
           m_created_at = now env\<rparr>))"

section \<open>create\_api\_key, revoke\_api\_key, list\_api\_keys\<close>

definition days_us :: "int \<Rightarrow> int" where
  "days_us n = n * 24 * 60 * 60 * 1000000"

definition create_api_key :: "env \<Rightarrow> draw \<Rightarrow> string \<Rightarrow> string \<Rightarrow> int \<Rightarrow> (api_key \<times> string) site_op" where
  "create_api_key env d username name days =
     bind_act (query (\<lambda>s. case user_named username s of
        None \<Rightarrow> Inl (CommandError ''no such user (create one with grant_access)'')
      | Some u \<Rightarrow> Inr u)) (\<lambda>u.
     let expires_at = (if days > 0 then Some (now env + days_us days) else None)
     in issue_key env d u name expires_at)"

text \<open>The rows an UPDATE changes: what it sets, and for which keys.\<close>

definition revoke_where :: "(api_key \<Rightarrow> bool) \<Rightarrow> timestamp \<Rightarrow> site \<Rightarrow> site" where
  "revoke_where P t s =
     s\<lparr>site_keys := map (\<lambda>k. if P k \<and> k_revoked_at k = None then k\<lparr>k_revoked_at := Some t\<rparr> else k) (site_keys s)\<rparr>"

definition revoke_api_key :: "env \<Rightarrow> string \<Rightarrow> unit site_op" where
  "revoke_api_key env prefix =
     bind_act (query (\<lambda>s. Inr (filter (\<lambda>k. k_prefix k = prefix \<and> k_revoked_at k = None) (site_keys s)))) (\<lambda>revoked.
     bind_act (modify (revoke_where (\<lambda>k. k_prefix k = prefix) (now env))) (\<lambda>_.
     if revoked = [] then raise (CommandError ''no active key with that prefix'') else ret ()))"

datatype key_state = Revoked | Expires "timestamp option"

definition state_of_key :: "api_key \<Rightarrow> key_state" where
  "state_of_key k = (if k_revoked_at k \<noteq> None then Revoked else Expires (k_expires_at k))"

definition key_owner :: "site \<Rightarrow> api_key \<Rightarrow> string" where
  "key_owner s k = (case find_user s (k_user k) of None \<Rightarrow> [] | Some u \<Rightarrow> u_username u)"

definition list_api_keys :: "site \<Rightarrow> (string \<times> string \<times> string \<times> key_state \<times> timestamp option) list" where
  "list_api_keys s =
     map (\<lambda>k. (k_prefix k, key_owner s k, k_name k, state_of_key k, k_last_used_at k))
       (sort_key (key_owner s) (sort_key k_created_at (site_keys s)))"

section \<open>grant\_access\<close>

definition grant_access :: "env \<Rightarrow> nat \<Rightarrow> uuid \<Rightarrow> string \<Rightarrow> uuid \<Rightarrow> role \<Rightarrow> uuid option \<Rightarrow> unit site_op" where
  "grant_access env uid mid username fid r lp =
     (if (r = ROLE_LP) \<noteq> (lp \<noteq> None) then raise (CommandError ''--lp is required for the LP role, and only for it'')
      else
        bind_act (query (\<lambda>s. case first_row (sort_key f_id (filter (\<lambda>f. f_id f = fid) (db_funds (site_db s)))) of
            None \<Rightarrow> Inl (CommandError ''no such fund'') | Some f \<Rightarrow> Inr f)) (\<lambda>fund.
        bind_act (query (\<lambda>s. ensure
            (case lp of None \<Rightarrow> True
             | Some l \<Rightarrow> \<exists>c \<in> set (db_commitments (site_db s)). c_fund c = f_id fund \<and> c_lp c = l)
            (CommandError ''that LP has no commitment to this fund''))) (\<lambda>_.
        bind_act (ensure_user uid username) (\<lambda>u.
        update_or_create_membership env mid u (f_id fund) r lp))))"

section \<open>rotate\_sandbox\<close>

definition delete_other_memberships :: "nat \<Rightarrow> uuid \<Rightarrow> site \<Rightarrow> site" where
  "delete_other_memberships uid fid s =
     s\<lparr>site_memberships := filter (\<lambda>m. \<not> (m_user m = uid \<and> m_fund m \<noteq> fid)) (site_memberships s)\<rparr>"

definition rotate_sandbox ::
    "(string \<Rightarrow> uuid) \<Rightarrow> (nat \<Rightarrow> uuid) \<Rightarrow> env \<Rightarrow> nat \<Rightarrow> uuid \<Rightarrow> string \<Rightarrow> date option \<Rightarrow> (user \<times> fund) site_op" where
  "rotate_sandbox demo_id ids env uid mid username given =
     (let day = (case given of None \<Rightarrow> today env | Some d \<Rightarrow> d) in
      atomic (
      bind_act (on_db (open_sandbox_fund demo_id ids env day)) (\<lambda>fund.
      bind_act (ensure_user uid username) (\<lambda>u.
      bind_act (modify (delete_other_memberships (u_id u) (f_id fund))) (\<lambda>_.
      bind_act (update_or_create_membership env mid u (f_id fund) ROLE_CONTROLLER None) (\<lambda>_.
      ret (u, fund)))))))"

section \<open>demo\_access\<close>

text \<open>
  \<^verbatim>\<open>s.split(",")\<close>; \<^verbatim>\<open>strip()\<close>, a character being its code point
  (up to 255); \<^verbatim>\<open>upper()\<close> on ASCII letters.
\<close>

fun split_at :: "char \<Rightarrow> string \<Rightarrow> string \<Rightarrow> string list" where
  "split_at d w [] = [w]"
| "split_at d w (c # cs) = (if c = d then w # split_at d [] cs else split_at d (w @ [c]) cs)"

definition py_space :: "char \<Rightarrow> bool" where
  "py_space c \<longleftrightarrow> ascii_space c \<or> c \<in> {CHR 0x1C, CHR 0x1D, CHR 0x1E, CHR 0x1F, CHR 0x85, CHR 0xA0}"

definition strip :: "string \<Rightarrow> string" where
  "strip s = rev (dropWhile py_space (rev (dropWhile py_space s)))"

definition upper_char :: "char \<Rightarrow> char" where
  "upper_char c = (if CHR ''a'' \<le> c \<and> c \<le> CHR ''z'' then char_of (of_char c - (32 :: nat)) else c)"

fun role_str :: "role \<Rightarrow> string" where
  "role_str ROLE_LP = ''LP''"
| "role_str ROLE_VIEWER = ''VIEWER''"
| "role_str ROLE_OPERATOR = ''OPERATOR''"
| "role_str ROLE_CONTROLLER = ''CONTROLLER''"

definition KEY_NAME :: string where
  "KEY_NAME = ''demo_access''"

definition LP_NAME :: string where
  "LP_NAME = ''Kelvin Family Office''"

text \<open>Role, user name, the variable its key is printed as, and a remark.\<close>

definition ROLES :: "(role \<times> string \<times> string \<times> string) list" where
  "ROLES =
     [(ROLE_LP, ''demo-lp'', ''LP_KEY'', LP_NAME @ [CHR 0x27] @ ''s statement only; every other LP is a 404''),
      (ROLE_VIEWER, ''demo-viewer'', ''VIEWER_KEY'', ''reads the whole fund; any write is a 403''),
      (ROLE_OPERATOR, ''demo-operator'', ''OPERATOR_KEY'', ''also posts capital calls, distributions, reversals''),
      (ROLE_CONTROLLER, ''demo-controller'', ''CONTROLLER_KEY'', ''also closes periods'')]"

definition wanted_roles :: "string \<Rightarrow> fault + string list" where
  "wanted_roles roles =
     (let wanted = map (\<lambda>r. map upper_char (strip r)) (split_at CHR '','' [] roles) in
      if set wanted \<subseteq> set (map (\<lambda>(r, _, _). role_str r) ROLES) then Inr wanted
      else Inl (CommandError ''unknown role(s)''))"

text \<open>
  One role: its user, membership and a fresh key, the earlier ones of this command revoked;
  the key under its variable, and the lines printed.
\<close>

definition demo_role ::
    "env \<Rightarrow> draw \<Rightarrow> nat \<Rightarrow> uuid \<Rightarrow> uuid \<Rightarrow> uuid \<Rightarrow> timestamp \<Rightarrow> role \<times> string \<times> string \<times> string
       \<Rightarrow> ((string \<times> string) \<times> string list) site_op" where
  "demo_role env d uid mid fid lp expires_at row =
     (case row of (r, username, variable, blurb) \<Rightarrow>
        bind_act (ensure_user uid username) (\<lambda>u.
        bind_act (update_or_create_membership env mid u fid r (if r = ROLE_LP then Some lp else None)) (\<lambda>_.
        bind_act (modify (revoke_where (\<lambda>k. k_user k = u_id u \<and> k_name k = KEY_NAME) (now env))) (\<lambda>_.
        bind_act (issue_key env d u KEY_NAME (Some expires_at)) (\<lambda>(_, raw).
        ret ((variable, raw), [''# '' @ role_str r @ '': '' @ blurb, variable @ ''='' @ raw]))))))"

fun gather :: "('a \<Rightarrow> ('s, 'e, 'b) act) \<Rightarrow> 'a list \<Rightarrow> ('s, 'e, 'b list) act" where
  "gather f [] = ret []"
| "gather f (x # xs) = bind_act (f x) (\<lambda>y. bind_act (gather f xs) (\<lambda>ys. ret (y # ys)))"

definition int_str :: "int \<Rightarrow> string" where
  "int_str n = (if n < 0 then ''-'' @ nat_str (- n) else nat_str n)"

definition demo_banner :: "string \<Rightarrow> int \<Rightarrow> uuid \<Rightarrow> string list" where
  "demo_banner api days fid =
     [''# Fund Ledger demo access. Keys expire in '' @ int_str days @ '' days; re-run for fresh ones.'',
      ''# Try them in the browser: '' @ api @ ''/api/docs/ -> Authorize. Or: make tour'',
      ''API='' @ api,
      ''FUND_ID='' @ uuid_str fid]"

definition write_key_lines :: "(string \<times> string) list \<Rightarrow> string list" where
  "write_key_lines keys =
     (case map_of keys ''OPERATOR_KEY'' of
        None \<Rightarrow> []
      | Some raw \<Rightarrow> [''# The security tour'' @ [CHR 0x27] @ ''s write checks use this one:'', ''WRITE_KEY='' @ raw])"

text \<open>
  \<open>seed\<close> is \<^verbatim>\<open>call_command("seed_demo")\<close>; \<open>draws\<close>, \<open>uids\<close> and \<open>mids\<close> are what is
  drawn for each role.
\<close>

definition demo_access ::
    "(string \<Rightarrow> uuid) \<Rightarrow> unit op \<Rightarrow> env \<Rightarrow> (nat \<Rightarrow> draw) \<Rightarrow> (nat \<Rightarrow> nat) \<Rightarrow> (nat \<Rightarrow> uuid) \<Rightarrow> int \<Rightarrow> string \<Rightarrow> string
       \<Rightarrow> string site_op" where
  "demo_access demo_id seed env draws uids mids days api roles =
     bind_act (on_db seed) (\<lambda>_.
     bind_act (on_db (query (get_fund (demo_id ''fund'')))) (\<lambda>fund.
     bind_act (on_db (query (get_lp (demo_id (''lp:'' @ LP_NAME))))) (\<lambda>lp.
     let base = rev (dropWhile (\<lambda>c. c = CHR ''/'') (rev api)) in
     bind_act (query (\<lambda>_. wanted_roles roles)) (\<lambda>wanted.
     bind_act (atomic (gather (\<lambda>(i, row). demo_role env (draws i) (uids i) (mids i) (f_id fund) (lp_id lp)
           (now env + days_us days) row)
         (filter (\<lambda>(_, r, _). role_str r \<in> set wanted) (enumerate 0 ROLES)))) (\<lambda>rows.
     ret (intercalate [CHR 0x0A] (demo_banner base days (f_id fund) @ concat (map snd rows) @ write_key_lines (map fst rows))))))))"

section \<open>The writes keep the access tables well formed\<close>

lemma access_wf_insert_user [keeps_intros]: "keeps access_wf (insert_user u)"
proof (rule keepsI)
  fix s r s' assume "access_wf s" "insert_user u s = (r, s')"
  then show "access_wf s'"
    by (cases r) (auto simp: insert_user_def act access_wf_def image_iff)
qed

lemma keeps_ensure_user [keeps_intros]: "(\<And>u. keeps P (insert_user u)) \<Longrightarrow> keeps P (ensure_user uid name)"
  unfolding ensure_user_def Let_def by (intro keeps_intros) (auto intro!: keeps_intros split: option.splits)

lemma membership_on_Some:
  "membership_on uid fid s = Some m \<Longrightarrow> m \<in> set (site_memberships s) \<and> m_user m = uid \<and> m_fund m = fid"
  by (auto simp: membership_on_def dest!: first_row_Some)

lemma membership_on_None:
  "membership_on uid fid s = None \<longleftrightarrow> (\<forall>m \<in> set (site_memberships s). m_user m = uid \<longrightarrow> m_fund m \<noteq> fid)"
  by (auto simp: membership_on_def filter_empty_conv simp flip: set_empty)

text \<open>The row that an update replaces keeps its id, user and fund.\<close>

lemma replace_rows:
  assumes "distinct (map m_id ms)" and "m0 \<in> set ms" and "m_id m = m_id m0" "m_user m = m_user m0" "m_fund m = m_fund m0"
  shows "map m_id (map (\<lambda>n. if m_id n = m_id m then m else n) ms) = map m_id ms"
    and "map (\<lambda>m. (m_user m, m_fund m)) (map (\<lambda>n. if m_id n = m_id m then m else n) ms) = map (\<lambda>m. (m_user m, m_fund m)) ms"
proof -
  have "n = m0" if "n \<in> set ms" "m_id n = m_id m" for n
    using assms(1,2,3) that by (metis distinct_map inj_onD)
  then show "map m_id (map (\<lambda>n. if m_id n = m_id m then m else n) ms) = map m_id ms"
    and "map (\<lambda>m. (m_user m, m_fund m)) (map (\<lambda>n. if m_id n = m_id m then m else n) ms) = map (\<lambda>m. (m_user m, m_fund m)) ms"
    using assms(3-5) by auto
qed

lemma access_wf_update_membership:
  assumes wf: "access_wf s" and m0: "m0 \<in> set (site_memberships s)"
    and u: "update_membership (m0\<lparr>m_role := r, m_lp := lp\<rparr>) s = (x, s')"
  shows "access_wf s'"
proof (cases x)
  case (Inr y)
  let ?m = "m0\<lparr>m_role := r, m_lp := lp\<rparr>"
  have s': "s' = s\<lparr>site_memberships := map (\<lambda>n. if m_id n = m_id ?m then ?m else n) (site_memberships s)\<rparr>"
    and c: "membership_check r lp"
    using u Inr by (auto simp: update_membership_def act)
  have d: "distinct (map m_id (site_memberships s))" using wf by (simp add: access_wf_def)
  have sm: "site_memberships s' = map (\<lambda>n. if m_id n = m_id ?m then ?m else n) (site_memberships s)" by (simp add: s')
  have "distinct (map m_id (site_memberships s'))" unfolding sm
    by (subst replace_rows(1) [OF d m0]) (use wf in \<open>simp_all add: access_wf_def\<close>)
  moreover have "distinct (map (\<lambda>m. (m_user m, m_fund m)) (site_memberships s'))" unfolding sm
    by (subst replace_rows(2) [OF d m0]) (use wf in \<open>simp_all add: access_wf_def\<close>)
  moreover have "\<forall>m \<in> set (site_memberships s'). membership_check (m_role m) (m_lp m)"
    using wf c by (auto simp: s' access_wf_def)
  moreover have "site_users s' = site_users s" "site_keys s' = site_keys s" by (simp_all add: s')
  ultimately show ?thesis using wf by (simp add: access_wf_def)
qed (use wf u in \<open>auto simp: update_membership_def act\<close>)

lemma access_wf_update_or_create [keeps_intros]: "keeps access_wf (update_or_create_membership env mid u fid r lp)"
  unfolding update_or_create_membership_def
proof (intro keeps_atomic keepsI)
  fix s x s'
  assume wf: "access_wf s"
    and b: "bind_act (query (\<lambda>s. Inr (membership_on (u_id u) fid s))) (\<lambda>found.
       case found of
         Some m \<Rightarrow> update_membership (m\<lparr>m_role := r, m_lp := lp\<rparr>)
       | None \<Rightarrow> insert_membership \<lparr>m_id = mid, m_user = u_id u, m_fund = fid, m_role = r, m_lp = lp,
           m_created_at = now env\<rparr>) s = (x, s')"
  show "access_wf s'"
  proof (cases "membership_on (u_id u) fid s")
    case None
    with b wf show ?thesis by (auto simp: bind_act_def query_def dest: keepsD [OF access_wf_insert_membership])
  next
    case (Some m)
    with b wf show ?thesis
      by (auto simp: bind_act_def query_def dest: membership_on_Some intro: access_wf_update_membership)
  qed
qed

lemma access_wf_revoke_where: "access_wf s \<Longrightarrow> access_wf (revoke_where P t s)"
  unfolding revoke_where_def by (rule access_wf_update_keys) auto

lemma access_wf_delete_others: "access_wf s \<Longrightarrow> access_wf (delete_other_memberships uid fid s)"
  by (auto simp: delete_other_memberships_def access_wf_def distinct_map intro: inj_on_subset)

lemma keeps_modify: "(\<And>s. P s \<Longrightarrow> P (f s)) \<Longrightarrow> keeps P (modify f)"
  by (auto simp: keeps_def act)

lemma keeps_gather [keeps_intros]: "(\<And>x. x \<in> set xs \<Longrightarrow> keeps P (f x)) \<Longrightarrow> keeps P (gather f xs)"
  by (induction xs) (auto intro: keeps_intros)

lemma keeps_prod [keeps_intros]: "(\<And>a b. keeps P (f a b)) \<Longrightarrow> keeps P (case p of (a, b) \<Rightarrow> f a b)"
  by (cases p) simp

end
