(* ===== verification/Routing.thy ===== *)
theory Routing
  imports Access_Commands
begin

text \<open>
  \<^verbatim>\<open>api/urls.py\<close> and \<^verbatim>\<open>config/urls.py\<close>: which path reaches which view.
  A path is resolved segment by segment; a \<^verbatim>\<open><uuid:...>\<close> segment is Django's UUID
  converter, which takes the canonical lower-case text only. \<open>endpoint_path\<close> is the inverse, and
  the two are shown to be mutually inverse.
\<close>

section \<open>UUID segments\<close>

definition hex_val :: "char \<Rightarrow> int" where
  "hex_val c = (if c \<le> CHR ''9'' then of_char c - 48 else of_char c - 87)"

definition hex_value :: "string \<Rightarrow> int" where
  "hex_value s = foldl (\<lambda>a c. 16 * a + hex_val c) 0 s"

definition uuid_digits :: "string \<Rightarrow> string" where
  "uuid_digits s = take 8 s @ take 4 (drop 9 s) @ take 4 (drop 14 s) @ take 4 (drop 19 s) @ drop 24 s"

text \<open>\<^verbatim>\<open>[0-9a-f]{8}-[0-9a-f]{4}-[0-9a-f]{4}-[0-9a-f]{4}-[0-9a-f]{12}\<close>\<close>

definition parse_uuid :: "string \<Rightarrow> uuid option" where
  "parse_uuid s =
     (if length s = 36 \<and> s ! 8 = CHR ''-'' \<and> s ! 13 = CHR ''-'' \<and> s ! 18 = CHR ''-'' \<and> s ! 23 = CHR ''-''
         \<and> list_all hex_digit (uuid_digits s)
      then Some (nat (hex_value (uuid_digits s))) else None)"

subsection \<open>The two directions\<close>

lemma digits_in_length [simp]: "length (digits_in b w n) = w"
  by (induction w arbitrary: n) auto

lemma all_digits: "list_all (\<lambda>d. hex_digit (digit_char d) \<and> hex_val (digit_char d) = d) [0..15]"
  by code_simp

lemma hex_digit_digit_char: "0 \<le> d \<Longrightarrow> d < 16 \<Longrightarrow> hex_digit (digit_char d) \<and> hex_val (digit_char d) = d"
  using all_digits by (simp add: list_all_iff)

lemma char_le_int: "c \<le> d \<longleftrightarrow> (of_char c :: int) \<le> of_char d"
  unfolding less_eq_char_def by (simp only: of_nat_le_iff [where 'a = int, symmetric] of_nat_of_char)

lemma hex_digit_val: "hex_digit c \<Longrightarrow> 0 \<le> hex_val c \<and> hex_val c < 16 \<and> digit_char (hex_val c) = c"
  by (auto simp: hex_digit_def hex_val_def digit_char_def char_le_int)

lemma digits_in_hex: "list_all hex_digit (digits_in 16 w n)"
  by (induction w arbitrary: n) (auto simp: hex_digit_digit_char)

lemma hex_value_snoc: "hex_value (s @ [c]) = 16 * hex_value s + hex_val c"
  by (simp add: hex_value_def)

lemma hex_value_digits: "hex_value (digits_in 16 w n) = n mod 16 ^ w"
proof (induction w arbitrary: n)
  case 0
  show ?case by (simp add: hex_value_def)
next
  case (Suc w)
  have "hex_val (digit_char (n mod 16)) = n mod 16" using hex_digit_digit_char [of "n mod 16"] by simp
  then have "hex_value (digits_in 16 (Suc w) n) = 16 * (n div 16 mod 16 ^ w) + n mod 16"
    by (simp add: hex_value_snoc Suc.IH)
  also have "\<dots> = n mod (16 * 16 ^ w)" by (rule zmod_zmult2_eq [symmetric]) simp
  finally show ?case by simp
qed

lemma hex_value_nonneg: "list_all hex_digit s \<Longrightarrow> 0 \<le> hex_value s \<and> hex_value s < 16 ^ length s"
proof (induction s rule: rev_induct)
  case Nil
  show ?case by (simp add: hex_value_def)
next
  case (snoc c s)
  then have "0 \<le> hex_val c" "hex_val c < 16" using hex_digit_val by auto
  with snoc show ?case by (auto simp: hex_value_snoc)
qed

lemma digits_in_hex_value: "list_all hex_digit s \<Longrightarrow> digits_in 16 (length s) (hex_value s) = s"
proof (induction s rule: rev_induct)
  case (snoc c s)
  then have c: "0 \<le> hex_val c" "hex_val c < 16" "digit_char (hex_val c) = c" using hex_digit_val by auto
  then have "(16 * hex_value s + hex_val c) div 16 = hex_value s" "(16 * hex_value s + hex_val c) mod 16 = hex_val c"
    by simp_all
  with snoc c show ?case by (simp add: hex_value_snoc)
qed simp

lemma split_at_pos: "length s = n \<Longrightarrow> k < n \<Longrightarrow> s = take k s @ s ! k # drop (Suc k) s"
  by (simp add: id_take_nth_drop)

lemma regroup: "take 8 h @ take 4 (drop 8 h) @ take 4 (drop 12 h) @ take 4 (drop 16 h) @ drop 20 h = h"
proof -
  have step: "take k (drop n h) @ drop (n + k) h = drop n h" for k n
    using append_take_drop_id [of k "drop n h"] by (simp add: add.commute)
  show ?thesis using step [of 4 16] step [of 4 12] step [of 4 8] step [of 8 0] by simp
qed

lemma uuid_digits_uuid_str: "uuid_digits (uuid_str u) = uuid_hex u"
proof -
  have l: "length (uuid_hex u) = 32" by (simp add: uuid_hex_def)
  have "uuid_digits (uuid_str u) = take 8 (uuid_hex u) @ take 4 (drop 8 (uuid_hex u)) @ take 4 (drop 12 (uuid_hex u))
      @ take 4 (drop 16 (uuid_hex u)) @ drop 20 (uuid_hex u)"
    using l by (simp add: uuid_digits_def uuid_str_def Let_def)
  also have "\<dots> = uuid_hex u" by (rule regroup)
  finally show ?thesis .
qed

lemma uuid_str_nth:
  "length (uuid_str u) = 36 \<and> uuid_str u ! 8 = CHR ''-'' \<and> uuid_str u ! 13 = CHR ''-'' \<and>
   uuid_str u ! 18 = CHR ''-'' \<and> uuid_str u ! 23 = CHR ''-''"
proof -
  have "length (uuid_hex u) = 32" by (simp add: uuid_hex_def)
  then show ?thesis by (simp add: uuid_str_def Let_def nth_append)
qed

lemma parse_uuid_str:
  assumes "u < 16 ^ 32"
  shows "parse_uuid (uuid_str u) = Some u"
proof -
  have "int u mod 16 ^ 32 = int u" using assms by simp
  then have "nat (hex_value (uuid_hex u)) = u" by (simp add: uuid_hex_def hex_value_digits)
  then show ?thesis
    using uuid_str_nth [of u] by (simp add: parse_uuid_def uuid_digits_uuid_str) (simp add: uuid_hex_def digits_in_hex)
qed

lemma uuid_text:
  assumes "length s = 36" and "s ! 8 = CHR ''-''" "s ! 13 = CHR ''-''" "s ! 18 = CHR ''-''" "s ! 23 = CHR ''-''"
  shows "s = take 8 s @ ''-'' @ take 4 (drop 9 s) @ ''-'' @ take 4 (drop 14 s) @ ''-'' @ take 4 (drop 19 s) @ ''-'' @ drop 24 s"
proof -
  have step: "drop n s = take k (drop n s) @ s ! (n + k) # drop (Suc (n + k)) s" if "n + k < 36" for n k
  proof -
    have "drop (n + k) s = s ! (n + k) # drop (Suc (n + k)) s" using that assms(1) by (simp add: Cons_nth_drop_Suc)
    then show ?thesis using append_take_drop_id [of k "drop n s"] by (simp add: add.commute)
  qed
  show ?thesis using step [of 0 8] step [of 9 4] step [of 14 4] step [of 19 4] assms(2-) by simp
qed

lemma parse_uuid_canonical:
  assumes "parse_uuid s = Some u"
  shows "uuid_str u = s" and "u < 16 ^ 32"
proof -
  let ?h = "uuid_digits s"
  from assms have s: "length s = 36" "s ! 8 = CHR ''-''" "s ! 13 = CHR ''-''" "s ! 18 = CHR ''-''" "s ! 23 = CHR ''-''"
    and h: "list_all hex_digit ?h" and u: "u = nat (hex_value ?h)" by (auto simp: parse_uuid_def split: if_splits)
  have l: "length ?h = 32" using s(1) by (simp add: uuid_digits_def)
  have v: "0 \<le> hex_value ?h" "hex_value ?h < 16 ^ 32" using hex_value_nonneg [OF h] l by auto
  then show "u < 16 ^ 32" using u by (simp add: nat_less_iff)
  have hex: "uuid_hex u = ?h" using digits_in_hex_value [OF h] l v(1) u by (simp add: uuid_hex_def)
  have "take 8 ?h = take 8 s" "take 4 (drop 8 ?h) = take 4 (drop 9 s)" "take 4 (drop 12 ?h) = take 4 (drop 14 s)"
    "take 4 (drop 16 ?h) = take 4 (drop 19 s)" "drop 20 ?h = drop 24 s"
    using s(1) by (simp_all add: uuid_digits_def)
  then show "uuid_str u = s" unfolding uuid_str_def hex Let_def using uuid_text [OF s] by simp
qed

lemma parse_uuid_iff: "parse_uuid s = Some u \<longleftrightarrow> s = uuid_str u \<and> u < 16 ^ 32"
  using parse_uuid_canonical parse_uuid_str by blast

section \<open>The routes\<close>

datatype endpoint =
    FundAccounts uuid
  | CapitalCalls uuid
  | AccountBalance uuid
  | AccountEntries uuid
  | Distributions uuid
  | ReverseTransfer uuid
  | LPStatement uuid uuid
  | FundReconciliation uuid
  | FundPeriods uuid
  | ClosePeriod uuid uuid
  | Me

definition with_uuid :: "(uuid \<Rightarrow> endpoint) \<Rightarrow> string \<Rightarrow> endpoint option" where
  "with_uuid mk s = map_option mk (parse_uuid s)"

text \<open>The patterns of \<^verbatim>\<open>api/urls.py\<close> on the segments of the path below \<^verbatim>\<open>api/v1/\<close>.\<close>

definition api_route :: "string list \<Rightarrow> endpoint option" where
  "api_route segments =
     (case segments of
        [w, u, v, end_of] \<Rightarrow>
          if end_of \<noteq> [] then None
          else if w = ''funds'' \<and> v = ''accounts'' then with_uuid FundAccounts u
          else if w = ''funds'' \<and> v = ''capital-calls'' then with_uuid CapitalCalls u
          else if w = ''accounts'' \<and> v = ''balance'' then with_uuid AccountBalance u
          else if w = ''accounts'' \<and> v = ''entries'' then with_uuid AccountEntries u
          else if w = ''funds'' \<and> v = ''distributions'' then with_uuid Distributions u
          else if w = ''transfers'' \<and> v = ''reverse'' then with_uuid ReverseTransfer u
          else if w = ''funds'' \<and> v = ''reconciliation'' then with_uuid FundReconciliation u
          else if w = ''funds'' \<and> v = ''periods'' then with_uuid FundPeriods u
          else None
      | [w, u, v, u', v', end_of] \<Rightarrow>
          if end_of \<noteq> [] then None
          else if w = ''funds'' \<and> v = ''lps'' \<and> v' = ''statement''
          then Option.bind (parse_uuid u) (\<lambda>f. with_uuid (LPStatement f) u')
          else if w = ''funds'' \<and> v = ''periods'' \<and> v' = ''close''
          then Option.bind (parse_uuid u) (\<lambda>f. with_uuid (ClosePeriod f) u')
          else None
      | [w, end_of] \<Rightarrow> if end_of = [] \<and> w = ''me'' then Some Me else None
      | _ \<Rightarrow> None)"

text \<open>\<^verbatim>\<open>config/urls.py\<close>, on the path without its leading slash.\<close>

datatype route = Healthz | Metrics | Api endpoint | Schema | Docs

definition site_route :: "string \<Rightarrow> route option" where
  "site_route path =
     (case split_at CHR ''/'' [] path of
        [w] \<Rightarrow> if w = ''healthz'' then Some Healthz else if w = ''metrics'' then Some Metrics else None
      | a # b # segments \<Rightarrow>
          if a = ''api'' \<and> b = ''v1'' then map_option Api (api_route segments)
          else if a = ''api'' \<and> b = ''schema'' \<and> segments = [[]] then Some Schema
          else if a = ''api'' \<and> b = ''docs'' \<and> segments = [[]] then Some Docs
          else None
      | [] \<Rightarrow> None)"

section \<open>The inverse\<close>

fun endpoint_segments :: "endpoint \<Rightarrow> string list" where
  "endpoint_segments (FundAccounts f) = [''funds'', uuid_str f, ''accounts'', []]"
| "endpoint_segments (CapitalCalls f) = [''funds'', uuid_str f, ''capital-calls'', []]"
| "endpoint_segments (AccountBalance a) = [''accounts'', uuid_str a, ''balance'', []]"
| "endpoint_segments (AccountEntries a) = [''accounts'', uuid_str a, ''entries'', []]"
| "endpoint_segments (Distributions f) = [''funds'', uuid_str f, ''distributions'', []]"
| "endpoint_segments (ReverseTransfer t) = [''transfers'', uuid_str t, ''reverse'', []]"
| "endpoint_segments (LPStatement f l) = [''funds'', uuid_str f, ''lps'', uuid_str l, ''statement'', []]"
| "endpoint_segments (FundReconciliation f) = [''funds'', uuid_str f, ''reconciliation'', []]"
| "endpoint_segments (FundPeriods f) = [''funds'', uuid_str f, ''periods'', []]"
| "endpoint_segments (ClosePeriod f p) = [''funds'', uuid_str f, ''periods'', uuid_str p, ''close'', []]"
| "endpoint_segments Me = [''me'', []]"

fun endpoint_ids :: "endpoint \<Rightarrow> uuid list" where
  "endpoint_ids (LPStatement f l) = [f, l]"
| "endpoint_ids (ClosePeriod f p) = [f, p]"
| "endpoint_ids (FundAccounts u) = [u]"
| "endpoint_ids (CapitalCalls u) = [u]"
| "endpoint_ids (AccountBalance u) = [u]"
| "endpoint_ids (AccountEntries u) = [u]"
| "endpoint_ids (Distributions u) = [u]"
| "endpoint_ids (ReverseTransfer u) = [u]"
| "endpoint_ids (FundReconciliation u) = [u]"
| "endpoint_ids (FundPeriods u) = [u]"
| "endpoint_ids Me = []"

definition endpoint_path :: "endpoint \<Rightarrow> string" where
  "endpoint_path e = intercalate ''/'' (''api'' # ''v1'' # endpoint_segments e)"

lemma api_route_segments: "\<forall>u \<in> set (endpoint_ids e). u < 16 ^ 32 \<Longrightarrow> api_route (endpoint_segments e) = Some e"
  by (cases e) (simp_all add: api_route_def with_uuid_def parse_uuid_str)

lemma api_route_canonical:
  assumes "api_route segments = Some e"
  shows "endpoint_segments e = segments" and "\<forall>u \<in> set (endpoint_ids e). u < 16 ^ 32"
proof -
  have "endpoint_segments e = segments \<and> (\<forall>u \<in> set (endpoint_ids e). u < 16 ^ 32)"
    using assms unfolding api_route_def with_uuid_def
    by (auto split: list.splits if_splits simp: bind_eq_Some_conv parse_uuid_iff)
  then show "endpoint_segments e = segments" and "\<forall>u \<in> set (endpoint_ids e). u < 16 ^ 32" by auto
qed

text \<open>Splitting a path undoes joining its segments, and the other way round.\<close>

lemma split_at_append: "d \<notin> set u \<Longrightarrow> split_at d w (u @ d # v) = (w @ u) # split_at d [] v"
  by (induction u arbitrary: w) auto

lemma split_at_none: "d \<notin> set u \<Longrightarrow> split_at d w u = [w @ u]"
  by (induction u arbitrary: w) auto

lemma split_at_intercalate:
  "xs \<noteq> [] \<Longrightarrow> \<forall>x \<in> set xs. d \<notin> set x \<Longrightarrow> split_at d [] (intercalate [d] xs) = xs"
  by (induction "[d]" xs rule: intercalate.induct) (auto simp: split_at_append split_at_none)

lemma split_at_nonempty: "split_at d w s \<noteq> []"
  by (induction d w s rule: split_at.induct) auto

lemma intercalate_Cons: "xs \<noteq> [] \<Longrightarrow> intercalate sep (x # xs) = x @ sep @ intercalate sep xs"
  by (cases xs) auto

lemma intercalate_split_at: "intercalate [d] (split_at d w s) = w @ s"
  by (induction d w s rule: split_at.induct) (auto simp: intercalate_Cons split_at_nonempty)

lemma slash_not_in_uuid_str: "CHR ''/'' \<notin> set (uuid_str u)"
proof -
  have "CHR ''/'' \<notin> set (uuid_hex u)" using digits_in_hex [of 32 "int u"]
    by (auto simp: uuid_hex_def list_all_iff hex_digit_def)
  then show ?thesis by (auto simp: uuid_str_def Let_def dest: in_set_takeD in_set_dropD)
qed

lemma segments_no_slash: "x \<in> set (endpoint_segments e) \<Longrightarrow> CHR ''/'' \<notin> set x"
  by (cases e) (auto simp: slash_not_in_uuid_str)

lemma site_route_path:
  assumes "\<forall>u \<in> set (endpoint_ids e). u < 16 ^ 32"
  shows "site_route (endpoint_path e) = Some (Api e)"
proof -
  have "split_at CHR ''/'' [] (endpoint_path e) = ''api'' # ''v1'' # endpoint_segments e"
    unfolding endpoint_path_def by (rule split_at_intercalate) (auto dest: segments_no_slash)
  then show ?thesis using api_route_segments [OF assms] by (simp add: site_route_def)
qed

lemma site_route_Api:
  assumes "site_route path = Some (Api e)"
  shows "endpoint_path e = path" and "\<forall>u \<in> set (endpoint_ids e). u < 16 ^ 32"
proof -
  from assms obtain segments where p: "split_at CHR ''/'' [] path = ''api'' # ''v1'' # segments"
    and e: "api_route segments = Some e"
    unfolding site_route_def by (auto split: list.splits if_splits)
  show "endpoint_path e = path"
    using intercalate_split_at [of "CHR ''/''" "[]" path] unfolding p endpoint_path_def api_route_canonical(1) [OF e] by simp
  show "\<forall>u \<in> set (endpoint_ids e). u < 16 ^ 32" using e by (rule api_route_canonical(2))
qed

end
