(* ===== verification/Retry.thy ===== *)
theory Retry
  imports Data_Model
begin

text \<open>
  \<^verbatim>\<open>ledger/retry.py\<close>: run an operation again, at most \<^verbatim>\<open>attempts\<close>
  times, when PostgreSQL reports a deadlock or a serialization failure. An attempt is numbered,
  because the clock, the drawn ids and the other sessions differ from one to the next. Next to
  the result stands what the loop logs: the SQLSTATE it counts in \<^verbatim>\<open>DB_RETRIES\<close> and
  the seconds it sleeps.
\<close>

section \<open>The loop\<close>

definition RETRYABLE_SQLSTATES :: "string set" where
  "RETRYABLE_SQLSTATES = {''40P01'', ''40001''}"

definition retryable :: "bool \<Rightarrow> exn \<Rightarrow> bool" where
  "retryable in_atomic_block e =
     (case e of OperationalErr sqlstate \<Rightarrow> sqlstate \<in> RETRYABLE_SQLSTATES \<and> \<not> in_atomic_block | _ \<Rightarrow> False)"

fun sqlstate_of :: "exn \<Rightarrow> string" where
  "sqlstate_of (OperationalErr st) = st"
| "sqlstate_of _ = []"

text \<open>\<open>rnd n\<close> is \<^verbatim>\<open>random.random()\<close> after attempt \<open>n\<close>.\<close>

record backoff =
  attempts :: nat
  base_delay :: rat

definition default_backoff :: backoff where
  "default_backoff = \<lparr>attempts = 3, base_delay = 2/100\<rparr>"

function retry_from ::
    "backoff \<Rightarrow> bool \<Rightarrow> (nat \<Rightarrow> rat) \<Rightarrow> (nat \<Rightarrow> ('s, exn, 'a) act) \<Rightarrow> nat \<Rightarrow> 's \<Rightarrow> ((exn + 'a) \<times> 's) \<times> (string \<times> rat) list" where
  "retry_from b in_atomic_block rnd fn attempt s =
     (if attempts b < attempt then ((Inl AssertionErr, s), [])
      else case fn attempt s of
        (Inr x, s') \<Rightarrow> ((Inr x, s'), [])
      | (Inl e, s') \<Rightarrow>
          if \<not> retryable in_atomic_block e \<or> attempt = attempts b then ((Inl e, s'), [])
          else
            let (result, log) = retry_from b in_atomic_block rnd fn (attempt + 1) s'
            in (result, (sqlstate_of e, base_delay b * 2 ^ attempt * rnd attempt) # log))"
  by pat_completeness auto
termination
  by (relation "measure (\<lambda>(b, _, _, _, attempt, _). attempts b + 1 - attempt)") auto

declare retry_from.simps [simp del]

definition with_deadlock_retry ::
    "backoff \<Rightarrow> bool \<Rightarrow> (nat \<Rightarrow> rat) \<Rightarrow> (nat \<Rightarrow> ('s, exn, 'a) act) \<Rightarrow> 's \<Rightarrow> ((exn + 'a) \<times> 's) \<times> (string \<times> rat) list" where
  "with_deadlock_retry b in_atomic_block rnd fn s = retry_from b in_atomic_block rnd fn 1 s"

text \<open>As an operation, its log apart.\<close>

definition retrying ::
    "backoff \<Rightarrow> bool \<Rightarrow> (nat \<Rightarrow> rat) \<Rightarrow> (nat \<Rightarrow> ('s, exn, 'a) act) \<Rightarrow> ('s, exn, 'a) act" where
  "retrying b in_atomic_block rnd fn = (\<lambda>s. fst (with_deadlock_retry b in_atomic_block rnd fn s))"

section \<open>What the loop guarantees\<close>

text \<open>The two ways an attempt ends: with a result that stands, or with a failure that is retried.\<close>

lemma retry_from_cases:
  assumes "attempt \<le> attempts b"
  obtains (stands) r s' where "fn attempt s = (r, s')" "retry_from b a rnd fn attempt s = ((r, s'), [])"
      "(\<exists>x. r = Inr x) \<or> (\<exists>e. r = Inl e \<and> (\<not> retryable a e \<or> attempt = attempts b))"
  | (again) e s' where "fn attempt s = (Inl e, s')" "retryable a e" "attempt < attempts b"
      "retry_from b a rnd fn attempt s =
         (fst (retry_from b a rnd fn (attempt + 1) s'),
          (sqlstate_of e, base_delay b * 2 ^ attempt * rnd attempt) # snd (retry_from b a rnd fn (attempt + 1) s'))"
proof -
  obtain r s' where fn: "fn attempt s = (r, s')" by fastforce
  show thesis
  proof (cases r)
    case (Inr x)
    with fn assms show thesis by (intro stands [of r s']) (simp_all add: retry_from.simps [of b a rnd fn attempt s])
  next
    case (Inl e)
    show thesis
    proof (cases "retryable a e \<and> attempt \<noteq> attempts b")
      case True
      with fn assms Inl show thesis
        by (intro again [of e s']) (simp_all add: retry_from.simps [of b a rnd fn attempt s] case_prod_unfold Let_def)
    next
      case False
      with fn assms Inl show thesis
        by (intro stands [of r s']) (auto simp: retry_from.simps [of b a rnd fn attempt s])
    qed
  qed
qed

text \<open>
  The result is that of one attempt, made in the state that the failed attempts before it left.
\<close>

lemma retry_from_attempt:
  assumes "attempt \<le> attempts b" and "\<And>n s e s'. fn n s = (Inl e, s') \<Longrightarrow> retryable a e \<Longrightarrow> s' = s"
  shows "\<exists>n \<in> {attempt..attempts b}. fst (retry_from b a rnd fn attempt s) = fn n s \<and>
    length (snd (retry_from b a rnd fn attempt s)) = n - attempt \<and>
    (\<forall>k \<in> {attempt..<n}. \<exists>e. fn k s = (Inl e, s) \<and> retryable a e)"
  using assms(1)
proof (induction "attempts b - attempt" arbitrary: attempt rule: less_induct)
  case less
  from less.prems show ?case
  proof (cases rule: retry_from_cases [where fn = fn and s = s and a = a and rnd = rnd])
    case (stands r s')
    then show ?thesis using less.prems by (intro bexI [of _ attempt]) auto
  next
    case (again e s')
    with assms(2) have s': "s' = s" by blast
    have "attempts b - (attempt + 1) < attempts b - attempt" "attempt + 1 \<le> attempts b" using again(3) by simp_all
    from less.hyps [OF this] obtain n where n: "n \<in> {attempt + 1..attempts b}"
      "fst (retry_from b a rnd fn (attempt + 1) s) = fn n s"
      "length (snd (retry_from b a rnd fn (attempt + 1) s)) = n - (attempt + 1)"
      "\<forall>k \<in> {attempt + 1..<n}. \<exists>e. fn k s = (Inl e, s) \<and> retryable a e" by blast
    have "\<exists>e. fn k s = (Inl e, s) \<and> retryable a e" if "k \<in> {attempt..<n}" for k
      using n(4) that again(1,2) s' by (cases "k = attempt") auto
    with n again(4) s' show ?thesis by (intro bexI [of _ n]) auto
  qed
qed

lemma retry_log_bound:
  assumes "0 \<le> base_delay b" and "\<And>n. 0 \<le> rnd n \<and> rnd n \<le> 1" and "attempt \<le> attempts b"
  shows "sum_list (map snd (snd (retry_from b a rnd fn attempt s))) \<le> base_delay b * (2 ^ attempts b - 2 ^ attempt)"
  using assms(3)
proof (induction "attempts b - attempt" arbitrary: attempt s rule: less_induct)
  case less
  from less.prems show ?case
  proof (cases rule: retry_from_cases [where fn = fn and s = s and a = a and rnd = rnd])
    case (stands r s')
    have "(2::rat) ^ attempt \<le> 2 ^ attempts b" using less.prems by (intro power_increasing) auto
    with stands(2) assms(1) show ?thesis by simp
  next
    case (again e s')
    have "sum_list (map snd (snd (retry_from b a rnd fn (attempt + 1) s'))) \<le> base_delay b * (2 ^ attempts b - 2 ^ (attempt + 1))"
      using again(3) by (intro less.hyps) auto
    moreover have "base_delay b * 2 ^ attempt * rnd attempt \<le> base_delay b * 2 ^ attempt * 1"
      using assms(1,2) by (intro mult_left_mono) auto
    ultimately have "base_delay b * 2 ^ attempt * rnd attempt + sum_list (map snd (snd (retry_from b a rnd fn (attempt + 1) s')))
        \<le> base_delay b * 2 ^ attempt * 1 + base_delay b * (2 ^ attempts b - 2 ^ (attempt + 1))" by (rule add_mono [rotated])
    also have "\<dots> = base_delay b * (2 ^ attempts b - 2 ^ attempt)" by (simp add: algebra_simps)
    finally show ?thesis using again(4) by simp
  qed
qed

lemma keeps_retry_from:
  assumes "\<And>n. keeps P (fn n)" and "P s"
  shows "P (snd (fst (retry_from b a rnd fn attempt s)))"
  using assms(2)
proof (induction "attempts b + 1 - attempt" arbitrary: attempt s rule: less_induct)
  case less
  show ?case
  proof (cases "attempt \<le> attempts b")
    case True
    then show ?thesis
    proof (cases rule: retry_from_cases [where fn = fn and s = s and a = a and rnd = rnd])
      case (stands r s')
      then show ?thesis using keepsD [OF assms(1) less.prems] by auto
    next
      case (again e s')
      then have "P s'" using keepsD [OF assms(1) less.prems] by blast
      moreover have "attempts b + 1 - (attempt + 1) < attempts b + 1 - attempt" using again(3) by simp
      ultimately show ?thesis using less.hyps again(4) by auto
    qed
  next
    case False
    then show ?thesis using less.prems by (simp add: retry_from.simps [of b a rnd fn attempt s])
  qed
qed

text \<open>A result was returned by an attempt, from a state that the attempts before it left.\<close>

lemma retry_from_Inr:
  assumes "\<And>n. keeps P (fn n)" and "P s" and "fst (retry_from b a rnd fn attempt s) = (Inr x, s')"
  shows "\<exists>n t. P t \<and> fn n t = (Inr x, s')"
  using assms(2,3)
proof (induction "attempts b + 1 - attempt" arbitrary: attempt s rule: less_induct)
  case less
  show ?case
  proof (cases "attempt \<le> attempts b")
    case True
    then show ?thesis
    proof (cases rule: retry_from_cases [where fn = fn and s = s and a = a and rnd = rnd])
      case (stands r s'')
      then show ?thesis using less.prems by auto
    next
      case (again e s'')
      then have "P s''" using keepsD [OF assms(1) less.prems(1)] by blast
      moreover have "attempts b + 1 - (attempt + 1) < attempts b + 1 - attempt" using again(3) by simp
      ultimately show ?thesis using less.hyps [of "attempt + 1" s''] less.prems(2) again(4) by simp
    qed
  qed (use less.prems in \<open>simp add: retry_from.simps [of b a rnd fn attempt s]\<close>)
qed

lemma retrying_Inr:
  assumes "\<And>n. keeps P (fn n)" and "P s" and "retrying b a rnd fn s = (Inr x, s')"
  shows "\<exists>n t. P t \<and> fn n t = (Inr x, s')"
  using retry_from_Inr [where attempt = 1, OF assms(1,2)] assms(3) by (simp add: retrying_def with_deadlock_retry_def)

lemma keeps_retrying [keeps_intros]: "(\<And>n. keeps P (fn n)) \<Longrightarrow> keeps P (retrying b a rnd fn)"
  by (rule keepsI) (metis retrying_def with_deadlock_retry_def keeps_retry_from snd_conv)

text \<open>When the first attempt returns, nothing is retried.\<close>

lemma retrying_first: "fn 1 s = (Inr x, s') \<Longrightarrow> retrying default_backoff a rnd fn s = (Inr x, s')"
  unfolding retrying_def with_deadlock_retry_def retry_from.simps [of default_backoff a rnd fn 1 s]
  by (simp add: default_backoff_def)

end
