(* ===== verification/Api_Types.thy ===== *)
theory Api_Types
  imports Routing Retry Statements
begin

text \<open>
  What the HTTP layer works on: parsed JSON, requests, responses, and the record \<open>world\<close> of
  what it takes from outside the repository; and the modules of \<^verbatim>\<open>api/\<close> around the
  views: \<^verbatim>\<open>exceptions.py\<close>, \<^verbatim>\<open>serializers.py\<close>,
  \<^verbatim>\<open>throttling.py\<close>, \<^verbatim>\<open>renderers.py\<close>, and the helpers of
  \<^verbatim>\<open>views.py\<close>. A decimal string is represented by the number it denotes.
\<close>

section \<open>Values, requests, responses\<close>

datatype jval =
    VNull
  | VBool bool
  | VInt int
  | VDec rat
  | VStr string
  | VList "jval list"
  | VObj "(string \<times> jval) list"

text \<open>
  \<open>rq_data\<close> is \<^verbatim>\<open>request.data\<close>, \<open>None\<close> when the parser refuses the body;
  \<open>rq_csv\<close> says that the negotiated renderer is CSV. A header that is absent is the empty string.
\<close>

record request =
  rq_method :: string
  rq_authorization :: string
  rq_idempotency_key :: string
  rq_query :: "(string \<times> string) list"
  rq_data :: "jval option"
  rq_csv :: bool
  rq_id :: string

text \<open>
  The body of an error is its code and, for an unexpected one, the request id; the detail texts
  are left out. \<open>DrfError\<close> is a body that REST framework writes.
\<close>

datatype body = Data jval | ErrorBody string "string option" | DrfError

record response =
  r_status :: nat
  r_body :: body
  r_headers :: "(string \<times> string) list"

definition respond :: "nat \<Rightarrow> jval \<Rightarrow> response" where
  "respond status data = \<lparr>r_status = status, r_body = Data data, r_headers = []\<rparr>"

text \<open>
  Django's \<^verbatim>\<open>parse_datetime\<close> answers with a datetime, with nothing for a text that
  is not of the format, and raises \<^verbatim>\<open>ValueError\<close> for a text of the format that is no
  date. A naive datetime is given by what its clock shows.
\<close>

datatype datetime = Aware timestamp | Naive timestamp

text \<open>
  The world of a request: clock and ids of its attempts, what other sessions commit meanwhile,
  the backoff's random factors, the database's collation, the throttle counters, and the field
  parsers and the paginator of REST framework.
\<close>

record world =
  w_env :: "nat \<Rightarrow> env"
  w_i1 :: "nat \<Rightarrow> db \<Rightarrow> db"
  w_i2 :: "nat \<Rightarrow> db \<Rightarrow> db"
  w_rnd :: "nat \<Rightarrow> rat"
  w_collation :: "string \<Rightarrow> string"
  w_throttle :: "string \<Rightarrow> user option \<Rightarrow> bool"
  w_decimal_field :: "nat \<Rightarrow> nat \<Rightarrow> rat \<Rightarrow> jval \<Rightarrow> rat option"
  w_date_field :: "jval \<Rightarrow> date option"
  w_choice_field :: "string list \<Rightarrow> jval \<Rightarrow> string option"
  w_parse_datetime :: "string \<Rightarrow> exn + datetime option"
  w_page :: "(string \<times> string) list \<Rightarrow> nat \<Rightarrow> entry list \<Rightarrow> entry list"

section \<open>api/exceptions.py\<close>

definition error_response :: "string \<Rightarrow> nat \<Rightarrow> response" where
  "error_response code status = \<lparr>r_status = status, r_body = ErrorBody code None, r_headers = []\<rparr>"

definition CONSTRAINT_ERRORS :: "(string \<times> string \<times> nat) list" where
  "CONSTRAINT_ERRORS =
     [(''period_open'', ''period_closed'', 409),
      (''transfer_reverses_unique'', ''already_reversed'', 409)]"

definition BUSY_SQLSTATES :: "string set" where
  "BUSY_SQLSTATES = {''55P03'', ''57014''}"

definition drf_error :: "nat \<Rightarrow> response" where
  "drf_error status = \<lparr>r_status = status, r_body = DrfError, r_headers = []\<rparr>"

text \<open>
  REST framework's own handler: its exceptions carry their status; a missing or refused
  credential is a 401 because the authenticator names a challenge.
\<close>

fun drf_exception_handler :: "fault \<Rightarrow> response option" where
  "drf_exception_handler NotAuthenticated = Some (drf_error 401)"
| "drf_exception_handler (AuthenticationFailed _) = Some (drf_error 401)"
| "drf_exception_handler PermissionDenied = Some (drf_error 403)"
| "drf_exception_handler NotFound = Some (drf_error 404)"
| "drf_exception_handler MethodNotAllowed = Some (drf_error 405)"
| "drf_exception_handler Throttled = Some (drf_error 429)"
| "drf_exception_handler (ValidationError _) = Some (drf_error 400)"
| "drf_exception_handler ParseError = Some (drf_error 400)"
| "drf_exception_handler _ = None"

definition internal_error :: "request \<Rightarrow> response" where
  "internal_error rq = \<lparr>r_status = 500, r_body = ErrorBody ''internal_error'' (Some (rq_id rq)), r_headers = []\<rparr>"

definition drf_or_internal :: "request \<Rightarrow> fault \<Rightarrow> response" where
  "drf_or_internal rq f = (case drf_exception_handler f of Some r \<Rightarrow> r | None \<Rightarrow> internal_error rq)"

definition exception_handler :: "request \<Rightarrow> fault \<Rightarrow> response" where
  "exception_handler rq f =
     (case f of
        Program (LedgerErr e) \<Rightarrow> error_response (error_code e) (error_http_status e)
      | Program DoesNotExist \<Rightarrow> error_response ''not_found'' 404
      | Program (IntegrityErr c) \<Rightarrow>
          (case map_of CONSTRAINT_ERRORS c of
             Some (code, status) \<Rightarrow> error_response code status
           | None \<Rightarrow> drf_or_internal rq f)
      | Program (OperationalErr sqlstate) \<Rightarrow>
          if sqlstate \<in> BUSY_SQLSTATES
          then (error_response ''busy'' 503)\<lparr>r_headers := [(''Retry-After'', ''1'')]\<rparr>
          else drf_or_internal rq f
      | _ \<Rightarrow> drf_or_internal rq f)"

section \<open>api/throttling.py\<close>

definition SAFE_METHODS :: "string set" where
  "SAFE_METHODS = {''GET'', ''HEAD'', ''OPTIONS''}"

definition mutation_throttle_allows :: "world \<Rightarrow> user option \<Rightarrow> request \<Rightarrow> bool" where
  "mutation_throttle_allows w caller rq =
     (if rq_method rq \<in> SAFE_METHODS then True else w_throttle w ''mutations'' caller)"

text \<open>The three throttle classes of the settings; the first is for anonymous callers only.\<close>

definition check_throttles :: "world \<Rightarrow> user option \<Rightarrow> request \<Rightarrow> fault + unit" where
  "check_throttles w caller rq =
     ensure ((caller \<noteq> None \<or> w_throttle w ''anon'' None) \<and> w_throttle w ''user'' caller \<and> mutation_throttle_allows w caller rq)
       Throttled"

section \<open>api/serializers.py: request bodies\<close>

text \<open>
  A field of a serializer: an absent one is an error when required; null is one always. All
  errors of a body are reported together, as one \<^verbatim>\<open>ValidationError\<close>.
\<close>

definition required_field :: "(jval \<Rightarrow> 'a option) \<Rightarrow> string \<Rightarrow> (string \<times> jval) list \<Rightarrow> fault + 'a" where
  "required_field parse name attrs =
     (case map_of attrs name of
        None \<Rightarrow> Inl (ValidationError name)
      | Some v \<Rightarrow> if v = VNull then Inl (ValidationError name)
          else case parse v of None \<Rightarrow> Inl (ValidationError name) | Some x \<Rightarrow> Inr x)"

definition optional_field :: "(jval \<Rightarrow> 'a option) \<Rightarrow> string \<Rightarrow> (string \<times> jval) list \<Rightarrow> fault + 'a option" where
  "optional_field parse name attrs =
     (if map_of attrs name = None then Inr None else rbind (required_field parse name attrs) (\<lambda>x. Inr (Some x)))"

text \<open>\<^verbatim>\<open>request.data\<close> of a serializer: the body parsed, and an object.\<close>

definition body_fields :: "request \<Rightarrow> fault + (string \<times> jval) list" where
  "body_fields rq =
     (case rq_data rq of
        None \<Rightarrow> Inl ParseError
      | Some (VObj attrs) \<Rightarrow> Inr attrs
      | Some _ \<Rightarrow> Inl (ValidationError ''non_field_errors''))"

definition money_in :: "world \<Rightarrow> jval \<Rightarrow> rat option" where
  "money_in w = w_decimal_field w 18 2 (1/100)"

definition capital_call_request :: "world \<Rightarrow> request \<Rightarrow> fault + rat \<times> date \<times> date" where
  "capital_call_request w rq =
     rbind (body_fields rq) (\<lambda>attrs.
     rbind (required_field (money_in w) ''total_amount'' attrs) (\<lambda>total.
     rbind (required_field (w_date_field w) ''notice_date'' attrs) (\<lambda>notice.
     rbind (required_field (w_date_field w) ''due_date'' attrs) (\<lambda>due.
     rbind (ensure (\<not> due < notice) (ValidationError ''due_date must not precede notice_date'')) (\<lambda>_.
       Inr (total, notice, due))))))"

definition classifications :: "classification list" where
  "classifications = [RETURN_OF_CAPITAL, GAIN, INCOME]"

definition classification_field :: "world \<Rightarrow> jval \<Rightarrow> classification option" where
  "classification_field w v =
     Option.bind (w_choice_field w (map classification_str classifications) v)
       (\<lambda>c. find (\<lambda>k. classification_str k = c) classifications)"

definition distribution_body :: "world \<Rightarrow> request \<Rightarrow> fault + rat \<times> date \<times> classification" where
  "distribution_body w rq =
     rbind (body_fields rq) (\<lambda>attrs.
     rbind (required_field (money_in w) ''total_amount'' attrs) (\<lambda>total.
     rbind (required_field (w_date_field w) ''payment_date'' attrs) (\<lambda>payment.
     rbind (required_field (classification_field w) ''classification'' attrs) (\<lambda>c.
       Inr (total, payment, c)))))"

definition reverse_request :: "world \<Rightarrow> request \<Rightarrow> fault + date option" where
  "reverse_request w rq =
     rbind (body_fields rq) (\<lambda>attrs. optional_field (w_date_field w) ''on_date'' attrs)"

section \<open>api/serializers.py: rows in responses\<close>

definition v_uuid :: "uuid \<Rightarrow> jval" where
  "v_uuid u = VStr (uuid_str u)"

definition v_date :: "date \<Rightarrow> jval" where
  "v_date d = VStr (date_str d)"

definition v_option :: "('a \<Rightarrow> jval) \<Rightarrow> 'a option \<Rightarrow> jval" where
  "v_option f x = (case x of None \<Rightarrow> VNull | Some y \<Rightarrow> f y)"

text \<open>A point in time; its ISO text is not spelled out.\<close>

definition v_time :: "timestamp \<Rightarrow> jval" where
  "v_time t = VInt t"

definition account_json :: "account \<Rightarrow> jval" where
  "account_json a =
     VObj [(''id'', v_uuid (a_id a)), (''code'', VStr (a_code a)),
       (''account_type'', VStr (account_type_str (a_account_type a))), (''currency'', VStr (a_currency a)),
       (''owner_lp'', v_option v_uuid (a_owner_lp a))]"

definition entry_json :: "entry \<Rightarrow> jval" where
  "entry_json e =
     VObj [(''id'', v_uuid (e_id e)), (''transfer'', v_uuid (e_transfer e)), (''account'', v_uuid (e_account e)),
       (''direction'', VStr (direction_str (e_direction e))), (''amount'', VDec (e_amount e)),
       (''currency'', VStr (e_currency e)), (''fx_rate'', v_option VDec (e_fx_rate e)),
       (''base_amount'', VDec (e_base_amount e)), (''signed_amount'', VDec (signed_amount e)),
       (''signed_base_amount'', VDec (signed_base_amount e)), (''created_at'', v_time (e_created_at e))]"

definition transfer_json :: "db \<Rightarrow> transfer \<Rightarrow> jval" where
  "transfer_json s t =
     VObj [(''id'', v_uuid (t_id t)), (''idempotency_key'', VStr (t_idempotency_key t)),
       (''transfer_type'', VStr (transfer_type_str (t_transfer_type t))), (''reverses'', v_option v_uuid (t_reverses t)),
       (''period'', v_uuid (t_period t)), (''description'', VStr (t_description t)),
       (''entries'', VList (map entry_json (entries_of (t_id t) s)))]"

definition capital_call_json :: "capital_call \<Rightarrow> jval" where
  "capital_call_json c =
     VObj [(''id'', v_uuid (cc_id c)), (''fund'', v_uuid (cc_fund c)), (''call_number'', VInt (int (cc_call_number c))),
       (''notice_date'', v_date (cc_notice_date c)), (''due_date'', v_date (cc_due_date c)),
       (''total_amount'', VDec (cc_total_amount c)), (''transfer'', v_uuid (cc_transfer c))]"

definition distribution_json :: "distribution \<Rightarrow> jval" where
  "distribution_json d =
     VObj [(''id'', v_uuid (d_id d)), (''fund'', v_uuid (d_fund d)), (''distribution_number'', VInt (int (d_distribution_number d))),
       (''payment_date'', v_date (d_payment_date d)), (''total_amount'', VDec (d_total_amount d)),
       (''classification'', VStr (classification_str (d_classification d))), (''transfer'', v_uuid (d_transfer d))]"

definition period_json :: "period \<Rightarrow> jval" where
  "period_json p =
     VObj [(''id'', v_uuid (p_id p)), (''fund'', v_uuid (p_fund p)), (''start_date'', v_date (p_start_date p)),
       (''end_date'', v_date (p_end_date p)), (''status'', VStr (period_status_str (p_status p))),
       (''closed_at'', v_option v_time (p_closed_at p))]"

section \<open>api/views.py: helpers\<close>

definition key_char :: "char \<Rightarrow> bool" where
  "key_char c \<longleftrightarrow> (CHR ''A'' \<le> c \<and> c \<le> CHR ''Z'') \<or> (CHR ''a'' \<le> c \<and> c \<le> CHR ''z'') \<or> (CHR ''0'' \<le> c \<and> c \<le> CHR ''9'')
     \<or> c \<in> {CHR ''.'', CHR ''_'', CHR '':'', CHR ''-''}"

definition idempotency_key :: "request \<Rightarrow> fault + string" where
  "idempotency_key rq =
     (let key = strip (rq_idempotency_key rq) in
      if key = [] then Inl (ValidationError ''Idempotency-Key'')
      else if \<not> (list_all key_char key \<and> length key \<le> 255) then Inl (ValidationError ''Idempotency-Key'')
      else Inr key)"

definition created_or_replayed :: "jval \<Rightarrow> bool \<Rightarrow> response" where
  "created_or_replayed data is_new = respond (if is_new then 201 else 200) data"

text \<open>\<^verbatim>\<open>request.query_params.get(name)\<close>: the last value given.\<close>

definition query_param :: "request \<Rightarrow> string \<Rightarrow> string option" where
  "query_param rq name = map_of (rev (rq_query rq)) name"

definition parse_as_of :: "world \<Rightarrow> string option \<Rightarrow> fault + timestamp option" where
  "parse_as_of w raw =
     (case raw of
        None \<Rightarrow> Inr None
      | Some text \<Rightarrow>
          (case w_parse_datetime w text of
             Inl e \<Rightarrow> Inl (Program e)
           | Inr None \<Rightarrow> Inl (ValidationError ''as_of'')
           | Inr (Some (Aware t)) \<Rightarrow> Inr (Some t)
           | Inr (Some (Naive t)) \<Rightarrow> Inr (Some t)))"

definition actor :: "user \<Rightarrow> string" where
  "actor u = u_username u"

subsection \<open>uuid.UUID(text)\<close>

text \<open>
  The constructor of the standard library: prefixes, braces and dashes are dropped, 32
  characters are left, and \<^verbatim>\<open>int(text, 16)\<close> reads them, with its liberties.
\<close>

fun remove_all :: "string \<Rightarrow> string \<Rightarrow> string" where
  "remove_all sub [] = []"
| "remove_all sub (c # cs) =
     (if sub \<noteq> [] \<and> take (length sub) (c # cs) = sub then remove_all sub (drop (length sub - 1) cs)
      else c # remove_all sub cs)"

definition strip_braces :: "string \<Rightarrow> string" where
  "strip_braces s =
     (let brace = (\<lambda>c. c = CHR ''{'' \<or> c = CHR ''}'')
      in rev (dropWhile brace (rev (dropWhile brace s))))"

definition read_hex :: "string \<Rightarrow> int option" where
  "read_hex s =
     (let groups = split_at CHR ''_'' [] (map lower_char s) in
      if list_all (\<lambda>g. g \<noteq> [] \<and> list_all hex_digit g) groups then Some (hex_value (concat groups)) else None)"

definition int_base16 :: "string \<Rightarrow> int option" where
  "int_base16 text =
     (let t = strip text;
          negative = (take 1 t = ''-'');
          u = (if take 1 t = ''-'' \<or> take 1 t = ''+'' then drop 1 t else t);
          prefixed = (take 2 u = ''0x'' \<or> take 2 u = ''0X'');
          v = (if prefixed then drop 2 u else u);
          digits = (if prefixed \<and> take 1 v = ''_'' then drop 1 v else v)
      in map_option (\<lambda>n. if negative then - n else n) (read_hex digits))"

definition python_uuid :: "string \<Rightarrow> uuid option" where
  "python_uuid text =
     (let hex = filter (\<lambda>c. c \<noteq> CHR ''-'') (strip_braces (remove_all ''uuid:'' (remove_all ''urn:'' text))) in
      if length hex \<noteq> 32 then None
      else case int_base16 hex of
             None \<Rightarrow> None
           | Some n \<Rightarrow> if 0 \<le> n \<and> n < 16 ^ 32 then Some (nat n) else None)"

section \<open>api/renderers.py\<close>

text \<open>
  \<^verbatim>\<open>csv.writer\<close> with its default dialect: a field with a comma, a quote or a line
  break is quoted, quotes doubled; lines end in CRLF.
\<close>

definition csv_special :: "char \<Rightarrow> bool" where
  "csv_special c \<longleftrightarrow> c \<in> {CHR '','', CHR 0x22, CHR 0x0D, CHR 0x0A}"

definition csv_field :: "string \<Rightarrow> string" where
  "csv_field s =
     (if \<exists>c \<in> set s. csv_special c
      then [CHR 0x22] @ concat (map (\<lambda>c. if c = CHR 0x22 then [c, c] else [c]) s) @ [CHR 0x22]
      else s)"

definition csv_row :: "string \<times> string \<Rightarrow> string" where
  "csv_row row = csv_field (fst row) @ '','' @ csv_field (snd row) @ [CHR 0x0D, CHR 0x0A]"

definition render_csv :: "(string \<times> string) list \<Rightarrow> string" where
  "render_csv items = concat (map csv_row ((''field'', ''value'') # items))"

end
