(* ===== verification/Api_Views.thy ===== *)
theory Api_Views
  imports Api_Types
begin

text \<open>
  \<^verbatim>\<open>api/views.py\<close>: one operation on the site per view, and the way REST framework
  runs it: authenticate, check the permission, check the throttles, call the method's handler,
  and turn an exception into a response.
\<close>

section \<open>Whose fund a request touches\<close>

definition account_fund :: "uuid \<Rightarrow> db \<Rightarrow> fault + uuid" where
  "account_fund aid s =
     (case first_row (filter (\<lambda>a. a_id a = aid) (db_accounts s)) of None \<Rightarrow> Inl NotFound | Some a \<Rightarrow> Inr (a_fund a))"

definition transfer_fund :: "uuid \<Rightarrow> db \<Rightarrow> fault + uuid" where
  "transfer_fund tid s =
     (case first_row (filter (\<lambda>t. t_id t = tid) (db_transfers s)) of
        None \<Rightarrow> Inl NotFound
      | Some t \<Rightarrow> (case find_period s (t_period t) of None \<Rightarrow> Inl NotFound | Some p \<Rightarrow> Inr (p_fund p)))"

text \<open>\<^verbatim>\<open>get_fund_id\<close> of each view.\<close>

fun get_fund_id :: "endpoint \<Rightarrow> db \<Rightarrow> fault + uuid" where
  "get_fund_id (AccountBalance a) s = account_fund a s"
| "get_fund_id (AccountEntries a) s = account_fund a s"
| "get_fund_id (ReverseTransfer t) s = transfer_fund t s"
| "get_fund_id (FundAccounts f) s = Inr f"
| "get_fund_id (CapitalCalls f) s = Inr f"
| "get_fund_id (Distributions f) s = Inr f"
| "get_fund_id (LPStatement f l) s = Inr f"
| "get_fund_id (FundReconciliation f) s = Inr f"
| "get_fund_id (FundPeriods f) s = Inr f"
| "get_fund_id (ClosePeriod f p) s = Inr f"
| "get_fund_id Me s = Inl NotFound"

fun required_role :: "endpoint \<Rightarrow> role" where
  "required_role (FundPeriods _) = ROLE_LP"
| "required_role (LPStatement _ _) = ROLE_LP"
| "required_role (CapitalCalls _) = ROLE_OPERATOR"
| "required_role (Distributions _) = ROLE_OPERATOR"
| "required_role (ReverseTransfer _) = ROLE_OPERATOR"
| "required_role (ClosePeriod _ _) = ROLE_CONTROLLER"
| "required_role _ = ROLE_VIEWER"

fun endpoint_method :: "endpoint \<Rightarrow> string" where
  "endpoint_method (CapitalCalls _) = ''POST''"
| "endpoint_method (Distributions _) = ''POST''"
| "endpoint_method (ReverseTransfer _) = ''POST''"
| "endpoint_method (ClosePeriod _ _) = ''POST''"
| "endpoint_method _ = ''GET''"

section \<open>The views\<close>

text \<open>\<^verbatim>\<open>get_object_or_404\<close>: the row, or 404.\<close>

definition get_or_404 :: "('a \<Rightarrow> bool) \<Rightarrow> 'a list \<Rightarrow> fault + 'a" where
  "get_or_404 P rows = (case get_row P rows of
      Inr r \<Rightarrow> Inr r
    | Inl e \<Rightarrow> if e = DoesNotExist then Inl NotFound else Inl (Program e))"

definition fund_name_of :: "db \<Rightarrow> uuid \<Rightarrow> string" where
  "fund_name_of s fid = (case find (\<lambda>f. f_id f = fid) (db_funds s) of None \<Rightarrow> [] | Some f \<Rightarrow> f_name f)"

definition me_view :: "world \<Rightarrow> user \<Rightarrow> response site_op" where
  "me_view w u =
     query (\<lambda>s. Inr (respond 200 (VObj
       [(''username'', VStr (actor u)),
        (''memberships'', VList (map (\<lambda>m. VObj
            [(''fund'', v_uuid (m_fund m)), (''fund_name'', VStr (fund_name_of (site_db s) (m_fund m))),
             (''role'', VStr (role_str (m_role m))), (''lp'', v_option v_uuid (m_lp m))])
          (sort_key (\<lambda>m. w_collation w (fund_name_of (site_db s) (m_fund m)))
             (filter (\<lambda>m. m_user m = u_id u) (site_memberships s)))))])))"

definition fund_accounts_view :: "world \<Rightarrow> uuid \<Rightarrow> response site_op" where
  "fund_accounts_view w fid =
     query (\<lambda>s. Inr (respond 200 (VList (map account_json
       (sort_key (\<lambda>a. w_collation w (a_code a)) (filter (\<lambda>a. a_fund a = fid) (db_accounts (site_db s))))))))"

definition fund_periods_view :: "uuid \<Rightarrow> response site_op" where
  "fund_periods_view fid =
     query (\<lambda>s. Inr (respond 200 (VList (map period_json
       (sort_key p_start_date (filter (\<lambda>p. p_fund p = fid) (db_periods (site_db s))))))))"

text \<open>\<^verbatim>\<open>with_deadlock_retry\<close> around a service, outside any transaction.\<close>

definition with_retry :: "world \<Rightarrow> (nat \<Rightarrow> 'a op) \<Rightarrow> 'a site_op" where
  "with_retry w fn = on_db (retrying default_backoff False (w_rnd w) fn)"

definition capital_calls_view :: "world \<Rightarrow> user \<Rightarrow> request \<Rightarrow> uuid \<Rightarrow> response site_op" where
  "capital_calls_view w u rq fid =
     bind_act (query (\<lambda>_. idempotency_key rq)) (\<lambda>key.
     bind_act (query (\<lambda>_. capital_call_request w rq)) (\<lambda>(total, notice, due).
     bind_act (with_retry w (\<lambda>n. create_capital_call (w_i1 w n) (w_i2 w n) (w_env w n) key
        \<lparr>cr_fund = fid, cr_total = total, cr_notice_date = notice, cr_due_date = due, cr_created_by = actor u\<rparr>))
       (\<lambda>(call, is_new).
     ret (created_or_replayed (capital_call_json call) is_new))))"

definition distributions_view :: "world \<Rightarrow> user \<Rightarrow> request \<Rightarrow> uuid \<Rightarrow> response site_op" where
  "distributions_view w u rq fid =
     bind_act (query (\<lambda>_. idempotency_key rq)) (\<lambda>key.
     bind_act (query (\<lambda>_. distribution_body w rq)) (\<lambda>(total, payment, c).
     bind_act (with_retry w (\<lambda>n. create_distribution (w_i1 w n) (w_i2 w n) (w_env w n) key
        \<lparr>dr_fund = fid, dr_total = total, dr_payment_date = payment, dr_classification = c, dr_created_by = actor u\<rparr>))
       (\<lambda>(distribution, is_new).
     ret (created_or_replayed (distribution_json distribution) is_new))))"

text \<open>The transfer with its period and the period's fund, in one query.\<close>

definition transfer_and_fund :: "uuid \<Rightarrow> db \<Rightarrow> exn + transfer \<times> fund" where
  "transfer_and_fund tid s =
     rbind (get_row (\<lambda>t. t_id t = tid) (db_transfers s)) (\<lambda>t.
     rbind (get_row (\<lambda>p. p_id p = t_period t) (db_periods s)) (\<lambda>p.
     rbind (get_row (\<lambda>f. f_id f = p_fund p) (db_funds s)) (\<lambda>f. Inr (t, f))))"

definition reverse_transfer_view :: "world \<Rightarrow> user \<Rightarrow> request \<Rightarrow> uuid \<Rightarrow> response site_op" where
  "reverse_transfer_view w u rq tid =
     bind_act (query (\<lambda>_. idempotency_key rq)) (\<lambda>key.
     bind_act (on_db (query (transfer_and_fund tid))) (\<lambda>(original, fund).
     bind_act (query (\<lambda>_. reverse_request w rq)) (\<lambda>given.
     let on_date = (case given of None \<Rightarrow> today (w_env w 0) | Some d \<Rightarrow> d) in
     bind_act (on_db (query (period_for fund on_date))) (\<lambda>p.
     bind_act (with_retry w (\<lambda>n. reverse_transfer (w_i1 w n) (w_i2 w n) (w_env w n) (t_id original) key p (actor u)))
       (\<lambda>(reversal, is_new).
     query (\<lambda>s. Inr (created_or_replayed (transfer_json (site_db s) reversal) is_new)))))))"

definition account_balance_view :: "world \<Rightarrow> request \<Rightarrow> uuid \<Rightarrow> response site_op" where
  "account_balance_view w rq aid =
     bind_act (query (\<lambda>s. get_or_404 (\<lambda>a. a_id a = aid) (db_accounts (site_db s)))) (\<lambda>a.
     bind_act (query (\<lambda>_. parse_as_of w (query_param rq ''as_of''))) (\<lambda>as_of.
     query (\<lambda>s. Inr (respond 200 (VObj
       [(''account'', v_uuid (a_id a)), (''currency'', VStr (a_currency a)),
        (''balance'', VDec (native_balance (site_db s) (a_id a) as_of)),
        (''base_balance'', VDec (base_balance (site_db s) (a_id a) as_of)),
        (''as_of'', v_option v_time as_of)])))))"

text \<open>The latest entries first, fifty to a page.\<close>

definition account_entries_view :: "world \<Rightarrow> request \<Rightarrow> uuid \<Rightarrow> response site_op" where
  "account_entries_view w rq aid =
     query (\<lambda>s. Inr (respond 200 (VList (map entry_json
       (w_page w (rq_query rq) 50 (sort_key (\<lambda>e. - e_created_at e)
          (filter (\<lambda>e. e_account e = aid) (db_entries (site_db s)))))))))"

definition close_period_view :: "world \<Rightarrow> user \<Rightarrow> uuid \<Rightarrow> uuid \<Rightarrow> response site_op" where
  "close_period_view w u fid pid =
     bind_act (on_db (close_period (w_env w 0) fid pid (actor u))) (\<lambda>(p, _). ret (respond 200 (period_json p)))"

definition statement_dict :: "capital_account_statement \<Rightarrow> (string \<times> jval) list" where
  "statement_dict st =
     [(''fund_id'', v_uuid (st_fund_id st)), (''lp_id'', v_uuid (st_lp_id st)), (''lp_name'', VStr (st_lp_name st)),
      (''period_start'', v_date (st_period_start st)), (''period_end'', v_date (st_period_end st)),
      (''currency'', VStr (st_currency st)), (''opening_balance'', VDec (st_opening_balance st)),
      (''contributions'', VDec (st_contributions st)), (''distributions'', VDec (st_distributions st)),
      (''other_adjustments'', VDec (st_other_adjustments st)), (''allocated_gains'', VDec (st_allocated_gains st)),
      (''allocated_fees'', VDec (st_allocated_fees st)), (''closing_balance'', VDec (st_closing_balance st)),
      (''commitment'', VDec (st_commitment st)), (''contributed_to_date'', VDec (st_contributed_to_date st)),
      (''unfunded_commitment'', VDec (st_unfunded_commitment st))]"

definition statement_headers :: "request \<Rightarrow> limited_partner \<Rightarrow> period \<Rightarrow> (string \<times> string) list" where
  "statement_headers rq lp p =
     (if rq_csv rq
      then [(''Content-Disposition'', ''attachment; filename='' @ [CHR 0x22] @ ''statement-'' @ uuid_str (lp_id lp) @ ''-''
              @ date_str (p_start_date p) @ ''.csv'' @ [CHR 0x22])]
      else [])"

definition lp_statement_view :: "request \<Rightarrow> fund_membership \<Rightarrow> uuid \<Rightarrow> uuid \<Rightarrow> response site_op" where
  "lp_statement_view rq membership fid lid =
     bind_act (query (\<lambda>_. ensure (\<not> (m_role membership = ROLE_LP \<and> m_lp membership \<noteq> Some lid)) NotFound)) (\<lambda>_.
     bind_act (query (\<lambda>s. get_or_404 (\<lambda>f. f_id f = fid) (db_funds (site_db s)))) (\<lambda>fund.
     bind_act (query (\<lambda>s. get_or_404 (\<lambda>l. lp_id l = lid) (db_lps (site_db s)))) (\<lambda>lp.
     bind_act (query (\<lambda>_. case python_uuid (case query_param rq ''period'' of None \<Rightarrow> [] | Some t \<Rightarrow> t) of
         None \<Rightarrow> Inl (ValidationError ''period'') | Some pid \<Rightarrow> Inr pid)) (\<lambda>pid.
     bind_act (query (\<lambda>s. get_or_404 (\<lambda>p. p_id p = pid \<and> p_fund p = f_id fund) (db_periods (site_db s)))) (\<lambda>p.
     bind_act (on_db (query (lp_statement fund lp p))) (\<lambda>st.
     ret ((respond 200 (VObj (statement_dict st)))\<lparr>r_headers := statement_headers rq lp p\<rparr>)))))))"

definition fund_reconciliation_view :: "uuid \<Rightarrow> response site_op" where
  "fund_reconciliation_view fid =
     query (\<lambda>s.
       let imbalance = fund_imbalance (site_db s) fid; broken = unbalanced_transfers (site_db s) (Some fid) 100
       in Inr (respond 200 (VObj
            [(''fund'', v_uuid fid), (''balanced'', VBool (imbalance = 0 \<and> broken = [])), (''imbalance'', VDec imbalance),
             (''unbalanced_transfers'', VList (map (\<lambda>(t, amount).
                VObj [(''transfer'', v_uuid t), (''imbalance'', VDec amount)]) broken))])))"

section \<open>Dispatch\<close>

text \<open>
  The permission class of the view: \<^verbatim>\<open>IsAuthenticated\<close> for \<^verbatim>\<open>MeView\<close>,
  \<^verbatim>\<open>FundRolePermission\<close> for the others, which leaves the membership with the
  request.
\<close>

definition permitted :: "endpoint \<Rightarrow> user option \<Rightarrow> site \<Rightarrow> fault + fund_membership option" where
  "permitted e caller s =
     (if e = Me then (if caller = None then Inl NotAuthenticated else Inr None)
      else rbind (check_permissions caller (get_fund_id e) (required_role e) s) (\<lambda>m. Inr (Some m)))"

fun handler :: "world \<Rightarrow> request \<Rightarrow> user \<Rightarrow> fund_membership option \<Rightarrow> endpoint \<Rightarrow> response site_op" where
  "handler w rq u m Me = me_view w u"
| "handler w rq u m (FundAccounts f) = fund_accounts_view w f"
| "handler w rq u m (FundPeriods f) = fund_periods_view f"
| "handler w rq u m (CapitalCalls f) = capital_calls_view w u rq f"
| "handler w rq u m (Distributions f) = distributions_view w u rq f"
| "handler w rq u m (ReverseTransfer t) = reverse_transfer_view w u rq t"
| "handler w rq u m (AccountBalance a) = account_balance_view w rq a"
| "handler w rq u m (AccountEntries a) = account_entries_view w rq a"
| "handler w rq u m (ClosePeriod f p) = close_period_view w u f p"
| "handler w rq u m (LPStatement f l) =
     bind_act (query (\<lambda>_. membership_of m)) (\<lambda>membership. lp_statement_view rq membership f l)"
| "handler w rq u m (FundReconciliation f) = fund_reconciliation_view f"

text \<open>
  The part before the handler: who calls, and may they; then the throttles. What the caller is
  without a user was refused by the permission. A \<^verbatim>\<open>HEAD\<close> request runs the handler
  of \<^verbatim>\<open>GET\<close>.
\<close>

definition method_allowed :: "endpoint \<Rightarrow> request \<Rightarrow> bool" where
  "method_allowed e rq \<longleftrightarrow>
     rq_method rq = endpoint_method e \<or> (rq_method rq = ''HEAD'' \<and> endpoint_method e = ''GET'')"

definition run_view :: "world \<Rightarrow> request \<Rightarrow> endpoint \<Rightarrow> response site_op" where
  "run_view w rq e =
     bind_act (authenticate (w_env w 0) (rq_authorization rq)) (\<lambda>auth.
     let caller = map_option fst auth in
     bind_act (query (permitted e caller)) (\<lambda>m.
     bind_act (query (\<lambda>_. check_throttles w caller rq)) (\<lambda>_.
     bind_act (query (\<lambda>_. ensure (method_allowed e rq) MethodNotAllowed)) (\<lambda>_.
     case caller of None \<Rightarrow> raise NotAuthenticated | Some u \<Rightarrow> handler w rq u m e))))"

definition api_request :: "world \<Rightarrow> request \<Rightarrow> endpoint \<Rightarrow> site \<Rightarrow> response \<times> site" where
  "api_request w rq e s =
     (case run_view w rq e s of
        (Inr r, s') \<Rightarrow> (r, s')
      | (Inl f, s') \<Rightarrow> (exception_handler rq f, s'))"

end
