(* ===== verification/Api_Correct.thy ===== *)
theory Api_Correct
  imports Api_Views
begin

text \<open>
  Lemmas on the HTTP layer: what a request can write, and what it leaves alone; which caller a
  handler is run for; and that a request answered with an error has changed nothing in the
  ledger. The properties of the layer are built from them.
\<close>

section \<open>What a view leaves alone\<close>

text \<open>The tables of the access application.\<close>

definition access_is :: "user list \<Rightarrow> fund_membership list \<Rightarrow> api_key list \<Rightarrow> site \<Rightarrow> bool" where
  "access_is us ms ks s \<longleftrightarrow> site_users s = us \<and> site_memberships s = ms \<and> site_keys s = ks"

lemma keeps_access_on_db [keeps_intros]: "keeps (access_is us ms ks) (on_db m)"
  by (rule keepsI) (auto simp: on_db_def access_is_def split: prod.splits sum.splits)

lemmas view_defs = me_view_def fund_accounts_view_def fund_periods_view_def capital_calls_view_def distributions_view_def
  reverse_transfer_view_def account_balance_view_def account_entries_view_def close_period_view_def lp_statement_view_def
  fund_reconciliation_view_def with_retry_def

lemma keeps_access_handler: "keeps (access_is us ms ks) (handler w rq u m e)"
  by (cases e) (simp_all only: handler.simps view_defs Let_def, (intro keeps_intros)+)

lemma keeps_same_on_db_query [keeps_intros]: "keeps (\<lambda>t. t = s) (on_db (query f))"
  by (rule keepsI) (auto simp: on_db_def query_def split: sum.splits)

lemma reads_only: "endpoint_method e = ''GET'' \<Longrightarrow> keeps (\<lambda>t. t = s) (handler w rq u m e)"
  by (cases e; simp only: handler.simps endpoint_method.simps view_defs Let_def list.inject char.inject refl simp_thms;
      intro keeps_intros)

section \<open>Authentication\<close>

text \<open>Authentication writes nothing but the time a key was last used.\<close>

definition unused :: "api_key \<Rightarrow> api_key" where
  "unused k = k\<lparr>k_last_used_at := None\<rparr>"

definition same_but_use :: "site \<Rightarrow> site \<Rightarrow> bool" where
  "same_but_use s t \<longleftrightarrow> site_db t = site_db s \<and> site_users t = site_users s \<and> site_memberships t = site_memberships s \<and>
     map unused (site_keys t) = map unused (site_keys s)"

lemma same_but_use_refl: "same_but_use s s"
  by (simp add: same_but_use_def)

lemma keeps_record_use: "keeps (same_but_use s) (record_use env k)"
proof (rule keepsI)
  fix t r t' assume t: "same_but_use s t" and r: "record_use env k t = (r, t')"
  have "unused (if k_id j = k_id k then j\<lparr>k_last_used_at := Some (now env)\<rparr> else j) = unused j" for j
    by (simp add: unused_def)
  then show "same_but_use s t'"
    using t r by (auto simp: record_use_def same_but_use_def act comp_def split: if_splits)
qed

lemma keeps_authenticate: "keeps (same_but_use s) (authenticate env header)"
  unfolding authenticate_def
  by (intro keeps_record_use keeps_intros | simp split: list.split option.split | safe)+

lemma authenticate_Some:
  assumes "authenticate env header s = (Inr (Some (u, k)), s')"
  shows "\<exists>raw. verify_key env raw s = Some k \<and> find_user s (k_user k) = Some u \<and> u_is_active u"
proof -
  from assms obtain raw where v: "verify_key env raw s = Some k"
    and u: "bind_act (record_use env k) (\<lambda>_. query (\<lambda>s. case find_user s (k_user k) of
        None \<Rightarrow> Inl (Program DoesNotExist) | Some u \<Rightarrow> Inr u)) s = (Inr u, s')"
    by (auto simp: authenticate_def act split: list.splits if_splits option.splits)
  from u obtain s1 where "record_use env k s = (Inr (), s1)" "find_user s1 (k_user k) = Some u"
    by (auto simp: act split: option.splits)
  moreover from this(1) have "site_users s1 = site_users s" by (auto simp: record_use_def act split: if_splits)
  ultimately have "find_user s (k_user k) = Some u" by (simp add: find_user_def)
  moreover have "live_key env s k (snd (snd (partition_dot (drop 3 raw))))"
    using v by (auto simp: verify_key_def Let_def split: if_splits option.splits prod.splits)
  ultimately show ?thesis using v by (auto simp: live_key_def)
qed

section \<open>Permission\<close>

lemma permission_gate:
  assumes "e \<noteq> Me" and "get_fund_id e (site_db s) = Inr fid"
  shows "permitted e (Some u) s =
    (case membership_on (u_id u) fid s of
       None \<Rightarrow> Inl NotFound
     | Some mem \<Rightarrow> if ROLE_RANK (required_role e) \<le> ROLE_RANK (m_role mem) then Inr (Some mem) else Inl PermissionDenied)"
  using assms
  by (auto simp: permitted_def check_permissions_def has_permission_def membership_on_def split: option.splits)

lemma permission_unknown:
  assumes "e \<noteq> Me" and "get_fund_id e (site_db s) = Inl f"
  shows "permitted e (Some u) s = Inl f"
  using assms by (auto simp: permitted_def check_permissions_def has_permission_def)

lemma get_fund_id_Inl: "get_fund_id e s = Inl f \<Longrightarrow> f = NotFound"
  by (cases e) (auto simp: account_fund_def transfer_fund_def split: option.splits)

lemma permission_anonymous: "permitted e None s = Inl NotAuthenticated"
  by (auto simp: permitted_def check_permissions_def has_permission_def)

lemma has_membership:
  assumes "e \<noteq> Me" and "permitted e (Some u) s = Inr m"
  shows "\<exists>fid mem. get_fund_id e (site_db s) = Inr fid \<and> m = Some mem \<and> membership_on (u_id u) fid s = Some mem \<and>
    ROLE_RANK (required_role e) \<le> ROLE_RANK (m_role mem)"
proof (cases "get_fund_id e (site_db s)")
  case (Inl f)
  with assms show ?thesis by (simp add: permission_unknown)
next
  case (Inr fid)
  with assms permission_gate [OF assms(1) Inr, of u] show ?thesis by (auto split: option.splits if_splits)
qed

section \<open>How a request runs\<close>

text \<open>Either it stops before the handler, the ledger untouched, or the handler runs for a caller with the role.\<close>

lemma run_view_cases:
  assumes "run_view w rq e s = (r, s')"
  obtains (refused) f where "r = Inl f" "same_but_use s s'"
  | (handled) u k m s1 where "authenticate (w_env w 0) (rq_authorization rq) s = (Inr (Some (u, k)), s1)" "same_but_use s s1"
      "permitted e (Some u) s1 = Inr m" "method_allowed e rq" "handler w rq u m e s1 = (r, s')"
proof -
  obtain a s1 where a: "authenticate (w_env w 0) (rq_authorization rq) s = (a, s1)" by fastforce
  have s1: "same_but_use s s1" using keepsD [OF keeps_authenticate same_but_use_refl a] .
  show thesis
  proof (cases a)
    case (Inl f)
    with a assms s1 show thesis by (intro refused [of f]) (auto simp: run_view_def bind_act_def)
  next
    case (Inr auth)
    show thesis
    proof (cases auth)
      case None
      with a Inr assms s1 show thesis
        by (intro refused) (auto simp: run_view_def Let_def bind_act_def query_def permission_anonymous)
    next
      case (Some uk)
      obtain u k where uk: "uk = (u, k)" by fastforce
      show thesis
      proof (cases "\<exists>m. permitted e (Some u) s1 = Inr m \<and> check_throttles w (Some u) rq = Inr () \<and> method_allowed e rq")
        case True
        then obtain m where "permitted e (Some u) s1 = Inr m" "check_throttles w (Some u) rq = Inr ()" "method_allowed e rq" by blast
        with a Inr Some uk assms s1 show thesis
          by (intro handled [of u k s1 m]) (auto simp: run_view_def Let_def bind_act_def query_def ensure_def)
      next
        case False
        with a Inr Some uk assms s1 show thesis
          by (cases r; intro refused) (auto simp: run_view_def Let_def bind_act_def query_def ensure_def split: sum.splits if_splits)
      qed
    qed
  qed
qed

section \<open>An operation that raises changes nothing\<close>

definition raises_clean :: "('s, 'e, 'a) act \<Rightarrow> bool" where
  "raises_clean m \<longleftrightarrow> (\<forall>s e s'. m s = (Inl e, s') \<longrightarrow> s' = s)"

named_theorems clean "rules that show that an operation that raises changes nothing"

lemma raises_cleanD: "raises_clean m \<Longrightarrow> m s = (Inl e, s') \<Longrightarrow> s' = s"
  by (auto simp: raises_clean_def)

lemma clean_query [clean]: "raises_clean (query f)"
  and clean_ret [clean]: "raises_clean (ret x)"
  and clean_raise [clean]: "raises_clean (raise e)"
  and clean_atomic [clean]: "raises_clean (atomic m)"
  by (auto simp: raises_clean_def act)

lemma clean_after_query [clean]: "(\<And>x. raises_clean (n x)) \<Longrightarrow> raises_clean (bind_act (query f) n)"
  by (auto simp: raises_clean_def act)

lemma clean_handle [clean]: "raises_clean m \<Longrightarrow> (\<And>e. raises_clean (h e)) \<Longrightarrow> raises_clean (handle m h)"
  unfolding raises_clean_def by (auto simp: handle_Inl) metis

lemma clean_on_db [clean]: "raises_clean m \<Longrightarrow> raises_clean (on_db m)"
  by (auto simp: raises_clean_def act)

lemma clean_prod [clean]: "(\<And>a b. raises_clean (f a b)) \<Longrightarrow> raises_clean (case p of (a, b) \<Rightarrow> f a b)"
  by (cases p) simp

text \<open>What follows the write cannot raise.\<close>

definition never_raises :: "('s, 'e, 'a) act \<Rightarrow> bool" where
  "never_raises m \<longleftrightarrow> (\<forall>s e s'. m s \<noteq> (Inl e, s'))"

lemma never_ret [clean]: "never_raises (ret x)"
  and never_query [clean]: "never_raises (query (\<lambda>s. Inr (f s)))"
  by (auto simp: never_raises_def act)

lemma never_prod [clean]: "(\<And>a b. never_raises (f a b)) \<Longrightarrow> never_raises (case p of (a, b) \<Rightarrow> f a b)"
  by (cases p) simp

lemma clean_then [clean]: "raises_clean m \<Longrightarrow> (\<And>x. never_raises (n x)) \<Longrightarrow> raises_clean (bind_act m n)"
  unfolding raises_clean_def never_raises_def by (auto simp: bind_act_Inl)

lemma clean_retry_from:
  assumes "\<And>n. raises_clean (fn n)" and "fst (retry_from b a rnd fn attempt s) = (Inl e, s')"
  shows "s' = s"
  using assms(2)
proof (induction "attempts b + 1 - attempt" arbitrary: attempt rule: less_induct)
  case less
  show ?case
  proof (cases "attempt \<le> attempts b")
    case True
    then show ?thesis
    proof (cases rule: retry_from_cases [where fn = fn and s = s and a = a and rnd = rnd])
      case (stands r s'')
      with less.prems show ?thesis using raises_cleanD [OF assms(1)] by auto
    next
      case (again e' s'')
      moreover have "s'' = s" using raises_cleanD [OF assms(1)] again(1) .
      moreover have "attempts b + 1 - (attempt + 1) < attempts b + 1 - attempt" using again(3) by simp
      ultimately show ?thesis using less.hyps [of "attempt + 1"] less.prems by simp
    qed
  qed (use less.prems in \<open>simp add: retry_from.simps [of b a rnd fn attempt s]\<close>)
qed

lemma clean_with_retry [clean]: "(\<And>n. raises_clean (fn n)) \<Longrightarrow> raises_clean (with_retry w fn)"
proof -
  assume fn: "\<And>n. raises_clean (fn n)"
  have "raises_clean (retrying default_backoff False (w_rnd w) fn)"
    unfolding raises_clean_def retrying_def with_deadlock_retry_def using clean_retry_from [of fn, OF fn] by blast
  then show ?thesis unfolding with_retry_def by (rule clean_on_db)
qed

text \<open>The services, when no other session commits meanwhile.\<close>

lemma clean_run_once [clean]:
  assumes "\<And>t. raises_clean (rp t)"
  shows "raises_clean (run_once id id key h cr rp)"
proof -
  have la: "look_again id key e s = (r, s') \<Longrightarrow> s' = s" for e s s' and r :: "exn + ('a + transfer)"
    using look_again_state by fastforce
  have ce: "s' = s" if "create_or_existing id id key cr s = (Inl e, s')" for s e s'
    using that by (auto simp: create_or_existing_def act dest: la)
  have cx: "s' = s" if "create_or_existing id id key cr s = (Inr (Inr t), s')" for s t s'
    using that by (auto simp: create_or_existing_def act dest: la)
  have ans: "s' = s1" if "(case z of Inl x \<Rightarrow> ret (x, True)
     | Inr t \<Rightarrow> if t_request_hash t \<noteq> h then raise (LedgerErr IdempotencyConflict)
         else bind_act (rp t) (\<lambda>x. ret (x, False))) s1 = (Inl e, s')" for z s1 e s'
    using that raises_cleanD [OF assms] by (cases z) (auto simp: act split: if_splits)
  show ?thesis
    unfolding raises_clean_def
  proof (intro allI impI)
    fix s e s' assume r: "run_once id id key h cr rp s = (Inl e, s')"
    show "s' = s"
    proof (cases "find_key key s")
      case (Some t)
      with r show ?thesis using ans [of "Inr t" s] by (auto simp: run_once_def bind_act_def query_def ret_def)
    next
      case None
      obtain y s1 where y: "create_or_existing id id key cr s = (y, s1)" by fastforce
      show ?thesis
      proof (cases y)
        case (Inl e')
        with r y None show ?thesis using ce by (auto simp: run_once_def bind_act_def query_def)
      next
        case (Inr z)
        with r y None have a: "(case z of Inl x \<Rightarrow> ret (x, True)
          | Inr t \<Rightarrow> if t_request_hash t \<noteq> h then raise (LedgerErr IdempotencyConflict)
             else bind_act (rp t) (\<lambda>x. ret (x, False))) s1 = (Inl e, s')"
          by (auto simp: run_once_def bind_act_def query_def)
        then obtain t where "z = Inr t" by (cases z) (auto simp: act)
        with ans [OF a] cx y Inr show ?thesis by auto
      qed
    qed
  qed
qed

lemma clean_lost_race [clean]: "raises_clean (lost_reversal_race e)"
  by (cases e) (auto simp: lost_reversal_race_def intro!: clean)

lemma clean_create_capital_call: "raises_clean (create_capital_call id id env key r)"
  unfolding create_capital_call_def run_idempotent_def
  by (rule clean_after_query, rule clean_run_once) (simp add: replay_call_def clean_query)

lemma clean_create_distribution: "raises_clean (create_distribution id id env key q)"
  unfolding create_distribution_def run_idempotent_def
  by (rule clean_after_query, rule clean_run_once) (simp add: replay_payout_def clean_query)

lemma clean_reverse_transfer: "raises_clean (reverse_transfer id id env tid key p by)"
  unfolding reverse_transfer_def run_idempotent_def Let_def
proof (intro clean_after_query)
  fix original u existing v legs
  show "raises_clean (handle
          (run_once id id key (reversal_fingerprint env original p)
             (create_posting (env, reversal_posting key original legs p by) key (reversal_fingerprint env original p))
             (replay_transfer (env, reversal_posting key original legs p by)))
          lost_reversal_race)"
    by (rule clean_handle, rule clean_run_once) (simp_all add: replay_transfer_def clean_ret clean_lost_race)
qed

lemma clean_close_period: "raises_clean (close_period env fid pid by)"
  unfolding close_period_def by (rule clean_atomic)

lemmas clean_services = clean_create_capital_call clean_create_distribution clean_reverse_transfer clean_close_period

definition undisturbed :: "world \<Rightarrow> bool" where
  "undisturbed w \<longleftrightarrow> (\<forall>n. w_i1 w n = id \<and> w_i2 w n = id)"

lemma clean_reads: "(\<And>s. keeps (\<lambda>t. t = s) m) \<Longrightarrow> raises_clean m"
proof (unfold raises_clean_def, intro allI impI)
  fix s e s' assume k: "\<And>s. keeps (\<lambda>t. t = s) m" and r: "m s = (Inl e, s')"
  show "s' = s" by (rule keepsD [OF k refl r])
qed

lemma clean_undisturbed:
  assumes "undisturbed w"
  shows "raises_clean (create_capital_call (w_i1 w n) (w_i2 w n) env key r)"
    and "raises_clean (create_distribution (w_i1 w n) (w_i2 w n) env key q)"
    and "raises_clean (reverse_transfer (w_i1 w n) (w_i2 w n) env tid key p by)"
  using assms clean_services by (simp_all add: undisturbed_def)

lemma clean_on_db_query: "(\<And>x. raises_clean (n x)) \<Longrightarrow> raises_clean (bind_act (on_db (query f)) n)"
  by (auto simp: raises_clean_def act)

lemma clean_views:
  assumes "undisturbed w"
  shows "raises_clean (capital_calls_view w u rq f)" and "raises_clean (distributions_view w u rq f)"
    and "raises_clean (reverse_transfer_view w u rq t)" and "raises_clean (close_period_view w u f pid)"
proof -
  note services = clean_undisturbed [OF assms]
  show "raises_clean (capital_calls_view w u rq f)" unfolding capital_calls_view_def
    by (rule clean_after_query, rule clean_after_query, (rule clean_prod)+, rule clean_then, rule clean_with_retry, rule services)
      (rule never_prod, rule never_ret)
  show "raises_clean (distributions_view w u rq f)" unfolding distributions_view_def
    by (rule clean_after_query, rule clean_after_query, (rule clean_prod)+, rule clean_then, rule clean_with_retry, rule services)
      (rule never_prod, rule never_ret)
  show "raises_clean (reverse_transfer_view w u rq t)" unfolding reverse_transfer_view_def Let_def
    by (rule clean_after_query, rule clean_on_db_query, rule clean_prod, rule clean_after_query, rule clean_on_db_query,
        rule clean_then, rule clean_with_retry, rule services) (rule never_prod, rule never_query)
  show "raises_clean (close_period_view w u f pid)" unfolding close_period_view_def
    by (rule clean_then, rule clean_on_db, rule clean_services) (rule never_prod, rule never_ret)
qed

lemma clean_handler:
  assumes "undisturbed w"
  shows "raises_clean (handler w rq u m e)"
proof (cases "endpoint_method e = ''GET''")
  case True
  then show ?thesis by (intro clean_reads reads_only)
next
  case False
  then show ?thesis using clean_views [OF assms] by (cases e) simp_all
qed

section \<open>Statuses\<close>

lemma answered:
  assumes "handler w rq u m e s = (Inr resp, s')"
  shows "r_status resp = 200 \<or> r_status resp = 201 \<and> endpoint_method e = ''POST''"
  using assms
  by (cases e) (auto simp: view_defs act Let_def respond_def created_or_replayed_def)

lemma error_status: "400 \<le> r_status (exception_handler rq f)"
proof -
  have "400 \<le> error_http_status e" for e by (cases e) auto
  moreover have "400 \<le> r_status (drf_or_internal rq f)" for f
    by (cases f) (auto simp: drf_or_internal_def drf_error_def internal_error_def)
  moreover have "map_of CONSTRAINT_ERRORS c = Some (code, st) \<Longrightarrow> 400 \<le> st" for c code st
    by (auto simp: CONSTRAINT_ERRORS_def split: if_splits)
  ultimately show ?thesis
    by (cases f) (auto simp: exception_handler_def error_response_def split: exn.split option.split)
qed

text \<open>A request that is not answered with an error was answered by its handler.\<close>

lemma request_ran:
  assumes "api_request w rq e s = (resp, s')"
  obtains r where "run_view w rq e s = (r, s')" "resp = (case r of Inr a \<Rightarrow> a | Inl f \<Rightarrow> exception_handler rq f)"
  using assms by (auto simp: api_request_def split: prod.splits sum.splits)

lemma request_answered:
  assumes "api_request w rq e s = (resp, s')" and "r_status resp < 400"
  shows "run_view w rq e s = (Inr resp, s')"
proof -
  obtain r where r: "run_view w rq e s = (r, s')" "resp = (case r of Inr a \<Rightarrow> a | Inl f \<Rightarrow> exception_handler rq f)"
    using assms(1) by (rule request_ran)
  show ?thesis
  proof (cases r)
    case (Inl f)
    then show ?thesis using r(2) assms(2) error_status [of rq f] by simp
  qed (use r in simp)
qed

lemma handled_answer:
  assumes "api_request w rq e s = (resp, s')" and "r_status resp < 400"
  obtains u k m s1 where "authenticate (w_env w 0) (rq_authorization rq) s = (Inr (Some (u, k)), s1)" "same_but_use s s1"
    "permitted e (Some u) s1 = Inr m" "handler w rq u m e s1 = (Inr resp, s')"
  using request_answered [OF assms] by (cases rule: run_view_cases) auto

lemma lp_statement_view_Inr:
  assumes "lp_statement_view rq mem f l s = (Inr resp, s')"
  shows "(m_role mem = ROLE_LP \<longrightarrow> m_lp mem = Some l) \<and>
    (\<exists>fund lp p st pid. get_or_404 (\<lambda>g. f_id g = f) (db_funds (site_db s)) = Inr fund \<and>
       get_or_404 (\<lambda>x. lp_id x = l) (db_lps (site_db s)) = Inr lp \<and>
       get_or_404 (\<lambda>p. p_id p = pid \<and> p_fund p = f_id fund) (db_periods (site_db s)) = Inr p \<and>
       lp_statement fund lp p (site_db s) = Inr st \<and> r_body resp = Data (VObj (statement_dict st)))"
  using assms unfolding lp_statement_view_def by (auto simp: act respond_def split: option.splits)

lemma get_or_404_Inr: "get_or_404 P xs = Inr x \<Longrightarrow> P x \<and> x \<in> set xs"
  by (auto simp: get_or_404_def split: sum.splits if_splits dest: get_row_Inr)

end
