(* ===== verification/Sample_Site.thy ===== *)
theory Sample_Site
  imports Api_Correct Sample_Operations Sample_Statements
begin

text \<open>
  A site on the sample fund: an operator, an LP and a stranger with a key each, and a quiet
  world, in which the requests below are answered.
\<close>

definition key_digest :: string where
  "key_digest = replicate 64 CHR ''a''"

definition web_env :: env where
  "web_env = (sample_env 1)\<lparr>sha256_hex := \<lambda>text. if text = ''s3cret'' then key_digest else ''h1''\<rparr>"

definition quiet_world :: world where
  "quiet_world = \<lparr>w_env = (\<lambda>_. web_env), w_i1 = (\<lambda>_. id), w_i2 = (\<lambda>_. id), w_rnd = (\<lambda>_. 1/2), w_collation = (\<lambda>s. s),
     w_throttle = (\<lambda>_ _. True),
     w_decimal_field = (\<lambda>digits places low v. case v of VDec x \<Rightarrow> if low \<le> x \<and> x < 10 ^ (digits - places) \<and> dp places x then Some x else None | _ \<Rightarrow> None),
     w_date_field = (\<lambda>v. if v = VStr ''2024-05-01'' then Some (Date 2024 5 1) else if v = VStr ''2024-05-15'' then Some (Date 2024 5 15) else None),
     w_choice_field = (\<lambda>choices v. case v of VStr c \<Rightarrow> if c \<in> set choices then Some c else None | _ \<Rightarrow> None),
     w_parse_datetime = (\<lambda>text. if text = ''2026-02-30T00:00:00Z'' then Inl ValueErr else Inr None),
     w_page = (\<lambda>_ n es. take n es)\<rparr>"

definition sample_key :: "uuid \<Rightarrow> nat \<Rightarrow> string \<Rightarrow> api_key" where
  "sample_key i u prefix = \<lparr>k_id = i, k_user = u, k_name = ''laptop'', k_prefix = prefix, k_key_hash = key_digest,
     k_created_at = 0, k_expires_at = None, k_revoked_at = None, k_last_used_at = None\<rparr>"

definition sample_user :: "nat \<Rightarrow> string \<Rightarrow> user" where
  "sample_user i name = \<lparr>u_id = i, u_username = name, u_is_active = True\<rparr>"

definition sample_membership :: "uuid \<Rightarrow> nat \<Rightarrow> role \<Rightarrow> uuid option \<Rightarrow> fund_membership" where
  "sample_membership i u r lp = \<lparr>m_id = i, m_user = u, m_fund = 1, m_role = r, m_lp = lp, m_created_at = 0\<rparr>"

definition site_on :: "db \<Rightarrow> site" where
  "site_on d = \<lparr>site_db = d,
     site_users = [sample_user 1 ''ops'', sample_user 2 ''lp-a'', sample_user 3 ''nobody''],
     site_memberships = [sample_membership 61 1 ROLE_OPERATOR None, sample_membership 62 2 ROLE_LP (Some 31)],
     site_keys = [sample_key 71 1 ''abc'', sample_key 72 2 ''def'', sample_key 73 3 ''fed'']\<rparr>"

abbreviation sample_site :: site where
  "sample_site \<equiv> site_on sample_db"

lemma access_wf_sample: "access_wf (site_on d)"
  by (simp add: access_wf_def site_on_def sample_user_def sample_membership_def sample_key_def membership_check_def
      key_digest_def hex_digit_def list_all_iff)

text \<open>A request with the key of prefix \<open>p\<close>.\<close>

definition sample_request :: "string \<Rightarrow> string \<Rightarrow> (string \<times> jval) list \<Rightarrow> request" where
  "sample_request method p attrs =
     \<lparr>rq_method = method, rq_authorization = ''Bearer fl_'' @ p @ ''.s3cret'', rq_idempotency_key = '' call-1'',
      rq_query = [], rq_data = Some (VObj attrs), rq_csv = False, rq_id = ''r1''\<rparr>"

definition call_body :: "(string \<times> jval) list" where
  "call_body = [(''total_amount'', VDec 1000), (''notice_date'', VStr ''2024-05-01''), (''due_date'', VStr ''2024-05-15'')]"

definition web_call_request :: request where
  "web_call_request = sample_request ''POST'' ''abc'' call_body"

definition used_key :: "nat \<Rightarrow> site \<Rightarrow> site" where
  "used_key i s = s\<lparr>site_keys := map (\<lambda>k. if k_id k = i then k\<lparr>k_last_used_at := Some 1\<rparr> else k) (site_keys s)\<rparr>"

lemma lower_letters:
  "lower_char CHR ''B'' = CHR ''b''" "lower_char CHR ''e'' = CHR ''e''" "lower_char CHR ''a'' = CHR ''a''"
  "lower_char CHR ''r'' = CHR ''r''"
  by code_simp+

lemma authenticated:
  "authenticate web_env (rq_authorization (sample_request me ''abc'' attrs)) (site_on d) =
     (Inr (Some (sample_user 1 ''ops'', sample_key 71 1 ''abc'')), used_key 71 (site_on d))"
  "authenticate web_env (rq_authorization (sample_request me ''def'' attrs)) (site_on d) =
     (Inr (Some (sample_user 2 ''lp-a'', sample_key 72 2 ''def'')), used_key 72 (site_on d))"
  "authenticate web_env (rq_authorization (sample_request me ''fed'' attrs)) (site_on d) =
     (Inr (Some (sample_user 3 ''nobody'', sample_key 73 3 ''fed'')), used_key 73 (site_on d))"
  by (simp_all add: sample_request_def authenticate_def ascii_space_def lower_letters verify_key_def KEY_PREFIX_def partition_dot_def
      site_on_def sample_key_def sample_user_def live_key_def find_user_def digest_def web_env_def record_use_def bind_act_def
      query_def modify_def ret_def used_key_def sample_env_def Let_def)

lemma request_parts:
  "idempotency_key web_call_request = Inr ''call-1''"
  "capital_call_request quiet_world web_call_request = Inr (1000, Date 2024 5 1, Date 2024 5 15)"
proof -
  show "idempotency_key web_call_request = Inr ''call-1''" by code_simp
  have "dp 2 1000" by code_simp
  then show "capital_call_request quiet_world web_call_request = Inr (1000, Date 2024 5 1, Date 2024 5 15)"
    by (simp add: capital_call_request_def body_fields_def web_call_request_def sample_request_def call_body_def required_field_def
        money_in_def quiet_world_def ensure_def less_date_def)
qed

lemma web_call: "create_capital_call id id web_env ''call-1'' sample_call sample_db = (Inr (drawn_doc, True), drawn_db)"
proof -
  have "(if json_dumps (JObj payload) = ''s3cret'' then key_digest else ''h1'') = ''h1''" for payload by simp
  from call_requested_with [of "\<lambda>text. if text = ''s3cret'' then key_digest else ''h1''", OF this]
  show ?thesis by (simp only: web_env_def)
qed

lemma quiet_simps [simp]:
  "w_env quiet_world n = web_env" "w_i1 quiet_world n = id" "w_i2 quiet_world n = id" "w_throttle quiet_world c v = True"
  by (simp_all add: quiet_world_def)

lemma undisturbed_quiet: "undisturbed quiet_world"
  by (simp add: undisturbed_def)

text \<open>The operator's capital call is answered with what the service returns.\<close>

lemma call_answered_with:
  assumes "create_capital_call id id web_env ''call-1'' sample_call d = (Inr (doc, is_new), d')"
  shows "api_request quiet_world web_call_request (CapitalCalls 1) (site_on d) =
     (created_or_replayed (capital_call_json doc) is_new, (used_key 71 (site_on d))\<lparr>site_db := d'\<rparr>)"
proof -
  have auth: "authenticate (w_env quiet_world 0) (rq_authorization web_call_request) (site_on d) =
      (Inr (Some (sample_user 1 ''ops'', sample_key 71 1 ''abc'')), used_key 71 (site_on d))"
    using authenticated(1) by (simp add: web_call_request_def)
  have "membership_on 1 1 (used_key 71 (site_on d)) = Some (sample_membership 61 1 ROLE_OPERATOR None)"
    by (simp add: membership_on_def used_key_def site_on_def sample_membership_def)
  then have perm: "permitted (CapitalCalls 1) (Some (sample_user 1 ''ops'')) (used_key 71 (site_on d)) =
      Inr (Some (sample_membership 61 1 ROLE_OPERATOR None))"
    using permission_gate [of "CapitalCalls 1" "used_key 71 (site_on d)" 1 "sample_user 1 ''ops''"]
    by (simp add: sample_user_def sample_membership_def)
  have db: "site_db (used_key 71 (site_on d)) = d" by (simp add: used_key_def site_on_def)
  have r: "\<lparr>cr_fund = 1, cr_total = 1000, cr_notice_date = Date 2024 5 1, cr_due_date = Date 2024 5 15,
      cr_created_by = actor (sample_user 1 ''ops'')\<rparr> = sample_call"
    by (simp add: sample_call_def actor_def sample_user_def)
  have "capital_calls_view quiet_world (sample_user 1 ''ops'') web_call_request 1 (used_key 71 (site_on d)) =
      (Inr (created_or_replayed (capital_call_json doc) is_new), (used_key 71 (site_on d))\<lparr>site_db := d'\<rparr>)"
    unfolding capital_calls_view_def request_parts bind_act_def query_def with_retry_def on_db_def sum.case prod.case db r quiet_simps
    using retrying_first [of "\<lambda>n. create_capital_call id id web_env ''call-1'' sample_call", OF assms]
    by (simp add: ret_def)
  then have "run_view quiet_world web_call_request (CapitalCalls 1) (site_on d) =
      (Inr (created_or_replayed (capital_call_json doc) is_new), (used_key 71 (site_on d))\<lparr>site_db := d'\<rparr>)"
    using auth perm
    by (simp add: run_view_def bind_act_def query_def Let_def check_throttles_def ensure_def mutation_throttle_allows_def
        method_allowed_def web_call_request_def sample_request_def)
  then show ?thesis by (simp add: api_request_def)
qed

definition answered_site :: site where
  "answered_site = (used_key 71 sample_site)\<lparr>site_db := drawn_db\<rparr>"

lemma call_answered:
  "api_request quiet_world web_call_request (CapitalCalls 1) sample_site =
     (respond 201 (capital_call_json drawn_doc), answered_site)"
  using call_answered_with [OF web_call] by (simp add: created_or_replayed_def answered_site_def)

text \<open>The LP asks for the statement of the open quarter.\<close>

definition statement_request :: request where
  "statement_request = (sample_request ''GET'' ''def'' [])\<lparr>rq_query := [(''period'', ''0000000000000000000000000000000c'')]\<rparr>"

lemma statement_answered:
  "\<exists>st. api_request quiet_world statement_request (LPStatement 1 31) (site_on solo_charged) =
     (respond 200 (VObj (statement_dict st)), used_key 72 (site_on solo_charged))"
proof -
  let ?s = "used_key 72 (site_on solo_charged)"
  have auth: "authenticate (w_env quiet_world 0) (rq_authorization statement_request) (site_on solo_charged) =
      (Inr (Some (sample_user 2 ''lp-a'', sample_key 72 2 ''def'')), ?s)"
    using authenticated(2) by (simp add: statement_request_def sample_request_def)
  have "membership_on 2 1 ?s = Some (sample_membership 62 2 ROLE_LP (Some 31))"
    by (simp add: membership_on_def used_key_def site_on_def sample_membership_def)
  then have perm: "permitted (LPStatement 1 31) (Some (sample_user 2 ''lp-a'')) ?s =
      Inr (Some (sample_membership 62 2 ROLE_LP (Some 31)))"
    using permission_gate [of "LPStatement 1 31" ?s 1 "sample_user 2 ''lp-a''"]
    by (simp add: sample_user_def sample_membership_def)
  have db: "site_db ?s = solo_charged" by (simp add: used_key_def site_on_def)
  have rows: "get_or_404 (\<lambda>f. f_id f = 1) (db_funds solo_charged) = Inr sample_fund"
    "get_or_404 (\<lambda>x. lp_id x = 31) (db_lps solo_charged) = Inr solo_lp"
    "get_or_404 (\<lambda>p. p_id p = 12 \<and> p_fund p = f_id sample_fund) (db_periods solo_charged) = Inr q2"
    by code_simp+
  have uuid: "python_uuid ''0000000000000000000000000000000c'' = Some 12" by code_simp
  have param: "query_param statement_request ''period'' = Some ''0000000000000000000000000000000c''" "\<not> rq_csv statement_request"
    by (simp_all add: query_param_def statement_request_def sample_request_def)
  obtain st where st: "lp_statement sample_fund solo_lp q2 solo_charged = Inr st" using solo_statements(1) by blast
  have "lp_statement_view statement_request (sample_membership 62 2 ROLE_LP (Some 31)) 1 31 ?s =
      (Inr (respond 200 (VObj (statement_dict st))), ?s)"
    unfolding lp_statement_view_def bind_act_def query_def on_db_def sum.case prod.case db rows param option.case uuid st
    by (simp add: ensure_def sample_membership_def rows st db statement_headers_def param ret_def respond_def used_key_def site_on_def)
  then have "run_view quiet_world statement_request (LPStatement 1 31) (site_on solo_charged) =
      (Inr (respond 200 (VObj (statement_dict st))), ?s)"
    using auth perm
    by (simp add: run_view_def bind_act_def query_def Let_def check_throttles_def ensure_def mutation_throttle_allows_def
        method_allowed_def statement_request_def sample_request_def membership_of_def)
  then have "api_request quiet_world statement_request (LPStatement 1 31) (site_on solo_charged) =
      (respond 200 (VObj (statement_dict st)), ?s)" by (simp add: api_request_def)
  then show ?thesis by blast
qed

text \<open>A key without a membership asks for the same.\<close>

lemma stranger_refused:
  "api_request quiet_world (sample_request ''GET'' ''fed'' []) (FundAccounts 1) sample_site =
     (drf_error 404, used_key 73 sample_site)"
proof -
  have "membership_on 3 1 (used_key 73 sample_site) = None"
    by (simp add: membership_on_def used_key_def site_on_def sample_membership_def)
  then have "permitted (FundAccounts 1) (Some (sample_user 3 ''nobody'')) (used_key 73 sample_site) = Inl NotFound"
    using permission_gate [of "FundAccounts 1" "used_key 73 sample_site" 1 "sample_user 3 ''nobody''"]
    by (simp add: sample_user_def)
  then show ?thesis
    using authenticated(3)
    by (simp add: api_request_def run_view_def bind_act_def query_def Let_def exception_handler_def drf_or_internal_def)
qed

end
