(* ===== verification/Api_Replay.thy ===== *)
theory Api_Replay
  imports Api_Correct
begin

text \<open>
  Lemmas on a capital-call request that is sent again: what its first answer leaves in the
  ledger, and how the record is found by the next.
\<close>

lemma call_recorded:
  assumes "rely i1" and "rely i2" and c: "committed s" and dp: "dp 4 (cr_total r)"
    and r: "create_capital_call i1 i2 env key r s = (Inr (doc, is_new), s')"
  shows "\<exists>t. keyed key s' = [t] \<and> call_fingerprint env r = Inr (t_request_hash t) \<and>
    doc \<in> set (db_capital_calls s') \<and> cc_transfer doc = t_id t"
proof -
  from r obtain h where h: "call_fingerprint env r = Inr h"
    and run: "run_once i1 i2 key h (create_call (env, r) key h) (replay_call (env, r)) s = (Inr (doc, is_new), s')"
    by (auto simp: create_capital_call_def run_idempotent_def act)
  from call_once.run_exactly_once [OF assms(1-3) run] obtain t where t: "keyed key s' = [t]" "t_request_hash t = h"
    and d: "if is_new then keyed key s = [] \<and> create_call (env, r) key h (i1 s) = (Inr doc, s')
      else replay_call (env, r) t s' = (Inr doc, s') \<and> (s' = s \<or> s' = i2 (i1 s))" by blast
  show ?thesis
  proof (cases is_new)
    case True
    with d have cr: "create_call (env, r) key h (i1 s) = (Inr doc, s')" by simp
    from create_call_document [OF cr] obtain t' number where
      t': "keyed key s' = keyed key (i1 s) @ [t']" "doc = call_document env r number t'" by blast
    from cr obtain n' t'' s1 where d: "doc = call_document env r n' t''" "insert_capital_call (call_document env r n' t'') s1 = (Inr (), s')"
      by (rule create_call_InrE) auto
    then obtain x where x: "numeric_store 20 4 (cr_total r) = Some x" "cc_total_amount doc = cr_total r"
      "doc\<lparr>cc_total_amount := x\<rparr> \<in> set (db_capital_calls s')"
      by (auto simp: insert_capital_call_def act column_def call_document_def split: option.splits)
    have "x = cr_total r" using numeric_store_exact [OF dp x(1)] .
    with x(2,3) have "doc \<in> set (db_capital_calls s')" by (cases doc) simp
    with t t' h show ?thesis by (auto simp: call_document_def)
  next
    case False
    with d have "get_row (\<lambda>c. cc_transfer c = t_id t) (db_capital_calls s') = Inr doc" by (simp add: replay_call_def act)
    with t h show ?thesis by (auto dest!: get_row_Inr)
  qed
qed

lemma call_again:
  assumes c: "committed s" and k: "keyed key s = [t]" and h: "call_fingerprint env r = Inr (t_request_hash t)"
    and doc: "doc \<in> set (db_capital_calls s)" "cc_transfer doc = t_id t" "distinct (map cc_transfer (db_capital_calls s))"
  shows "create_capital_call i1 i2 env key r s = (Inr (doc, False), s)"
proof -
  have "filter (\<lambda>c. cc_transfer c = t_id t) (db_capital_calls s) = [doc]"
    using doc by (intro filter_distinct_unique) auto
  then have "get_row (\<lambda>c. cc_transfer c = t_id t) (db_capital_calls s) = Inr doc" by (simp add: get_row_def)
  then show ?thesis
    by (simp add: create_capital_call_def run_idempotent_def bind_act_def query_def h run_again [OF c k] replay_call_def ret_def)
qed

lemma call_fingerprint_same:
  assumes "sha256_hex env' = sha256_hex env" and "cr_fund r' = cr_fund r" "cr_total r' = cr_total r"
    "cr_notice_date r' = cr_notice_date r" "cr_due_date r' = cr_due_date r"
  shows "call_fingerprint env' r' = call_fingerprint env r"
  using assms by (simp add: call_fingerprint_def request_fingerprint_def)

lemma keeps_committed_call:
  assumes "rely i1" and "rely i2"
  shows "keeps committed (create_capital_call i1 i2 env key r)"
proof (rule keepsI)
  fix s x s' assume c: "committed s" and r: "create_capital_call i1 i2 env key r s = (x, s')"
  show "committed s'"
  proof (cases "call_fingerprint env r")
    case (Inl e)
    with r c show ?thesis by (auto simp: create_capital_call_def bind_act_def query_def)
  next
    case (Inr h)
    with r have "run_once i1 i2 key h (create_call (env, r) key h) (replay_call (env, r)) s = (x, s')"
      by (simp add: create_capital_call_def run_idempotent_def bind_act_def query_def)
    from call_once.run_steps [OF assms c this] show ?thesis ..
  qed
qed

text \<open>REST framework's decimal field lets no value through with more than its places.\<close>

definition decimal_places_hold :: "world \<Rightarrow> bool" where
  "decimal_places_hold w \<longleftrightarrow> (\<forall>digits places low v x. w_decimal_field w digits places low v = Some x \<longrightarrow> dp places x)"

lemma required_field_Inr: "required_field field name attrs = Inr x \<Longrightarrow> \<exists>v. field v = Some x"
  by (auto simp: required_field_def split: option.splits if_splits)

lemma call_total_dp:
  assumes "decimal_places_hold w" and "capital_call_request w rq = Inr (tot, notice, due)"
  shows "dp 4 tot"
proof -
  from assms(2) obtain attrs where "required_field (money_in w) ''total_amount'' attrs = Inr tot"
    by (auto simp: capital_call_request_def)
  with assms(1) have "dp 2 tot" by (auto simp: decimal_places_hold_def money_in_def dest!: required_field_Inr)
  then show ?thesis by (rule dp_mono) simp
qed

text \<open>The view: an answer that is not an error shows a document that is on record.\<close>

lemma capital_calls_view_Inr:
  assumes rely: "\<And>n. rely (w_i1 w n) \<and> rely (w_i2 w n)" and dec: "decimal_places_hold w" and c: "committed (site_db s)"
    and r: "capital_calls_view w u rq f s = (Inr resp, s')"
  shows "\<exists>key tot notice due n t doc is_new. idempotency_key rq = Inr key \<and> capital_call_request w rq = Inr (tot, notice, due) \<and>
    keyed key (site_db s') = [t] \<and>
    call_fingerprint (w_env w n) \<lparr>cr_fund = f, cr_total = tot, cr_notice_date = notice, cr_due_date = due, cr_created_by = actor u\<rparr>
      = Inr (t_request_hash t) \<and>
    doc \<in> set (db_capital_calls (site_db s')) \<and> cc_transfer doc = t_id t \<and>
    resp = created_or_replayed (capital_call_json doc) is_new"
proof -
  from r obtain key tot notice due doc is_new d' where k: "idempotency_key rq = Inr key"
    and b: "capital_call_request w rq = Inr (tot, notice, due)"
    and run: "retrying default_backoff False (w_rnd w) (\<lambda>n. create_capital_call (w_i1 w n) (w_i2 w n) (w_env w n) key
        \<lparr>cr_fund = f, cr_total = tot, cr_notice_date = notice, cr_due_date = due, cr_created_by = actor u\<rparr>) (site_db s) =
        (Inr (doc, is_new), d')"
    and s': "site_db s' = d'" "resp = created_or_replayed (capital_call_json doc) is_new"
    unfolding capital_calls_view_def with_retry_def by (auto simp: act)
  from retrying_Inr [OF keeps_committed_call c run] rely obtain n d where "committed d"
    "create_capital_call (w_i1 w n) (w_i2 w n) (w_env w n) key
        \<lparr>cr_fund = f, cr_total = tot, cr_notice_date = notice, cr_due_date = due, cr_created_by = actor u\<rparr> d = (Inr (doc, is_new), d')"
    by blast
  from call_recorded [OF _ _ this(1) _ this(2)] rely k b s' call_total_dp [OF dec b] show ?thesis by fastforce
qed

lemma capital_calls_view_again:
  assumes "committed (site_db s)" and "idempotency_key rq = Inr key" and "capital_call_request w rq = Inr (tot, notice, due)"
    and "keyed key (site_db s) = [t]"
    and "call_fingerprint (w_env w 1) \<lparr>cr_fund = f, cr_total = tot, cr_notice_date = notice, cr_due_date = due, cr_created_by = actor u\<rparr>
      = Inr (t_request_hash t)"
    and "doc \<in> set (db_capital_calls (site_db s))" "cc_transfer doc = t_id t" "distinct (map cc_transfer (db_capital_calls (site_db s)))"
  shows "capital_calls_view w u rq f s = (Inr (respond 200 (capital_call_json doc)), s)"
proof -
  note again = retrying_first [where fn = "\<lambda>n. create_capital_call (w_i1 w n) (w_i2 w n) (w_env w n) key
        \<lparr>cr_fund = f, cr_total = tot, cr_notice_date = notice, cr_due_date = due, cr_created_by = actor u\<rparr>",
      OF call_again [OF assms(1,4-8)]]
  show ?thesis
    unfolding capital_calls_view_def bind_act_def query_def with_retry_def on_db_def sum.case prod.case assms(2,3)
    by (simp add: again ret_def created_or_replayed_def)
qed

end
