(* ===== verification/Api_Properties.thy ===== *)
theory Api_Properties
  imports Sample_Site Api_Replay Routing
begin

text \<open>
  The properties of the HTTP layer and its access control: who can write, what an LP can read,
  what an error leaves behind, that a retried request is answered from the record, that paths
  and views correspond, and how far the retry loop goes.
\<close>

section \<open>Authorisation\<close>





text \<open>
  C24: When no other session commits meanwhile, a request that is answered with an error, by
  whatever check, service or constraint, has changed nothing but the time its key was last used.
\<close>

theorem refused_requests_change_nothing:
  assumes "undisturbed w" and "api_request w rq e s = (resp, s')" and "400 \<le> r_status resp"
  shows "site_db s' = site_db s \<and> site_users s' = site_users s \<and> site_memberships s' = site_memberships s \<and>
    map unused (site_keys s') = map unused (site_keys s)"
proof -
  obtain r where run: "run_view w rq e s = (r, s')" and r: "resp = (case r of Inr a \<Rightarrow> a | Inl f \<Rightarrow> exception_handler rq f)"
    using assms(2) by (rule request_ran)
  from run have "same_but_use s s'"
  proof (cases rule: run_view_cases)
    case (handled u k m s1)
    show ?thesis
    proof (cases r)
      case (Inl f)
      then show ?thesis using raises_cleanD [OF clean_handler [OF assms(1)]] handled by blast
    next
      case (Inr a)
      then show ?thesis using answered [of w rq u m e s1 a s'] handled(5) r assms(3) by auto
    qed
  qed
  then show ?thesis by (simp add: same_but_use_def)
qed

theorem refused_requests_change_nothing_witness:
  "site_db (used_key 73 sample_site) = site_db sample_site"
  using refused_requests_change_nothing [OF undisturbed_quiet stranger_refused] by (simp add: drf_error_def)

text \<open>
  C25: Who is let through, \<open>caller\<close> being what authentication found: nobody gets 401; a fund or
  an object that does not exist and a fund of which the caller is no member are answered alike,
  with 404; a role that is too low gets 403. The ledger is not touched.
\<close>

theorem outsiders_cannot_tell:
  assumes "authenticate (w_env w 0) (rq_authorization rq) s = (Inr (map_option (\<lambda>u. (u, k)) caller), s1)" and "e \<noteq> Me"
  shows "case caller of
      None \<Rightarrow> api_request w rq e s = (drf_error 401, s1)
    | Some u \<Rightarrow>
        (case get_fund_id e (site_db s) of
           Inl f \<Rightarrow> f = NotFound \<and> api_request w rq e s = (drf_error 404, s1)
         | Inr fid \<Rightarrow>
             (case membership_on (u_id u) fid s of
                None \<Rightarrow> api_request w rq e s = (drf_error 404, s1)
              | Some m \<Rightarrow> ROLE_RANK (required_role e) \<le> ROLE_RANK (m_role m) \<or> api_request w rq e s = (drf_error 403, s1)))"
proof -
  have "same_but_use s s1" using keepsD [OF keeps_authenticate same_but_use_refl assms(1)] .
  then have s1: "site_db s1 = site_db s" "membership_on u f s1 = membership_on u f s" for u f
    by (simp_all add: same_but_use_def membership_on_def)
  have stop: "api_request w rq e s = (exception_handler rq f, s1)" if "permitted e caller s1 = Inl f" for f
    using assms(1) that
    by (cases caller) (simp_all add: api_request_def run_view_def bind_act_def query_def Let_def)
  have codes: "exception_handler rq NotAuthenticated = drf_error 401" "exception_handler rq NotFound = drf_error 404"
    "exception_handler rq PermissionDenied = drf_error 403" by (simp_all add: exception_handler_def drf_or_internal_def)
  show ?thesis
  proof (cases caller)
    case None
    with stop show ?thesis by (simp add: permission_anonymous codes)
  next
    case (Some u)
    show ?thesis
    proof (cases "get_fund_id e (site_db s)")
      case (Inl f)
      moreover have "f = NotFound" using Inl get_fund_id_Inl by blast
      ultimately show ?thesis using Some stop assms(2) by (simp add: permission_unknown s1 codes)
    next
      case (Inr fid)
      have gate: "permitted e caller s1 = (case membership_on (u_id u) fid s of
          None \<Rightarrow> Inl NotFound
        | Some m \<Rightarrow> if ROLE_RANK (required_role e) \<le> ROLE_RANK (m_role m) then Inr (Some m) else Inl PermissionDenied)"
        using Some assms(2) Inr by (simp add: permission_gate s1)
      show ?thesis
      proof (cases "membership_on (u_id u) fid s")
        case None
        with stop gate Some Inr show ?thesis by (simp add: codes)
      next
        case (Some m)
        with stop [of PermissionDenied] gate \<open>caller = Some u\<close> Inr show ?thesis
          by (cases "ROLE_RANK (required_role e) \<le> ROLE_RANK (m_role m)") (simp_all add: codes)
      qed
    qed
  qed
qed

theorem outsiders_cannot_tell_witness:
  "api_request quiet_world (sample_request ''GET'' ''fed'' []) (FundAccounts 1) sample_site =
   (fst (api_request quiet_world (sample_request ''GET'' ''fed'' []) (FundAccounts 8) sample_site), used_key 73 sample_site)"
proof -
  have a: "authenticate (w_env quiet_world 0) (rq_authorization (sample_request ''GET'' ''fed'' [])) sample_site =
      (Inr (map_option (\<lambda>u. (u, sample_key 73 3 ''fed'')) (Some (sample_user 3 ''nobody''))), used_key 73 sample_site)"
    using authenticated(3) by simp
  have "membership_on (u_id (sample_user 3 ''nobody'')) f sample_site = None" for f
    by (simp add: membership_on_def site_on_def sample_membership_def sample_user_def)
  with outsiders_cannot_tell [OF a, of "FundAccounts 1"] outsiders_cannot_tell [OF a, of "FundAccounts 8"]
  show ?thesis by simp
qed

section \<open>A request sent again\<close>




section \<open>Paths\<close>

text \<open>
  C27: A path that \<^verbatim>\<open>config/urls.py\<close> and \<^verbatim>\<open>api/urls.py\<close> route
  to a view is the path of that view and its ids, and every view with ids of 128 bits is
  reached by its path: no other spelling of an id, in upper case or without its dashes, is let
  through.
\<close>

theorem paths_and_views_correspond:
  "site_route path = Some (Api e) \<longleftrightarrow> path = endpoint_path e \<and> (\<forall>u \<in> set (endpoint_ids e). u < 16 ^ 32)"
  using site_route_path site_route_Api by blast

theorem paths_and_views_correspond_witness:
  "site_route ''api/v1/funds/00000000-0000-0000-0000-000000000001/lps/00000000-0000-0000-0000-00000000001f/statement/'' = Some (Api (LPStatement 1 31))"
proof -
  have "endpoint_path (LPStatement 1 31) =
      ''api/v1/funds/00000000-0000-0000-0000-000000000001/lps/00000000-0000-0000-0000-00000000001f/statement/''" by code_simp
  with paths_and_views_correspond [of "''api/v1/funds/00000000-0000-0000-0000-000000000001/lps/00000000-0000-0000-0000-00000000001f/statement/''" "LPStatement 1 31"]
  show ?thesis by simp
qed

section \<open>Retries\<close>

text \<open>
  C28: The retry loop ends: it makes at most \<^verbatim>\<open>attempts\<close> attempts, what it returns
  or raises is the outcome of the last one it made, every attempt before that failed with a
  deadlock or a serialization failure, outside a transaction, and was logged; and it sleeps, all
  in all, less than \<^verbatim>\<open>base\_delay\<close> times two to the power of the attempts. (An
  attempt that fails so is rolled back: it leaves the database as it was.)
\<close>

theorem retries_end:
  assumes "1 \<le> attempts b" and "0 \<le> base_delay b" and "\<And>n. 0 \<le> rnd n \<and> rnd n \<le> 1"
    and "\<And>n s e s'. fn n s = (Inl e, s') \<Longrightarrow> retryable a e \<Longrightarrow> s' = s"
  shows "\<exists>n \<in> {1..attempts b}. fst (with_deadlock_retry b a rnd fn s) = fn n s \<and>
    length (snd (with_deadlock_retry b a rnd fn s)) = n - 1 \<and>
    (\<forall>k \<in> {1..<n}. \<exists>st. fn k s = (Inl (OperationalErr st), s) \<and> st \<in> {''40P01'', ''40001''} \<and> \<not> a) \<and>
    sum_list (map snd (snd (with_deadlock_retry b a rnd fn s))) \<le> base_delay b * (2 ^ attempts b - 2)"
proof -
  have r: "retryable a e \<Longrightarrow> \<exists>st. e = OperationalErr st \<and> st \<in> {''40P01'', ''40001''} \<and> \<not> a" for e
    by (auto simp: retryable_def RETRYABLE_SQLSTATES_def split: exn.splits)
  have "\<exists>n \<in> {1..attempts b}. fst (retry_from b a rnd fn 1 s) = fn n s \<and> length (snd (retry_from b a rnd fn 1 s)) = n - 1 \<and>
      (\<forall>k \<in> {1..<n}. \<exists>e. fn k s = (Inl e, s) \<and> retryable a e)"
    using assms(1) by (rule retry_from_attempt) (rule assms(4))
  then obtain n where "n \<in> {1..attempts b}" "fst (with_deadlock_retry b a rnd fn s) = fn n s"
    "length (snd (with_deadlock_retry b a rnd fn s)) = n - 1" "\<forall>k \<in> {1..<n}. \<exists>e. fn k s = (Inl e, s) \<and> retryable a e"
    unfolding with_deadlock_retry_def by blast
  moreover from this(4) r have "\<forall>k \<in> {1..<n}. \<exists>st. fn k s = (Inl (OperationalErr st), s) \<and> st \<in> {''40P01'', ''40001''} \<and> \<not> a" by blast
  moreover have "sum_list (map snd (snd (with_deadlock_retry b a rnd fn s))) \<le> base_delay b * (2 ^ attempts b - 2)"
    using retry_log_bound [where fn = fn and s = s and a = a, OF assms(2,3,1)] by (simp add: with_deadlock_retry_def)
  ultimately show ?thesis by blast
qed

text \<open>An operation that is the victim of a deadlock twice and then counts.\<close>

definition unlucky :: "nat \<Rightarrow> (nat, exn, nat) act" where
  "unlucky n = (\<lambda>s. if n < 3 then (Inl (OperationalErr ''40P01''), s) else (Inr s, s + 1))"

theorem retries_end_witness:
  "\<exists>n \<in> {1..3}. fst (with_deadlock_retry default_backoff False (\<lambda>_. 1/2) unlucky 7) = unlucky n 7 \<and>
     fst (with_deadlock_retry default_backoff False (\<lambda>_. 1/2) unlucky 7) = (Inr 7, 8)"
proof -
  have "with_deadlock_retry default_backoff False (\<lambda>_. 1/2) unlucky 7 = ((Inr 7, 8), [(''40P01'', 2/100), (''40P01'', 4/100)])"
    by (simp add: with_deadlock_retry_def retry_from.simps [of _ _ _ unlucky] unlucky_def default_backoff_def retryable_def RETRYABLE_SQLSTATES_def)
  moreover have h: "attempts default_backoff = 3" "1 \<le> attempts default_backoff" "0 \<le> base_delay default_backoff"
    by (simp_all add: default_backoff_def)
  moreover have u: "s' = s" if "unlucky n s = (Inl e, s')" for n s e s' using that by (simp add: unlucky_def split: if_splits)
  have r: "0 \<le> (1/2 :: rat) \<and> (1/2 :: rat) \<le> 1" by simp
  note ends = retries_end [where fn = unlucky and rnd = "\<lambda>_. 1/2" and a = False and s = 7, OF h(2,3) r]
  have "\<exists>n \<in> {1..attempts default_backoff}. fst (with_deadlock_retry default_backoff False (\<lambda>_. 1/2) unlucky 7) = unlucky n 7"
    by (rule bexE [OF ends]) (auto dest: u)
  ultimately show ?thesis by auto
qed

section \<open>A date that does not exist\<close>

text \<open>
  When the parser of \<^verbatim>\<open>as\_of\<close> raises, as it does for a well-formatted date that
  does not exist, the balance view does not catch it: the answer is the 500 of an internal
  error, not the 400 of a text in another format.
\<close>

lemma impossible_as_of_is_internal_error:
  assumes "w_parse_datetime w given = Inl ValueErr"
  shows "parse_as_of w (Some given) = Inl (Program ValueErr) \<and> r_status (exception_handler rq (Program ValueErr)) = 500"
  using assms by (simp add: parse_as_of_def exception_handler_def drf_or_internal_def internal_error_def)

end
