(* ===== verification/Site_Steps.thy ===== *)
theory Site_Steps
  imports Api_Correct
begin

text \<open>
  Everything that happens to a site: requests to the API, the management commands, and whatever
  is done to the ledger's tables. A property of the site that the few writes of the access
  application keep is kept by all of it.
\<close>

section \<open>Steps\<close>

inductive site_step :: "site \<Rightarrow> site \<Rightarrow> bool" where
  request: "api_request w rq e s = (resp, s') \<Longrightarrow> site_step s s'"
| ledger: "site_step s (s\<lparr>site_db := d\<rparr>)"
| create: "create_api_key env d username name days s = (k, s') \<Longrightarrow> site_step s s'"
| revoke: "revoke_api_key env prefix s = (r, s') \<Longrightarrow> site_step s s'"
| grant: "grant_access env uid mid username fid role lp s = (r, s') \<Longrightarrow> site_step s s'"
| rotate: "rotate_sandbox demo_id ids env uid mid username given s = (f, s') \<Longrightarrow> site_step s s'"
| demo: "demo_access demo_id seed env draws uids mids days api roles s = (t, s') \<Longrightarrow> site_step s s'"

definition site_steps :: "site \<Rightarrow> site \<Rightarrow> bool" where
  "site_steps s s' \<longleftrightarrow> site_step\<^sup>*\<^sup>* s s'"

section \<open>What the writes keep, all of it keeps\<close>

locale kept_by_access =
  fixes P :: "site \<Rightarrow> bool"
  assumes ledger_kept: "P s \<Longrightarrow> P (s\<lparr>site_db := d\<rparr>)"
    and user_kept: "keeps P (insert_user u)"
    and membership_kept: "keeps P (update_or_create_membership env mid u fid r lp)"
    and key_kept: "keeps P (insert_api_key k)"
    and use_kept: "keeps P (record_use env k)"
    and revoke_kept: "P s \<Longrightarrow> P (revoke_where Q t s)"
    and delete_kept: "P s \<Longrightarrow> P (delete_other_memberships uid fid s)"
begin

lemma on_db_kept: "keeps P (on_db m)"
  by (rule keepsI) (auto simp: on_db_def ledger_kept split: prod.splits sum.splits)

lemma revoked_kept: "keeps P (modify (revoke_where Q t))"
  and deleted_kept: "keeps P (modify (delete_other_memberships uid fid))"
  by (auto intro: keeps_modify revoke_kept delete_kept)

lemmas kept = on_db_kept user_kept membership_kept key_kept use_kept revoked_kept deleted_kept keeps_ensure_user

lemma commands_kept:
  shows "keeps P (create_api_key env d username name days)"
    and "keeps P (revoke_api_key env prefix)"
    and "keeps P (grant_access env uid mid username fid r lp)"
    and "keeps P (rotate_sandbox demo_id ids env uid mid username given)"
    and "keeps P (demo_role env d uid mid fid l t row)"
  unfolding create_api_key_def issue_key_def revoke_api_key_def grant_access_def rotate_sandbox_def demo_role_def Let_def
  by (intro kept keeps_intros)+

lemma demo_kept: "keeps P (demo_access demo_id seed env draws uids mids days api roles)"
  unfolding demo_access_def Let_def by (intro kept commands_kept keeps_intros)

lemma authenticate_kept: "keeps P (authenticate env header)"
  unfolding authenticate_def
  by (intro use_kept keeps_intros | simp split: list.split option.split | safe)+

lemma handler_kept: "keeps P (handler w rq u m e)"
  by (cases e) (simp_all only: handler.simps view_defs Let_def, (intro on_db_kept keeps_intros)+)

lemma request_kept: "P s \<Longrightarrow> api_request w rq e s = (resp, s') \<Longrightarrow> P s'"
proof -
  assume P: "P s" and a: "api_request w rq e s = (resp, s')"
  have k: "keeps P (run_view w rq e)"
    unfolding run_view_def Let_def
    by (intro authenticate_kept keeps_intros) (auto intro: handler_kept keeps_intros split: option.split)
  obtain r where "run_view w rq e s = (r, s')" using a by (rule request_ran)
  then show "P s'" by (rule keepsD [OF k P])
qed

lemma step_kept: "site_step s s' \<Longrightarrow> P s \<Longrightarrow> P s'"
proof (induction rule: site_step.induct)
  case (request w rq e s resp s')
  then show ?case by (blast intro: request_kept)
qed (auto intro: ledger_kept dest: keepsD [OF commands_kept(1)] keepsD [OF commands_kept(2)] keepsD [OF commands_kept(3)]
    keepsD [OF commands_kept(4)] keepsD [OF demo_kept])

lemma steps_kept: "site_steps s s' \<Longrightarrow> P s \<Longrightarrow> P s'"
  unfolding site_steps_def by (induction rule: rtranclp_induct) (blast intro: step_kept)+

end

section \<open>Well-formed access tables\<close>

interpretation wf: kept_by_access access_wf
  by unfold_locales
    (auto simp: access_wf_def [of "_\<lparr>site_db := _\<rparr>"] access_wf_def [symmetric] intro: access_wf_revoke_where access_wf_delete_others keeps_intros)

section \<open>Revoked keys\<close>

text \<open>A key with the prefix was revoked.\<close>

definition dead :: "string \<Rightarrow> site \<Rightarrow> bool" where
  "dead p s \<longleftrightarrow> (\<exists>k \<in> set (site_keys s). k_prefix k = p \<and> k_revoked_at k \<noteq> None)"

lemma dead_map:
  assumes "dead p s" and "site_keys s' = map g (site_keys s)" and "\<And>k. k_prefix (g k) = k_prefix k"
    and "\<And>k. k_revoked_at k \<noteq> None \<Longrightarrow> k_revoked_at (g k) \<noteq> None"
  shows "dead p s'"
proof -
  obtain k where "k \<in> set (site_keys s)" "k_prefix k = p" "k_revoked_at k \<noteq> None" using assms(1) by (auto simp: dead_def)
  with assms(2-4) show ?thesis unfolding dead_def by (intro bexI [of _ "g k"]) auto
qed

lemma dead_same_keys: "site_keys s' = site_keys s \<Longrightarrow> dead p s \<Longrightarrow> dead p s'"
  by (simp add: dead_def)

interpretation dead: kept_by_access "dead p" for p
proof unfold_locales
  show "dead p s \<Longrightarrow> dead p (s\<lparr>site_db := d\<rparr>)" for s d by (simp add: dead_def)
  show "keeps (dead p) (insert_user u)" for u
    by (rule keepsI) (auto simp: insert_user_def bind_act_def query_def modify_def dead_def split: sum.splits)
  show "keeps (dead p) (update_or_create_membership env mid u fid r lp)" for env mid u fid r lp
    unfolding update_or_create_membership_def
    by (intro keeps_atomic keepsI)
      (auto simp: insert_membership_def update_membership_def bind_act_def query_def modify_def dead_def split: sum.splits option.splits)
  show "keeps (dead p) (insert_api_key k)" for k
    by (rule keepsI) (auto simp: insert_api_key_def bind_act_def query_def modify_def dead_def split: sum.splits)
  show "keeps (dead p) (record_use env k)" for env k
  proof (rule keepsI)
    fix s r s' assume d: "dead p s" and r: "record_use env k s = (r, s')"
    show "dead p s'"
    proof (cases "s' = s")
      case False
      with r have "site_keys s' = map (\<lambda>j. if k_id j = k_id k then j\<lparr>k_last_used_at := Some (now env)\<rparr> else j) (site_keys s)"
        by (auto simp: record_use_def act split: if_splits)
      with d show ?thesis by (rule dead_map) auto
    qed (use d in simp)
  qed
  show "dead p s \<Longrightarrow> dead p (revoke_where Q t s)" for s Q t
    by (rule dead_map [where g = "\<lambda>k. if Q k \<and> k_revoked_at k = None then k\<lparr>k_revoked_at := Some t\<rparr> else k"])
      (auto simp: revoke_where_def)
  show "dead p s \<Longrightarrow> dead p (delete_other_memberships uid fid s)" for s uid fid
    by (simp add: dead_def delete_other_memberships_def)
qed

text \<open>A dead prefix lets nobody in.\<close>

lemma dead_not_verified:
  assumes "access_wf s" and "dead p s" and "verify_key env raw s = Some k"
  shows "k_prefix k \<noteq> p"
proof
  assume p: "k_prefix k = p"
  have k: "k \<in> set (site_keys s)" "k_revoked_at k = None"
    using assms(3) by (auto simp: verify_key_iff [OF assms(1)] live_key_def)
  obtain j where j: "j \<in> set (site_keys s)" "k_prefix j = p" "k_revoked_at j \<noteq> None" using assms(2) by (auto simp: dead_def)
  have "j = k" using assms(1) k(1) j p by (auto simp: access_wf_def distinct_map dest: inj_onD)
  with k(2) j(3) show False by simp
qed

text \<open>Revoking a prefix that exists makes it dead, whatever the command answers.\<close>

lemma revoke_kills:
  assumes "k \<in> set (site_keys s)" and "revoke_api_key env (k_prefix k) s = (r, s')"
  shows "dead (k_prefix k) s'"
proof -
  have "s' = revoke_where (\<lambda>j. k_prefix j = k_prefix k) (now env) s"
    using assms(2) by (auto simp: revoke_api_key_def bind_act_def query_def modify_def ret_def raise_def split: if_splits)
  with assms(1) have "(if k_revoked_at k = None then k\<lparr>k_revoked_at := Some (now env)\<rparr> else k) \<in> set (site_keys s')"
    by (auto simp: revoke_where_def intro!: rev_image_eqI [of k])
  then show ?thesis unfolding dead_def by (rule bexI [rotated]) simp
qed

end
