(* ===== verification/Rotation_Properties.thy ===== *)
theory Rotation_Properties
  imports Sample_Site Site_Steps
begin

text \<open>
  The daily rotation of the public sandbox: what \<^verbatim>\<open>rotate_sandbox\<close> leaves of the
  user's memberships, and that a second run on the day changes nothing. The sample at the end is
  a site whose sandbox fund of the day is open.
\<close>

section \<open>Lemmas\<close>

lemma ensure_user_named:
  assumes "ensure_user uid name s = (Inr u, s')"
  shows "user_named name s' = Some u \<and> site_db s' = site_db s \<and> site_memberships s' = site_memberships s"
proof (cases "user_named name s")
  case None
  then have "filter (\<lambda>u. u_username u = name) (site_users s) = []"
    by (simp add: user_named_def filter_empty_conv flip: set_empty)
  with assms None show ?thesis
    by (auto simp: ensure_user_def insert_user_def act Let_def user_named_def)
next
  case (Some v)
  with assms show ?thesis by (simp add: ensure_user_def bind_act_def query_def ret_def)
qed

lemma user_named_same: "site_users s' = site_users s \<Longrightarrow> user_named name s' = user_named name s"
  by (simp add: user_named_def)

lemma membership_written:
  assumes "access_wf s" and "update_or_create_membership env mid u fid r lp s = (Inr (), s')"
  shows "site_db s' = site_db s \<and> site_users s' = site_users s \<and>
    filter (\<lambda>m. (m_user m, m_fund m) \<noteq> (u_id u, fid)) (site_memberships s') =
      filter (\<lambda>m. (m_user m, m_fund m) \<noteq> (u_id u, fid)) (site_memberships s) \<and>
    (\<exists>m. filter (\<lambda>m. (m_user m, m_fund m) = (u_id u, fid)) (site_memberships s') = [m] \<and> m_role m = r \<and> m_lp m = lp)"
proof -
  let ?here = "\<lambda>m. m_user m = u_id u \<and> m_fund m = fid"
  have d: "distinct (map (\<lambda>m. (m_user m, m_fund m)) (site_memberships s))" and di: "distinct (map m_id (site_memberships s))"
    using assms(1) by (simp_all add: access_wf_def)
  show ?thesis
  proof (cases "membership_on (u_id u) fid s")
    case None
    then have "filter ?here (site_memberships s) = []" by (auto simp: membership_on_None filter_empty_conv)
    with assms(2) None show ?thesis
      by (auto simp: update_or_create_membership_def insert_membership_def act)
  next
    case (Some m)
    let ?m = "m\<lparr>m_role := r, m_lp := lp\<rparr>"
    note m = membership_on_Some [OF Some]
    have one: "filter ?here (site_memberships s) = [m]"
      using filter_distinct_unique [OF d, of m] m by auto
    have ms: "site_memberships s' = map (\<lambda>n. if m_id n = m_id m then ?m else n) (site_memberships s)"
      and same: "site_db s' = site_db s" "site_users s' = site_users s"
      using assms(2) Some by (auto simp: update_or_create_membership_def update_membership_def act)
    have id: "n = m" if "n \<in> set (site_memberships s)" "m_id n = m_id m" for n
      using di m that by (metis distinct_map inj_onD)
    have "filter ?here (site_memberships s') = map (\<lambda>n. if m_id n = m_id m then ?m else n) (filter ?here (site_memberships s))"
      unfolding ms filter_map by (rule arg_cong2 [where f = map, OF refl], rule filter_cong) (use id m in \<open>auto dest: id\<close>)
    moreover have "filter (\<lambda>m. \<not> ?here m) (site_memberships s') = filter (\<lambda>m. \<not> ?here m) (site_memberships s)"
    proof -
      have "filter (\<lambda>m. \<not> ?here m) (site_memberships s') =
          map (\<lambda>n. if m_id n = m_id m then ?m else n) (filter (\<lambda>m. \<not> ?here m) (site_memberships s))"
        unfolding ms filter_map by (rule arg_cong2 [where f = map, OF refl], rule filter_cong) (use id m in \<open>auto dest: id\<close>)
      also have "\<dots> = filter (\<lambda>m. \<not> ?here m) (site_memberships s)"
        by (rule map_idI) (use id m in auto)
      finally show ?thesis .
    qed
    ultimately show ?thesis using one same by simp
  qed
qed

text \<open>Writing the role that is there changes nothing.\<close>

lemma membership_rewritten:
  assumes "access_wf s" and "membership_on (u_id u) fid s = Some m" and "m_role m = r" "m_lp m = None"
  shows "update_or_create_membership env mid u fid r None s = (Inr (), s)"
proof -
  note m = membership_on_Some [OF assms(2)]
  have d: "distinct (map m_id (site_memberships s))" and c: "membership_check r None"
    using assms(1,3,4) m by (auto simp: access_wf_def)
  have eq: "m\<lparr>m_role := r, m_lp := None\<rparr> = m" using assms(3,4) by (cases m) simp
  have "map (\<lambda>n. if m_id n = m_id m then m else n) (site_memberships s) = site_memberships s"
    by (rule map_idI) (use d m in \<open>auto simp: distinct_map dest: inj_onD\<close>)
  then have "s\<lparr>site_memberships := map (\<lambda>n. if m_id n = m_id m then m else n) (site_memberships s)\<rparr> = s" by simp
  then have "update_membership m s = (Inr (), s)"
    using c assms(3,4) by (simp add: update_membership_def bind_act_def query_def modify_def checks.simps(2))
  with eq assms(2) show ?thesis
    by (simp add: update_or_create_membership_def bind_act_def query_def atomic_def eq)
qed

section \<open>The rotation\<close>

lemma rotate_sandbox_InrE:
  assumes "rotate_sandbox demo_id ids env uid mid username given s = (Inr (u, fund), s')"
  obtains d s2 where "open_sandbox_fund demo_id ids env (case given of None \<Rightarrow> today env | Some d \<Rightarrow> d) (site_db s) = (Inr fund, d)"
    "ensure_user uid username (s\<lparr>site_db := d\<rparr>) = (Inr u, s2)"
    "update_or_create_membership env mid u (f_id fund) ROLE_CONTROLLER None (delete_other_memberships (u_id u) (f_id fund) s2) = (Inr (), s')"
  using assms by (auto simp: rotate_sandbox_def Let_def act)

text \<open>
  C31: After a rotation the sandbox user has one membership, that of a controller of the day's
  fund; the memberships of everybody else are as they were; and running it again on that day,
  with other draws and a later clock, returns the same user and fund and changes nothing.
\<close>

theorem rotation_leaves_one_membership:
  assumes "access_wf s" and "rotate_sandbox demo_id ids env uid mid username (Some day) s = (Inr (u, fund), s')"
  shows "(\<exists>m. filter (\<lambda>m. m_user m = u_id u) (site_memberships s') = [m] \<and>
      m_fund m = f_id fund \<and> m_role m = ROLE_CONTROLLER \<and> m_lp m = None) \<and>
    filter (\<lambda>m. m_user m \<noteq> u_id u) (site_memberships s') = filter (\<lambda>m. m_user m \<noteq> u_id u) (site_memberships s) \<and>
    rotate_sandbox demo_id ids' env' uid' mid' username (Some day) s' = (Inr (u, fund), s')"
proof -
  from assms(2) obtain d s2 where 1: "open_sandbox_fund demo_id ids env day (site_db s) = (Inr fund, d)"
    and 2: "ensure_user uid username (s\<lparr>site_db := d\<rparr>) = (Inr u, s2)"
    and 3: "update_or_create_membership env mid u (f_id fund) ROLE_CONTROLLER None (delete_other_memberships (u_id u) (f_id fund) s2) = (Inr (), s')"
    by (rule rotate_sandbox_InrE) simp
  let ?s3 = "delete_other_memberships (u_id u) (f_id fund) s2"
  have wf: "access_wf s'" using keepsD [OF wf.commands_kept(4) assms] .
  have "access_wf (s\<lparr>site_db := d\<rparr>)" using assms(1) by (rule wf.ledger_kept)
  from keepsD [OF keeps_ensure_user [OF access_wf_insert_user] this 2] have "access_wf ?s3" by (rule wf.delete_kept)
  note w = membership_written [OF this 3]
  note n = ensure_user_named [OF 2]
  obtain m where m: "filter (\<lambda>m. (m_user m, m_fund m) = (u_id u, f_id fund)) (site_memberships s') = [m]"
    "m_role m = ROLE_CONTROLLER" "m_lp m = None" using w by blast
  have rest: "filter (\<lambda>m. (m_user m, m_fund m) \<noteq> (u_id u, f_id fund)) (site_memberships s') =
      filter (\<lambda>m. m_user m \<noteq> u_id u) (site_memberships s)"
    using w n by (simp add: delete_other_memberships_def) (rule filter_cong; auto)
  have mine: "m_fund x = f_id fund" if "x \<in> set (site_memberships s')" "m_user x = u_id u" for x
  proof (rule ccontr)
    assume "m_fund x \<noteq> f_id fund"
    then have "x \<in> set (filter (\<lambda>m. (m_user m, m_fund m) \<noteq> (u_id u, f_id fund)) (site_memberships s'))" using that by simp
    then show False unfolding rest using that by simp
  qed
  have "filter (\<lambda>m. m_user m = u_id u) (site_memberships s') = [m]"
    unfolding m(1) [symmetric] using mine by (intro filter_cong) auto
  moreover have "filter (\<lambda>m. m_user m \<noteq> u_id u) (site_memberships s') = filter (\<lambda>m. m_user m \<noteq> u_id u) (site_memberships s)"
    unfolding rest [symmetric] using mine by (intro filter_cong) auto
  moreover have here: "m \<in> set (site_memberships s')" "m_user m = u_id u" "m_fund m = f_id fund"
    using arg_cong [OF m(1), of set] by auto
  moreover have "rotate_sandbox demo_id ids' env' uid' mid' username (Some day) s' = (Inr (u, fund), s')"
  proof -
    have db: "site_db s' = d" and us: "user_named username s' = Some u"
      using w n user_named_same [of s' s2 username] by (simp_all add: delete_other_memberships_def)
    have o: "on_db (open_sandbox_fund demo_id ids' env' day) s' = (Inr fund, s')"
      using sandbox_again [OF 1, of ids' env'] db by (simp add: on_db_def)
    have e: "ensure_user uid' username s' = (Inr u, s')" by (simp add: ensure_user_def bind_act_def query_def us ret_def)
    have "filter (\<lambda>m. \<not> (m_user m = u_id u \<and> m_fund m \<noteq> f_id fund)) (site_memberships s') = site_memberships s'"
      using mine by (simp add: filter_id_conv)
    then have d: "delete_other_memberships (u_id u) (f_id fund) s' = s'" by (simp add: delete_other_memberships_def)
    have "membership_on (u_id u) (f_id fund) s' = Some m" using m(1) by (simp add: membership_on_def)
    from membership_rewritten [OF wf this m(2,3)]
    have "update_or_create_membership env' mid' u (f_id fund) ROLE_CONTROLLER None s' = (Inr (), s')" .
    then show ?thesis
      by (simp add: rotate_sandbox_def Let_def atomic_def bind_act_def o e d modify_def ret_def)
  qed
  ultimately show ?thesis using m by blast
qed

text \<open>The sandbox fund of 3 July 2026, open: two members, of whom one is the sandbox's user, still on another fund.\<close>

definition sandbox_ids :: "string \<Rightarrow> uuid" where
  "sandbox_ids name =
     (if name = ''sandbox:2026-07-03'' then 1 else if name = ''sandbox-lp:Sandbox Pension Scheme'' then 31
      else if name = ''sandbox-lp:Sandbox Endowment'' then 32 else 33)"

definition sandbox_fund :: fund where
  "sandbox_fund = \<lparr>f_id = 1, f_name = ''Sandbox 2026-07-03'', f_base_currency = ''GBP'', f_vintage_year = 2026,
     f_inception_date = Date 2026 1 1\<rparr>"

definition sandbox_db :: db where
  "sandbox_db = empty_db\<lparr>
     db_funds := [sandbox_fund],
     db_lps := map (\<lambda>(i, name, ty, _). \<lparr>lp_id = i, lp_name = name, lp_investor_type = ty\<rparr>) (zip [31, 32, 33] SANDBOX_LPS),
     db_commitments := map (\<lambda>(i, _, _, c). \<lparr>c_id = i + 10, c_fund = 1, c_lp = i, c_committed_amount = c, c_signed_date = Date 2026 1 1\<rparr>)
       (zip [31, 32, 33] SANDBOX_LPS),
     db_periods := map (\<lambda>(i, a, b). \<lparr>p_id = i, p_fund = 1, p_start_date = a, p_end_date = b, p_status = OPEN, p_closed_at = None, p_closed_by = []\<rparr>)
       (zip [51..<59] (quarters [2026, 2027])),
     db_accounts :=
       [sample_account 21 ''CASH-GBP'' AT_CASH None ''GBP'', sample_account 22 ''INVESTMENT-GBP'' AT_INVESTMENT None ''GBP'',
        sample_account 23 ''FEE_EXPENSE'' AT_FEE_EXPENSE None ''GBP'', sample_account 24 ''GAIN_LOSS'' AT_GAIN_LOSS None ''GBP'',
        sample_account 25 ''GP_CAPITAL'' AT_GP_CAPITAL None ''GBP'',
        sample_account 26 ''LP-0000000000000000000000000000001f'' AT_LP_CAPITAL (Some 31) ''GBP'',
        sample_account 27 ''LP-00000000000000000000000000000020'' AT_LP_CAPITAL (Some 32) ''GBP'',
        sample_account 28 ''LP-00000000000000000000000000000021'' AT_LP_CAPITAL (Some 33) ''GBP'']\<rparr>"

lemma sandbox_rows:
  "db_lps sandbox_db = [\<lparr>lp_id = 31, lp_name = ''Sandbox Pension Scheme'', lp_investor_type = PENSION\<rparr>,
    \<lparr>lp_id = 32, lp_name = ''Sandbox Endowment'', lp_investor_type = ENDOWMENT\<rparr>,
    \<lparr>lp_id = 33, lp_name = ''Sandbox Family Office'', lp_investor_type = FAMILY_OFFICE\<rparr>]"
  "db_commitments sandbox_db = map (\<lambda>(i, x). \<lparr>c_id = i + 10, c_fund = 1, c_lp = i, c_committed_amount = x, c_signed_date = Date 2026 1 1\<rparr>)
     [(31, 6000000), (32, 333333333/100), (33, 1000000)]"
  by (simp_all add: sandbox_db_def SANDBOX_LPS_def)

lemma sandbox_is_open: "sandbox_open sandbox_ids (Date 2026 7 3) sandbox_fund sandbox_db"
proof -
  let ?account = "\<lambda>lp. rbind (account_code AT_LP_CAPITAL (f_base_currency sandbox_fund) (Some lp)) (\<lambda>code. account_by_code sandbox_fund code sandbox_db)"
  have "get_fund (sandbox_ids (''sandbox:'' @ date_str (Date 2026 7 3))) sandbox_db = Inr sandbox_fund" by code_simp
  moreover have "list_all (\<lambda>q. is_found (get_period (f_id sandbox_fund) (fst q) sandbox_db))
      (quarters [date_year (Date 2026 7 3), date_year (Date 2026 7 3) + 1])" by code_simp
  moreover have "list_all (\<lambda>ty. is_found (get_account sandbox_fund ty None sandbox_db)) STANDARD_TYPES" by code_simp
  moreover have "is_found (?account 31)" "is_found (?account 32)" "is_found (?account 33)" by code_simp+
  then have "list_all (\<lambda>c. c_fund c = f_id sandbox_fund \<longrightarrow> is_found (?account (c_lp c))) (db_commitments sandbox_db)"
    by (simp add: sandbox_rows(2) del: rbind_Inr)
  moreover have "list_all (\<lambda>row. case get_lp (sandbox_ids (''sandbox-lp:'' @ fst row)) sandbox_db of
      Inl _ \<Rightarrow> False | Inr lp \<Rightarrow> is_found (get_commitment (f_id sandbox_fund) (lp_id lp) sandbox_db)) SANDBOX_LPS"
    by (simp add: SANDBOX_LPS_def sandbox_ids_def get_lp_def get_row_def get_commitment_def sandbox_rows is_found_def sandbox_fund_def)
  ultimately show ?thesis unfolding sandbox_open_def accounts_open_def by blast
qed

text \<open>The site: the public user, with a membership of yesterday's fund, and another user.\<close>

definition sandbox_site :: site where
  "sandbox_site = \<lparr>site_db = sandbox_db, site_users = [sample_user 1 ''public'', sample_user 2 ''other''],
     site_memberships = [(sample_membership 61 1 ROLE_CONTROLLER None)\<lparr>m_fund := 99\<rparr>, sample_membership 62 2 ROLE_VIEWER None],
     site_keys = []\<rparr>"

lemma access_wf_sandbox: "access_wf sandbox_site"
  by (simp add: access_wf_def sandbox_site_def sample_user_def sample_membership_def membership_check_def)

lemma sandbox_rotated:
  "rotate_sandbox sandbox_ids ids (sample_env 1) 5 63 ''public'' (Some (Date 2026 7 3)) sandbox_site =
     (Inr (sample_user 1 ''public'', sandbox_fund), sandbox_site\<lparr>site_memberships :=
        [sample_membership 62 2 ROLE_VIEWER None, (sample_membership 63 1 ROLE_CONTROLLER None)\<lparr>m_created_at := now (sample_env 1)\<rparr>]\<rparr>)"
proof -
  have o: "on_db (open_sandbox_fund sandbox_ids ids (sample_env 1) (Date 2026 7 3)) sandbox_site = (Inr sandbox_fund, sandbox_site)"
    using sandbox_idle [OF sandbox_is_open] by (simp add: on_db_def sandbox_site_def)
  have e: "ensure_user 5 ''public'' sandbox_site = (Inr (sample_user 1 ''public''), sandbox_site)"
    by (simp add: ensure_user_def bind_act_def query_def ret_def user_named_def sandbox_site_def sample_user_def)
  let ?s = "sandbox_site\<lparr>site_memberships := [sample_membership 62 2 ROLE_VIEWER None]\<rparr>"
  have ids: "u_id (sample_user 1 ''public'') = 1" "f_id sandbox_fund = 1" by (simp_all add: sample_user_def sandbox_fund_def)
  have d: "delete_other_memberships 1 1 sandbox_site = ?s"
    by (simp add: delete_other_memberships_def sandbox_site_def sample_membership_def)
  have "f_id ` set (db_funds sandbox_db) = {1}" by (simp add: sandbox_db_def sandbox_fund_def)
  then have w: "update_or_create_membership (sample_env 1) 63 (sample_user 1 ''public'') 1 ROLE_CONTROLLER None ?s =
      (Inr (), sandbox_site\<lparr>site_memberships :=
        [sample_membership 62 2 ROLE_VIEWER None, (sample_membership 63 1 ROLE_CONTROLLER None)\<lparr>m_created_at := now (sample_env 1)\<rparr>]\<rparr>)"
    by (simp add: atomic_def bind_act_def modify_def query_def
        update_or_create_membership_def insert_membership_def membership_on_def membership_check_def checks.simps(2)
        sandbox_site_def sample_membership_def sample_user_def)
  show ?thesis
    unfolding rotate_sandbox_def Let_def atomic_def bind_act_def o e option.case sum.case prod.case modify_def ids d w ret_def by simp
qed

theorem rotation_leaves_one_membership_witness:
  "rotate_sandbox sandbox_ids (\<lambda>i. 0) web_env 6 64 ''public'' (Some (Date 2026 7 3))
     (snd (rotate_sandbox sandbox_ids (\<lambda>i. i) (sample_env 1) 5 63 ''public'' (Some (Date 2026 7 3)) sandbox_site)) =
     rotate_sandbox sandbox_ids (\<lambda>i. i) (sample_env 1) 5 63 ''public'' (Some (Date 2026 7 3)) sandbox_site"
  unfolding sandbox_rotated snd_conv
  using rotation_leaves_one_membership [OF access_wf_sandbox sandbox_rotated] by blast

end
