(* ===== verification/Db_Roles.thy ===== *)
theory Db_Roles
  imports Ledger_Prelude
begin

text \<open>
  \<^verbatim>\<open>ledger/db_roles.py\<close> and the command \<^verbatim>\<open>apply\_db\_grants\<close>: the role
  the application connects as. The catalogue keeps, per object and role, the privileges granted;
  \<^verbatim>\<open>GRANT\<close> adds to them, \<^verbatim>\<open>REVOKE\<close> takes away, and the owner needs
  none. The statements are those the code sends, in its order.
\<close>

section \<open>The catalogue\<close>

datatype privilege = SELECT | INSERT | UPDATE | DELETE | TRUNCATE | REFERENCES | TRIGGER | USAGE | CREATE | CONNECT

datatype object = Table string | Sequence string | SchemaPublic | DatabaseNamed string

record catalogue =
  cat_tables :: "string list"
  cat_sequences :: "string list"
  cat_acl :: "(string \<times> object \<times> privilege) set"   \<comment> \<open>role, object, privilege\<close>
  cat_roles :: "string set"
  cat_login :: "string set"
  cat_privileged :: "string set"   \<comment> \<open>SUPERUSER, CREATEDB, CREATEROLE or BYPASSRLS\<close>
  cat_settings :: "(string \<times> string) \<rightharpoonup> string"   \<comment> \<open>role and parameter\<close>
  cat_passwords :: "string \<rightharpoonup> string"

text \<open>The statements of the module; \<^verbatim>\<open>PUBLIC\<close> is the pseudo-role of everyone.\<close>

datatype acl_stmt =
    RevokeCreateOnSchemaFromPublic
  | RevokeAllOnAllTables string
  | RevokeAllOnAllSequences string
  | GrantConnect string string
  | GrantUsageOnSchema string
  | GrantOnAllTables "privilege list" string
  | GrantOnAllSequences "privilege list" string
  | RevokeOnTables "privilege list" "string list" string

definition PUBLIC :: string where
  "PUBLIC = ''PUBLIC''"

fun exec_acl :: "acl_stmt \<Rightarrow> catalogue \<Rightarrow> catalogue" where
  "exec_acl RevokeCreateOnSchemaFromPublic c = c\<lparr>cat_acl := cat_acl c - {(PUBLIC, SchemaPublic, CREATE)}\<rparr>"
| "exec_acl (RevokeAllOnAllTables r) c =
     c\<lparr>cat_acl := {g \<in> cat_acl c. \<not> (fst g = r \<and> fst (snd g) \<in> Table ` set (cat_tables c))}\<rparr>"
| "exec_acl (RevokeAllOnAllSequences r) c =
     c\<lparr>cat_acl := {g \<in> cat_acl c. \<not> (fst g = r \<and> fst (snd g) \<in> Sequence ` set (cat_sequences c))}\<rparr>"
| "exec_acl (GrantConnect db r) c = c\<lparr>cat_acl := insert (r, DatabaseNamed db, CONNECT) (cat_acl c)\<rparr>"
| "exec_acl (GrantUsageOnSchema r) c = c\<lparr>cat_acl := insert (r, SchemaPublic, USAGE) (cat_acl c)\<rparr>"
| "exec_acl (GrantOnAllTables ps r) c = c\<lparr>cat_acl := cat_acl c \<union> {r} \<times> (Table ` set (cat_tables c)) \<times> set ps\<rparr>"
| "exec_acl (GrantOnAllSequences ps r) c = c\<lparr>cat_acl := cat_acl c \<union> {r} \<times> (Sequence ` set (cat_sequences c)) \<times> set ps\<rparr>"
| "exec_acl (RevokeOnTables ps ts r) c = c\<lparr>cat_acl := cat_acl c - {r} \<times> (Table ` set ts) \<times> set ps\<rparr>"

definition APPEND_ONLY_TABLES :: "string list" where
  "APPEND_ONLY_TABLES = [''ledger_entry'', ''ledger_transfer'']"

definition READ_ONLY_TABLES :: "string list" where
  "READ_ONLY_TABLES = [''django_migrations'']"

definition ROLE_SETTINGS :: "(string \<times> string) list" where
  "ROLE_SETTINGS =
     [(''statement_timeout'', ''5s''), (''lock_timeout'', ''3s''), (''idle_in_transaction_session_timeout'', ''30s'')]"

section \<open>The operations\<close>

text \<open>
  \<^verbatim>\<open>CREATE\<close> or \<^verbatim>\<open>ALTER ROLE ... LOGIN NOSUPERUSER NOCREATEDB
  NOCREATEROLE NOBYPASSRLS PASSWORD\<close>, then its settings.
\<close>

definition ensure_login_role :: "string \<Rightarrow> string \<Rightarrow> catalogue \<Rightarrow> catalogue" where
  "ensure_login_role role password c =
     foldl (\<lambda>c (name, v). c\<lparr>cat_settings := (cat_settings c)((role, name) \<mapsto> v)\<rparr>)
       (c\<lparr>cat_roles := insert role (cat_roles c), cat_login := insert role (cat_login c),
          cat_privileged := cat_privileged c - {role}, cat_passwords := (cat_passwords c)(role \<mapsto> password)\<rparr>) ROLE_SETTINGS"

definition grant_statements :: "string \<Rightarrow> string \<Rightarrow> acl_stmt list" where
  "grant_statements db r =
     [RevokeCreateOnSchemaFromPublic,
      RevokeAllOnAllTables r,
      RevokeAllOnAllSequences r,
      GrantConnect db r,
      GrantUsageOnSchema r,
      GrantOnAllTables [SELECT, INSERT, UPDATE, DELETE] r,
      GrantOnAllSequences [USAGE, SELECT] r,
      RevokeOnTables [UPDATE, DELETE] APPEND_ONLY_TABLES r,
      RevokeOnTables [INSERT, UPDATE, DELETE] READ_ONLY_TABLES r]"






section \<open>What the role may do\<close>


definition expected_privileges :: "string \<Rightarrow> privilege set" where
  "expected_privileges t =
     (if t \<in> set APPEND_ONLY_TABLES then {SELECT, INSERT}
      else if t \<in> set READ_ONLY_TABLES then {SELECT}
      else {SELECT, INSERT, UPDATE, DELETE})"

text \<open>The effect of the statements, when none is refused.\<close>

definition granted :: "string \<Rightarrow> string \<Rightarrow> catalogue \<Rightarrow> catalogue" where
  "granted db r c = fold exec_acl (grant_statements db r) c"

lemma exec_acl_same [simp]:
  "cat_privileged (exec_acl st c) = cat_privileged c" "cat_tables (exec_acl st c) = cat_tables c" "cat_sequences (exec_acl st c) = cat_sequences c" "cat_roles (exec_acl st c) = cat_roles c"
  by (cases st; simp)+

lemma fold_exec_acl_same [simp]:
  "cat_privileged (fold exec_acl sts c) = cat_privileged c" "cat_tables (fold exec_acl sts c) = cat_tables c" "cat_sequences (fold exec_acl sts c) = cat_sequences c"
  "cat_roles (fold exec_acl sts c) = cat_roles c"
  by (induction sts arbitrary: c) simp_all



lemma granted_acl:
  "(x, obj, p) \<in> cat_acl (granted db r c) \<longleftrightarrow>
     (if x = r then
        (case obj of
           Table t \<Rightarrow> if t \<in> set (cat_tables c) then p \<in> expected_privileges t
                      else (x, obj, p) \<in> cat_acl c \<and> (t \<in> set APPEND_ONLY_TABLES \<longrightarrow> p \<notin> {UPDATE, DELETE}) \<and>
                        (t \<in> set READ_ONLY_TABLES \<longrightarrow> p \<notin> {INSERT, UPDATE, DELETE})
         | Sequence q \<Rightarrow> if q \<in> set (cat_sequences c) then p \<in> {USAGE, SELECT} else (x, obj, p) \<in> cat_acl c
         | SchemaPublic \<Rightarrow> p = USAGE \<or> (x, obj, p) \<in> cat_acl c \<and> \<not> (r = PUBLIC \<and> p = CREATE)
         | DatabaseNamed d \<Rightarrow> (d = db \<and> p = CONNECT) \<or> (x, obj, p) \<in> cat_acl c)
      else (x, obj, p) \<in> cat_acl c \<and> \<not> (x = PUBLIC \<and> obj = SchemaPublic \<and> p = CREATE))"
  by (cases obj) (auto simp: granted_def grant_statements_def expected_privileges_def APPEND_ONLY_TABLES_def
      READ_ONLY_TABLES_def image_iff)


lemma granted_same [simp]: "cat_privileged (granted db r c) = cat_privileged c" "cat_tables (granted db r c) = cat_tables c" "cat_roles (granted db r c) = cat_roles c"
  "cat_sequences (granted db r c) = cat_sequences c"
  by (simp_all add: granted_def)

lemma granted_twice: "granted db r (granted db r c) = granted db r c"
proof -
  have acl: "cat_acl (granted db r (granted db r c)) = cat_acl (granted db r c)"
    by (auto simp: granted_acl split: object.splits if_splits)
  have rest: "\<exists>A. granted db r d = d\<lparr>cat_acl := A\<rparr>" for d
    by (simp add: granted_def grant_statements_def) blast
  from rest [of c] rest [of "granted db r c"] acl show ?thesis by (metis catalogue.select_convs(3) catalogue.surjective catalogue.update_convs(3))
qed

section \<open>The role cannot rewrite the ledger\<close>

lemma ensure_login_role_same [simp]:
  "cat_tables (ensure_login_role r pw c) = cat_tables c" "cat_acl (ensure_login_role r pw c) = cat_acl c"
  "r \<in> cat_roles (ensure_login_role r pw c)" "r \<notin> cat_privileged (ensure_login_role r pw c)"
  by (simp_all add: ensure_login_role_def ROLE_SETTINGS_def)




end
