(* ===== verification/Schema.thy ===== *)
theory Schema
  imports Access
begin

text \<open>
  What the model classes and the migrations are written in: columns, conditions, constraints,
  and the operations of \<^verbatim>\<open>django.db.migrations\<close> that the repository uses; what a
  condition says of a row, with the three truth values of SQL; and what a schema asks of the
  rows of a database.
\<close>

section \<open>Columns\<close>

datatype on_delete = PROTECT | CASCADE

datatype field_type =
    UUIDField
  | CharField nat
  | TextField
  | DecimalField nat nat
  | DateField
  | DateTimeField
  | PositiveSmallIntegerField
  | PositiveIntegerField
  | ForeignKey string on_delete string   \<comment> \<open>target, rule, related name\<close>
  | OneToOneField string on_delete string
  | SignedField string   \<comment> \<open>generated and stored: the column, negated unless direction is DEBIT\<close>

datatype column_default = NoDefault | RandomUuid | Constant string | DatabaseNow

record field =
  fd_name :: string
  fd_type :: field_type
  fd_primary :: bool
  fd_unique :: bool
  fd_null :: bool
  fd_blank :: bool
  fd_editable :: bool
  fd_default :: column_default
  fd_choices :: "(string \<times> string) list"

text \<open>A column with nothing but its type.\<close>

definition plain :: "string \<Rightarrow> field_type \<Rightarrow> field" where
  "plain name ty = \<lparr>fd_name = name, fd_type = ty, fd_primary = False, fd_unique = False, fd_null = False, fd_blank = False,
     fd_editable = True, fd_default = NoDefault, fd_choices = []\<rparr>"

definition id_field :: field where
  "id_field = (plain ''id'' UUIDField)\<lparr>fd_primary := True, fd_editable := False, fd_default := RandomUuid\<rparr>"

definition nullable :: "field \<Rightarrow> field" where
  "nullable f = f\<lparr>fd_null := True, fd_blank := True\<rparr>"

section \<open>Conditions\<close>

text \<open>
  A lookup compares a column with a literal or with another column. \<open>Pattern cs n\<close> is the
  anchored pattern of \<open>n\<close> characters of the ranges \<open>cs\<close>.
\<close>

datatype operand = Lit string | Num int | Col string

datatype pattern = Pattern "(char \<times> char) list" nat

datatype condition =
    Exact string operand
  | Greater string operand
  | AtLeast string operand
  | IsNull string bool
  | OneOf string "string list"
  | Matches string pattern
  | Negated condition
  | Both condition condition
  | Either condition condition

datatype sval = SNull | SUuid uuid | SText string | SNum rat | SDate date | STime timestamp

type_synonym row = "string \<Rightarrow> sval"

fun operand_value :: "row \<Rightarrow> operand \<Rightarrow> sval" where
  "operand_value r (Lit t) = SText t"
| "operand_value r (Num n) = SNum (of_int n)"
| "operand_value r (Col c) = r c"

text \<open>A comparison with NULL is unknown.\<close>

definition equal_to :: "sval \<Rightarrow> sval \<Rightarrow> bool option" where
  "equal_to x y = (if x = SNull \<or> y = SNull then None else Some (x = y))"

fun below :: "sval \<Rightarrow> sval \<Rightarrow> bool option" where
  "below (SNum x) (SNum y) = Some (x < y)"
| "below (SDate x) (SDate y) = Some (x < y)"
| "below (STime x) (STime y) = Some (x < y)"
| "below _ _ = None"

definition not3 :: "bool option \<Rightarrow> bool option" where
  "not3 b = map_option Not b"

definition and3 :: "bool option \<Rightarrow> bool option \<Rightarrow> bool option" where
  "and3 a b = (if a = Some False \<or> b = Some False then Some False else if a = None \<or> b = None then None else Some True)"

definition or3 :: "bool option \<Rightarrow> bool option \<Rightarrow> bool option" where
  "or3 a b = not3 (and3 (not3 a) (not3 b))"

fun matches :: "string \<Rightarrow> pattern \<Rightarrow> bool" where
  "matches s (Pattern cs n) = (length s = n \<and> list_all (\<lambda>c. list_ex (\<lambda>(low, high). low \<le> c \<and> c \<le> high) cs) s)"

fun eval_condition :: "row \<Rightarrow> condition \<Rightarrow> bool option" where
  "eval_condition r (Exact c v) = equal_to (r c) (operand_value r v)"
| "eval_condition r (Greater c v) = below (operand_value r v) (r c)"
| "eval_condition r (AtLeast c v) = not3 (below (r c) (operand_value r v))"
| "eval_condition r (IsNull c b) = Some ((r c = SNull) = b)"
| "eval_condition r (OneOf c ts) = (case r c of SText t \<Rightarrow> Some (t \<in> set ts) | _ \<Rightarrow> None)"
| "eval_condition r (Matches c p) = (case r c of SText t \<Rightarrow> Some (matches t p) | _ \<Rightarrow> None)"
| "eval_condition r (Negated a) = not3 (eval_condition r a)"
| "eval_condition r (Both a b) = and3 (eval_condition r a) (eval_condition r b)"
| "eval_condition r (Either a b) = or3 (eval_condition r a) (eval_condition r b)"

section \<open>Constraints and models\<close>

datatype constr =
    Check string condition
  | Unique string "string list" "condition option"

fun constraint_name :: "constr \<Rightarrow> string" where
  "constraint_name (Check n _) = n"
| "constraint_name (Unique n _ _) = n"

record model =
  md_fields :: "field list"
  md_constraints :: "constr list"
  md_indexes :: "(string \<times> string list) list"
  md_ordering :: "string list"

section \<open>Migrations\<close>

text \<open>The statements of \<^verbatim>\<open>RunSQL\<close>: timing, events, table and function of a trigger.\<close>

datatype timing = BeforeRow | DeferredAfterRow

datatype event = OnInsert | OnUpdate | OnDelete

datatype sql =
    CreateFunction string
  | CreateTrigger string timing "event list" string string
  | AddForeignKey string string "string list" string "string list"
  | DropTrigger string string
  | DropFunction string
  | DropConstraint string string

datatype operation =
    CreateModel string "field list" "constr list" "string list"
  | AddField string field
  | AddConstraint string constr
  | AddIndex string string "string list"
  | RunSQL "sql list" "sql list"

record migration =
  mg_app :: string
  mg_name :: string
  mg_dependencies :: "(string \<times> string) list"
  mg_operations :: "operation list"

record schema =
  sc_applied :: "(string \<times> string) list"
  sc_models :: "(string \<times> model) list"
  sc_triggers :: "(string \<times> timing \<times> event list \<times> string \<times> string) list"
  sc_functions :: "string list"
  sc_foreign_keys :: "(string \<times> string \<times> string list \<times> string \<times> string list) list"

definition model_key :: "string \<Rightarrow> string \<Rightarrow> string" where
  "model_key app name = app @ ''.'' @ map lower_char name"

fun field_target :: "field_type \<Rightarrow> string option" where
  "field_target (ForeignKey t _ _) = Some t"
| "field_target (OneToOneField t _ _) = Some t"
| "field_target _ = None"

definition targets_exist :: "string \<Rightarrow> field list \<Rightarrow> schema \<Rightarrow> bool" where
  "targets_exist key cols s \<longleftrightarrow>
     list_all (\<lambda>f. case field_target (fd_type f) of None \<Rightarrow> True | Some t \<Rightarrow> t = key \<or> t \<in> set (map fst (sc_models s))) cols"

definition change_model :: "string \<Rightarrow> (model \<Rightarrow> model option) \<Rightarrow> schema \<Rightarrow> schema option" where
  "change_model key g s =
     Option.bind (map_of (sc_models s) key) (\<lambda>m.
     Option.bind (g m) (\<lambda>m'.
     Some (s\<lparr>sc_models := map (\<lambda>(k, n). (k, if k = key then m' else n)) (sc_models s)\<rparr>)))"

text \<open>
  The table and the column of a model and a field: \<^verbatim>\<open>app_model\<close> and, for a
  foreign key, \<^verbatim>\<open>field_id\<close>.
\<close>

definition table_name :: "string \<Rightarrow> string" where
  "table_name key = map (\<lambda>c. if c = CHR ''.'' then CHR ''_'' else c) key"

definition column_name :: "field \<Rightarrow> string" where
  "column_name f = (case field_target (fd_type f) of None \<Rightarrow> fd_name f | Some _ \<Rightarrow> fd_name f @ ''_id'')"

definition table_model :: "schema \<Rightarrow> string \<Rightarrow> model option" where
  "table_model s t = map_option snd (find (\<lambda>(k, m). table_name k = t) (sc_models s))"

definition has_columns :: "string list \<Rightarrow> model \<Rightarrow> bool" where
  "has_columns cols m \<longleftrightarrow> set cols \<subseteq> set (map column_name (md_fields m))"

text \<open>A foreign key refers to columns that an unconditional UNIQUE constraint covers.\<close>

definition unique_columns :: "string list \<Rightarrow> model \<Rightarrow> bool" where
  "unique_columns cols m \<longleftrightarrow>
     list_ex (\<lambda>c. case c of Unique _ us None \<Rightarrow> us = cols | _ \<Rightarrow> False) (md_constraints m)"

text \<open>A statement that names what is not there, or makes what is, fails.\<close>

fun run_sql :: "sql \<Rightarrow> schema \<Rightarrow> schema option" where
  "run_sql (CreateFunction f) s = Some (s\<lparr>sc_functions := List.insert f (sc_functions s)\<rparr>)"
| "run_sql (CreateTrigger n ti ev t f) s =
     (if f \<in> set (sc_functions s) \<and> table_model s t \<noteq> None \<and> (n, t) \<notin> set (map (\<lambda>(n, _, _, t, _). (n, t)) (sc_triggers s))
      then Some (s\<lparr>sc_triggers := (n, ti, ev, t, f) # sc_triggers s\<rparr>) else None)"
| "run_sql (AddForeignKey n t cs t' cs') s =
     (case (table_model s t, table_model s t') of
        (Some m, Some m') \<Rightarrow>
          if has_columns cs m \<and> unique_columns cs' m' \<and> n \<notin> set (map fst (sc_foreign_keys s))
          then Some (s\<lparr>sc_foreign_keys := (n, t, cs, t', cs') # sc_foreign_keys s\<rparr>) else None
      | _ \<Rightarrow> None)"
| "run_sql (DropTrigger n t) s = Some (s\<lparr>sc_triggers := filter (\<lambda>(m, _, _, u, _). (m, u) \<noteq> (n, t)) (sc_triggers s)\<rparr>)"
| "run_sql (DropFunction f) s =
     (if f \<in> set (map (\<lambda>(_, _, _, _, g). g) (sc_triggers s)) then None else Some (s\<lparr>sc_functions := remove1 f (sc_functions s)\<rparr>))"
| "run_sql (DropConstraint t n) s = Some (s\<lparr>sc_foreign_keys := filter (\<lambda>(m, u, _). (m, u) \<noteq> (n, t)) (sc_foreign_keys s)\<rparr>)"

fun run_each :: "('a \<Rightarrow> 's \<Rightarrow> 's option) \<Rightarrow> 'a list \<Rightarrow> 's \<Rightarrow> 's option" where
  "run_each f [] s = Some s"
| "run_each f (x # xs) s = Option.bind (f x s) (run_each f xs)"

fun apply_operation :: "string \<Rightarrow> operation \<Rightarrow> schema \<Rightarrow> schema option" where
  "apply_operation app (CreateModel name cols cs order_cols) s =
     (let key = model_key app name in
      if key \<in> set (map fst (sc_models s)) \<or> \<not> targets_exist key cols s then None
      else Some (s\<lparr>sc_models := sc_models s @
        [(key, \<lparr>md_fields = cols, md_constraints = cs, md_indexes = [], md_ordering = order_cols\<rparr>)]\<rparr>))"
| "apply_operation app (AddField name f) s =
     (if targets_exist (model_key app name) [f] s
      then change_model (model_key app name) (\<lambda>m.
        if fd_name f \<in> set (map fd_name (md_fields m)) then None else Some (m\<lparr>md_fields := md_fields m @ [f]\<rparr>)) s
      else None)"
| "apply_operation app (AddConstraint name c) s =
     change_model (model_key app name) (\<lambda>m.
       if constraint_name c \<in> set (map constraint_name (md_constraints m)) then None
       else Some (m\<lparr>md_constraints := md_constraints m @ [c]\<rparr>)) s"
| "apply_operation app (AddIndex name ix cols) s =
     change_model (model_key app name) (\<lambda>m.
       if ix \<in> set (map fst (md_indexes m)) then None else Some (m\<lparr>md_indexes := md_indexes m @ [(ix, cols)]\<rparr>)) s"
| "apply_operation app (RunSQL forward backward) s = run_each run_sql forward s"

text \<open>A migration runs once, after those it depends on.\<close>

definition apply_migration :: "migration \<Rightarrow> schema \<Rightarrow> schema option" where
  "apply_migration m s =
     (if (mg_app m, mg_name m) \<in> set (sc_applied s) \<or> \<not> set (mg_dependencies m) \<subseteq> set (sc_applied s) then None
      else map_option (\<lambda>s'. s'\<lparr>sc_applied := sc_applied s' @ [(mg_app m, mg_name m)]\<rparr>)
        (run_each (apply_operation (mg_app m)) (mg_operations m) s))"

text \<open>The reverse: what was made is dropped, what SQL did is undone by its own reverse statements.\<close>

fun reverse_operation :: "string \<Rightarrow> operation \<Rightarrow> schema \<Rightarrow> schema option" where
  "reverse_operation app (CreateModel name cols cs order_cols) s =
     (if model_key app name \<in> set (map fst (sc_models s))
      then Some (s\<lparr>sc_models := filter (\<lambda>(k, m). k \<noteq> model_key app name) (sc_models s)\<rparr>) else None)"
| "reverse_operation app (AddField name f) s =
     change_model (model_key app name) (\<lambda>m. Some (m\<lparr>md_fields := filter (\<lambda>g. fd_name g \<noteq> fd_name f) (md_fields m)\<rparr>)) s"
| "reverse_operation app (AddConstraint name c) s =
     change_model (model_key app name) (\<lambda>m.
       Some (m\<lparr>md_constraints := filter (\<lambda>d. constraint_name d \<noteq> constraint_name c) (md_constraints m)\<rparr>)) s"
| "reverse_operation app (AddIndex name ix cols) s =
     change_model (model_key app name) (\<lambda>m. Some (m\<lparr>md_indexes := filter (\<lambda>i. fst i \<noteq> ix) (md_indexes m)\<rparr>)) s"
| "reverse_operation app (RunSQL forward backward) s = run_each run_sql backward s"

definition unapply_migration :: "migration \<Rightarrow> schema \<Rightarrow> schema option" where
  "unapply_migration m s =
     (if (mg_app m, mg_name m) \<notin> set (sc_applied s) then None
      else map_option (\<lambda>s'. s'\<lparr>sc_applied := remove1 (mg_app m, mg_name m) (sc_applied s')\<rparr>)
        (run_each (reverse_operation (mg_app m)) (rev (mg_operations m)) s))"

section \<open>What a schema asks of rows\<close>

text \<open>\<open>rows_of t\<close> are the rows of table \<open>t\<close>; a row has a foreign key under the field's name and the column's.\<close>

definition in_column :: "(string \<Rightarrow> row list) \<Rightarrow> field_type \<Rightarrow> row \<Rightarrow> sval \<Rightarrow> bool" where
  "in_column rows_of ty r v \<longleftrightarrow>
     (case ty of
        UUIDField \<Rightarrow> (case v of SUuid _ \<Rightarrow> True | _ \<Rightarrow> False)
      | CharField n \<Rightarrow> (case v of SText t \<Rightarrow> length t \<le> n | _ \<Rightarrow> False)
      | TextField \<Rightarrow> (case v of SText t \<Rightarrow> True | _ \<Rightarrow> False)
      | DecimalField p s \<Rightarrow> (case v of SNum x \<Rightarrow> dp s x \<and> \<bar>x\<bar> * 10 ^ s < 10 ^ p | _ \<Rightarrow> False)
      | DateField \<Rightarrow> (case v of SDate _ \<Rightarrow> True | _ \<Rightarrow> False)
      | DateTimeField \<Rightarrow> (case v of STime _ \<Rightarrow> True | _ \<Rightarrow> False)
      | PositiveSmallIntegerField \<Rightarrow> (case v of SNum x \<Rightarrow> 0 \<le> x \<and> x \<le> 32767 | _ \<Rightarrow> False)
      | PositiveIntegerField \<Rightarrow> (case v of SNum x \<Rightarrow> 0 \<le> x \<and> x \<le> 2147483647 | _ \<Rightarrow> False)
      | ForeignKey t _ _ \<Rightarrow> v \<in> set (map (\<lambda>q. q ''id'') (rows_of (table_name t)))
      | OneToOneField t _ _ \<Rightarrow> v \<in> set (map (\<lambda>q. q ''id'') (rows_of (table_name t)))
      | SignedField c \<Rightarrow> (case r c of
            SNum x \<Rightarrow> v = SNum (if r ''direction'' = SText ''DEBIT'' then x else - x)
          | _ \<Rightarrow> False))"

fun one_to_one :: "field_type \<Rightarrow> bool" where
  "one_to_one (OneToOneField _ _ _) = True"
| "one_to_one _ = False"

definition field_holds :: "(string \<Rightarrow> row list) \<Rightarrow> row list \<Rightarrow> field \<Rightarrow> bool" where
  "field_holds rows_of rows f \<longleftrightarrow>
     list_all (\<lambda>r. if r (fd_name f) = SNull then fd_null f else in_column rows_of (fd_type f) r (r (fd_name f))) rows \<and>
     (fd_primary f \<or> fd_unique f \<or> one_to_one (fd_type f) \<longrightarrow>
       distinct (filter (\<lambda>v. v \<noteq> SNull) (map (\<lambda>r. r (fd_name f)) rows)))"

text \<open>A CHECK refuses the row for which it is false; UNIQUE does not count rows with a NULL.\<close>

fun constraint_holds :: "row list \<Rightarrow> constr \<Rightarrow> bool" where
  "constraint_holds rows (Check _ c) = list_all (\<lambda>r. eval_condition r c \<noteq> Some False) rows"
| "constraint_holds rows (Unique _ cols c) =
     distinct (filter (\<lambda>vs. SNull \<notin> set vs) (map (\<lambda>r. map r cols)
       (filter (\<lambda>r. case c of None \<Rightarrow> True | Some d \<Rightarrow> eval_condition r d = Some True) rows)))"

definition model_holds :: "(string \<Rightarrow> row list) \<Rightarrow> string \<times> model \<Rightarrow> bool" where
  "model_holds rows_of km \<longleftrightarrow>
     list_all (field_holds rows_of (rows_of (table_name (fst km)))) (md_fields (snd km)) \<and>
     list_all (constraint_holds (rows_of (table_name (fst km)))) (md_constraints (snd km))"

definition foreign_key_holds :: "(string \<Rightarrow> row list) \<Rightarrow> string \<times> string \<times> string list \<times> string \<times> string list \<Rightarrow> bool" where
  "foreign_key_holds rows_of fk =
     (case fk of (_, t, cols, t', cols') \<Rightarrow>
        list_all (\<lambda>r. SNull \<in> set (map r cols) \<or> map r cols \<in> set (map (\<lambda>q. map q cols') (rows_of t'))) (rows_of t))"

end
