(* ===== verification/Migrations.thy ===== *)
theory Migrations
  imports Schema
begin

text \<open>
  The model classes of the four applications as they declare their columns, constraints and
  indexes, and the migrations that build the tables: \<^verbatim>\<open>funds/models.py\<close>,
  \<^verbatim>\<open>ledger/models.py\<close>, \<^verbatim>\<open>operations/models.py\<close>,
  \<^verbatim>\<open>access/models.py\<close> and the files of their \<^verbatim>\<open>migrations/\<close>.
  An argument that repeats what another says (\<^verbatim>\<open>serialize=False\<close> of a primary
  key) is left out.
\<close>

section \<open>The declared models\<close>

text \<open>
  \<^verbatim>\<open>TextChoices\<close> without labels: the label of a choice is its name with spaces for
  underscores, in title case.
\<close>

fun title_case :: "bool \<Rightarrow> string \<Rightarrow> string" where
  "title_case start [] = []"
| "title_case start (c # cs) =
     (if c = CHR ''_'' then CHR '' '' # title_case True cs
      else (if start then c else lower_char c) # title_case False cs)"

definition choices :: "string list \<Rightarrow> (string \<times> string) list" where
  "choices names = map (\<lambda>n. (n, title_case True n)) names"

definition MONEY :: field_type where
  "MONEY = DecimalField 20 4"

definition ISO_4217 :: pattern where
  "ISO_4217 = Pattern [(CHR ''A'', CHR ''Z'')] 3"

definition created_field :: field where
  "created_field = (plain ''created_at'' DateTimeField)\<lparr>fd_default := DatabaseNow\<rparr>"

definition blank_text :: "string \<Rightarrow> field_type \<Rightarrow> field" where
  "blank_text name ty = (plain name ty)\<lparr>fd_blank := True, fd_default := Constant []\<rparr>"

definition class_model :: "field list \<Rightarrow> constr list \<Rightarrow> model" where
  "class_model fs cs = \<lparr>md_fields = fs, md_constraints = cs, md_indexes = [], md_ordering = []\<rparr>"

definition fund_class :: model where
  "fund_class = class_model
     [id_field, (plain ''name'' (CharField 200))\<lparr>fd_unique := True\<rparr>, plain ''base_currency'' (CharField 3),
      plain ''vintage_year'' PositiveSmallIntegerField, plain ''inception_date'' DateField]
     [Check ''fund_base_currency_iso4217'' (Matches ''base_currency'' ISO_4217)]"

definition limited_partner_class :: model where
  "limited_partner_class = class_model
     [id_field, plain ''name'' (CharField 200),
      (plain ''investor_type'' (CharField 32))\<lparr>fd_choices :=
         choices [''PENSION'', ''ENDOWMENT'', ''SOVEREIGN_WEALTH'', ''FAMILY_OFFICE'', ''FUND_OF_FUNDS'', ''INSURANCE'']\<rparr>]
     []"

definition commitment_class :: model where
  "commitment_class = class_model
     [id_field, plain ''fund'' (ForeignKey ''funds.fund'' PROTECT ''commitments''),
      plain ''lp'' (ForeignKey ''funds.limitedpartner'' PROTECT ''commitments''),
      plain ''committed_amount'' MONEY, plain ''signed_date'' DateField]
     [Unique ''commitment_one_per_lp_per_fund'' [''fund'', ''lp''] None,
      Check ''commitment_amount_positive'' (Greater ''committed_amount'' (Num 0))]"

definition period_class :: model where
  "period_class = \<lparr>
     md_fields = [id_field, plain ''fund'' (ForeignKey ''funds.fund'' PROTECT ''periods''),
       plain ''start_date'' DateField, plain ''end_date'' DateField,
       (plain ''status'' (CharField 6))\<lparr>fd_choices := choices [''OPEN'', ''CLOSED''], fd_default := Constant ''OPEN''\<rparr>,
       nullable (plain ''closed_at'' DateTimeField), blank_text ''closed_by'' (CharField 150)],
     md_constraints = [Unique ''period_unique_start'' [''fund'', ''start_date''] None,
       Check ''period_end_not_before_start'' (AtLeast ''end_date'' (Col ''start_date'')),
       Check ''period_closed_at_matches_status''
         (Either (Both (Exact ''status'' (Lit ''OPEN'')) (IsNull ''closed_at'' True))
                 (Both (Exact ''status'' (Lit ''CLOSED'')) (IsNull ''closed_at'' False)))],
     md_indexes = [], md_ordering = [''fund'', ''start_date'']\<rparr>"

definition fx_rate_class :: model where
  "fx_rate_class = class_model
     [id_field, plain ''from_currency'' (CharField 3), plain ''to_currency'' (CharField 3),
      plain ''rate'' (DecimalField 20 10), plain ''as_of_date'' DateField]
     [Unique ''fxrate_unique_per_day'' [''from_currency'', ''to_currency'', ''as_of_date''] None,
      Check ''fxrate_positive'' (Greater ''rate'' (Num 0)),
      Check ''fxrate_distinct_currencies'' (Negated (Exact ''from_currency'' (Col ''to_currency'')))]"

definition nav_snapshot_class :: model where
  "nav_snapshot_class = class_model
     [id_field, plain ''fund'' (ForeignKey ''funds.fund'' PROTECT ''nav_snapshots''), plain ''as_of_date'' DateField,
      plain ''total_nav'' MONEY, plain ''computed_at'' DateTimeField]
     [Unique ''nav_one_per_fund_per_day'' [''fund'', ''as_of_date''] None]"

definition account_class :: model where
  "account_class = class_model
     [id_field, plain ''fund'' (ForeignKey ''funds.fund'' PROTECT ''accounts''), plain ''code'' (CharField 64),
      (plain ''account_type'' (CharField 32))\<lparr>fd_choices :=
         choices [''CASH'', ''INVESTMENT'', ''FEE_EXPENSE'', ''GAIN_LOSS'', ''LP_CAPITAL'', ''GP_CAPITAL'']\<rparr>,
      nullable (plain ''owner_lp'' (ForeignKey ''funds.limitedpartner'' PROTECT ''accounts'')),
      plain ''currency'' (CharField 3), created_field]
     [Check ''account_currency_iso4217'' (Matches ''currency'' ISO_4217),
      Check ''account_owner_lp_iff_lp_capital''
        (Either (Both (Exact ''account_type'' (Lit ''LP_CAPITAL'')) (IsNull ''owner_lp'' False))
                (Both (Negated (Exact ''account_type'' (Lit ''LP_CAPITAL''))) (IsNull ''owner_lp'' True))),
      Unique ''account_code_unique_per_fund'' [''fund'', ''code''] None,
      Unique ''account_one_lp_capital_per_lp_currency'' [''fund'', ''owner_lp'', ''currency'']
        (Some (Exact ''account_type'' (Lit ''LP_CAPITAL''))),
      Unique ''account_id_currency_unique'' [''id'', ''currency''] None]"

definition transfer_class :: model where
  "transfer_class = class_model
     [id_field, plain ''idempotency_key'' (CharField 255), blank_text ''request_hash'' (CharField 64),
      (plain ''transfer_type'' (CharField 32))\<lparr>fd_choices :=
         choices [''CAPITAL_CALL'', ''DISTRIBUTION'', ''FEE'', ''INVESTMENT'', ''REVERSAL'', ''ADJUSTMENT'']\<rparr>,
      nullable (plain ''reverses'' (ForeignKey ''ledger.transfer'' PROTECT ''reversals'')),
      plain ''period'' (ForeignKey ''funds.period'' PROTECT ''transfers''), blank_text ''description'' TextField,
      blank_text ''created_by'' (CharField 255), created_field]
     [Unique ''transfer_idempotency_key_unique'' [''idempotency_key''] None,
      Unique ''transfer_reverses_unique'' [''reverses''] None,
      Check ''transfer_idempotency_key_present'' (Negated (Exact ''idempotency_key'' (Lit []))),
      Check ''transfer_only_reversals_reverse'' (Either (IsNull ''reverses'' True) (Exact ''transfer_type'' (Lit ''REVERSAL''))),
      Check ''transfer_reversal_has_target''
        (Either (Negated (Exact ''transfer_type'' (Lit ''REVERSAL''))) (IsNull ''reverses'' False))]"

definition entry_class :: model where
  "entry_class = \<lparr>
     md_fields = [id_field, plain ''transfer'' (ForeignKey ''ledger.transfer'' PROTECT ''entries''),
       plain ''account'' (ForeignKey ''ledger.account'' PROTECT ''entries''),
       (plain ''direction'' (CharField 6))\<lparr>fd_choices := choices [''DEBIT'', ''CREDIT'']\<rparr>,
       plain ''amount'' MONEY, plain ''currency'' (CharField 3), nullable (plain ''fx_rate'' (DecimalField 20 10)),
       plain ''base_amount'' MONEY, plain ''signed_amount'' (SignedField ''amount''),
       plain ''signed_base_amount'' (SignedField ''base_amount''), created_field],
     md_constraints = [Check ''entry_amount_positive'' (Greater ''amount'' (Num 0)),
       Check ''entry_base_amount_positive'' (Greater ''base_amount'' (Num 0)),
       Check ''entry_currency_iso4217'' (Matches ''currency'' ISO_4217),
       Check ''entry_direction_valid'' (OneOf ''direction'' [''DEBIT'', ''CREDIT'']),
       Check ''entry_fx_rate_positive'' (Either (IsNull ''fx_rate'' True) (Greater ''fx_rate'' (Num 0)))],
     md_indexes = [(''entry_account_created_idx'', [''account'', ''created_at''])], md_ordering = []\<rparr>"

definition capital_call_class :: model where
  "capital_call_class = class_model
     [id_field, plain ''fund'' (ForeignKey ''funds.fund'' PROTECT ''capital_calls''),
      plain ''call_number'' PositiveIntegerField, plain ''notice_date'' DateField, plain ''due_date'' DateField,
      plain ''total_amount'' MONEY, plain ''transfer'' (OneToOneField ''ledger.transfer'' PROTECT ''capital_call''), created_field]
     [Unique ''capital_call_number_unique'' [''fund'', ''call_number''] None,
      Check ''capital_call_positive'' (Greater ''total_amount'' (Num 0)),
      Check ''capital_call_due_after_notice'' (AtLeast ''due_date'' (Col ''notice_date''))]"

definition distribution_class :: model where
  "distribution_class = class_model
     [id_field, plain ''fund'' (ForeignKey ''funds.fund'' PROTECT ''distributions''),
      plain ''distribution_number'' PositiveIntegerField, plain ''payment_date'' DateField, plain ''total_amount'' MONEY,
      (plain ''classification'' (CharField 32))\<lparr>fd_choices := choices [''RETURN_OF_CAPITAL'', ''GAIN'', ''INCOME'']\<rparr>,
      plain ''transfer'' (OneToOneField ''ledger.transfer'' PROTECT ''distribution''), created_field]
     [Unique ''distribution_number_unique'' [''fund'', ''distribution_number''] None,
      Check ''distribution_positive'' (Greater ''total_amount'' (Num 0))]"

definition fund_membership_class :: model where
  "fund_membership_class = class_model
     [id_field, plain ''user'' (ForeignKey ''auth.user'' CASCADE ''fund_memberships''),
      plain ''fund'' (ForeignKey ''funds.fund'' PROTECT ''memberships''),
      (plain ''role'' (CharField 16))\<lparr>fd_choices :=
         [(''LP'', ''Limited partner: own statement only''), (''VIEWER'', ''Viewer: read the whole fund''),
          (''OPERATOR'', ''Operator: also post calls, distributions, reversals''), (''CONTROLLER'', ''Controller: also close periods'')]\<rparr>,
      nullable (plain ''lp'' (ForeignKey ''funds.limitedpartner'' PROTECT ''memberships'')), created_field]
     [Unique ''membership_one_per_user_fund'' [''user'', ''fund''] None,
      Check ''membership_lp_iff_lp_role''
        (Either (Both (Exact ''role'' (Lit ''LP'')) (IsNull ''lp'' False))
                (Both (Negated (Exact ''role'' (Lit ''LP''))) (IsNull ''lp'' True)))]"

definition api_key_class :: model where
  "api_key_class = class_model
     [id_field, plain ''user'' (ForeignKey ''auth.user'' CASCADE ''api_keys''), plain ''name'' (CharField 100),
      plain ''prefix'' (CharField 12), plain ''key_hash'' (CharField 64), created_field,
      nullable (plain ''expires_at'' DateTimeField), nullable (plain ''revoked_at'' DateTimeField),
      nullable (plain ''last_used_at'' DateTimeField)]
     [Unique ''apikey_prefix_unique'' [''prefix''] None,
      Check ''apikey_hash_is_sha256'' (Matches ''key_hash'' (Pattern [(CHR ''0'', CHR ''9''), (CHR ''a'', CHR ''f'')] 64))]"

definition ledger_models :: "(string \<times> model) list" where
  "ledger_models =
     [(''funds.limitedpartner'', limited_partner_class), (''funds.fund'', fund_class), (''funds.fxrate'', fx_rate_class),
      (''funds.commitment'', commitment_class), (''funds.navsnapshot'', nav_snapshot_class), (''funds.period'', period_class),
      (''ledger.account'', account_class), (''ledger.transfer'', transfer_class), (''ledger.entry'', entry_class),
      (''operations.capitalcall'', capital_call_class), (''operations.distribution'', distribution_class)]"

definition access_models :: "(string \<times> model) list" where
  "access_models = [(''access.apikey'', api_key_class), (''access.fundmembership'', fund_membership_class)]"

definition declared_models :: "(string \<times> model) list" where
  "declared_models = ledger_models @ access_models"

section \<open>The migrations\<close>

text \<open>\<^verbatim>\<open>regex '^[A-Z]{3}$'\<close> and the id column, as the generated files repeat them.\<close>

definition uuid_pk :: field where
  "uuid_pk = \<lparr>fd_name = ''id'', fd_type = UUIDField, fd_primary = True, fd_unique = False, fd_null = False, fd_blank = False,
     fd_editable = False, fd_default = RandomUuid, fd_choices = []\<rparr>"

definition db_now :: "string \<Rightarrow> field" where
  "db_now name = (plain name DateTimeField)\<lparr>fd_default := DatabaseNow\<rparr>"

definition with_choices :: "string \<Rightarrow> nat \<Rightarrow> (string \<times> string) list \<Rightarrow> field" where
  "with_choices name n cs = (plain name (CharField n))\<lparr>fd_choices := cs\<rparr>"

definition protected :: "string \<Rightarrow> string \<Rightarrow> string \<Rightarrow> field" where
  "protected name target related = plain name (ForeignKey target PROTECT related)"

definition ccy_regex :: pattern where
  "ccy_regex = Pattern [(CHR ''A'', CHR ''Z'')] 3"

definition limited_partner_fields :: "field list" where
  "limited_partner_fields = [uuid_pk, plain ''name'' (CharField 200),
     with_choices ''investor_type'' 32 [(''PENSION'', ''Pension''), (''ENDOWMENT'', ''Endowment''),
       (''SOVEREIGN_WEALTH'', ''Sovereign Wealth''), (''FAMILY_OFFICE'', ''Family Office''),
       (''FUND_OF_FUNDS'', ''Fund Of Funds''), (''INSURANCE'', ''Insurance'')]]"

definition fund_fields :: "field list" where
  "fund_fields =
     [uuid_pk, (plain ''name'' (CharField 200))\<lparr>fd_unique := True\<rparr>, plain ''base_currency'' (CharField 3),
     plain ''vintage_year'' PositiveSmallIntegerField, plain ''inception_date'' DateField]"

definition fund_rules :: "constr list" where
  "fund_rules =
     [Check ''fund_base_currency_iso4217'' (Matches ''base_currency'' ccy_regex)]"

definition fx_rate_fields :: "field list" where
  "fx_rate_fields =
     [uuid_pk, plain ''from_currency'' (CharField 3), plain ''to_currency'' (CharField 3),
     plain ''rate'' (DecimalField 20 10), plain ''as_of_date'' DateField]"

definition fx_rate_rules :: "constr list" where
  "fx_rate_rules =
     [Unique ''fxrate_unique_per_day'' [''from_currency'', ''to_currency'', ''as_of_date''] None,
     Check ''fxrate_positive'' (Greater ''rate'' (Num 0)),
     Check ''fxrate_distinct_currencies'' (Negated (Exact ''from_currency'' (Col ''to_currency'')))]"

definition commitment_fields :: "field list" where
  "commitment_fields =
     [uuid_pk, plain ''committed_amount'' (DecimalField 20 4), plain ''signed_date'' DateField,
     protected ''fund'' ''funds.fund'' ''commitments'', protected ''lp'' ''funds.limitedpartner'' ''commitments'']"

definition commitment_rules :: "constr list" where
  "commitment_rules =
     [Unique ''commitment_one_per_lp_per_fund'' [''fund'', ''lp''] None,
     Check ''commitment_amount_positive'' (Greater ''committed_amount'' (Num 0))]"

definition nav_snapshot_fields :: "field list" where
  "nav_snapshot_fields =
     [uuid_pk, plain ''as_of_date'' DateField, plain ''total_nav'' (DecimalField 20 4), plain ''computed_at'' DateTimeField,
     protected ''fund'' ''funds.fund'' ''nav_snapshots'']"

definition nav_snapshot_rules :: "constr list" where
  "nav_snapshot_rules =
     [Unique ''nav_one_per_fund_per_day'' [''fund'', ''as_of_date''] None]"

definition period_fields :: "field list" where
  "period_fields =
     [uuid_pk, plain ''start_date'' DateField, plain ''end_date'' DateField,
     (with_choices ''status'' 6 [(''OPEN'', ''Open''), (''CLOSED'', ''Closed'')])\<lparr>fd_default := Constant ''OPEN''\<rparr>,
     nullable (plain ''closed_at'' DateTimeField), protected ''fund'' ''funds.fund'' ''periods'']"

definition period_rules :: "constr list" where
  "period_rules =
     [Unique ''period_unique_start'' [''fund'', ''start_date''] None,
     Check ''period_end_not_before_start'' (AtLeast ''end_date'' (Col ''start_date'')),
     Check ''period_closed_at_matches_status''
     (Either (Both (IsNull ''closed_at'' True) (Exact ''status'' (Lit ''OPEN'')))
     (Both (IsNull ''closed_at'' False) (Exact ''status'' (Lit ''CLOSED''))))]"

definition funds_0001 :: migration where
  "funds_0001 = \<lparr>mg_app = ''funds'', mg_name = ''0001_initial'', mg_dependencies = [], mg_operations = [
     CreateModel ''LimitedPartner'' limited_partner_fields [] [],
     CreateModel ''Fund'' fund_fields fund_rules [],
     CreateModel ''FxRate'' fx_rate_fields fx_rate_rules [],
     CreateModel ''Commitment'' commitment_fields commitment_rules [],
     CreateModel ''NavSnapshot'' nav_snapshot_fields nav_snapshot_rules [],
     CreateModel ''Period'' period_fields period_rules
       [''fund'', ''start_date'']]\<rparr>"

definition closed_by_field :: field where
  "closed_by_field = (plain ''closed_by'' (CharField 150))\<lparr>fd_blank := True, fd_default := Constant []\<rparr>"

definition funds_0002 :: migration where
  "funds_0002 = \<lparr>mg_app = ''funds'', mg_name = ''0002_period_closed_by'', mg_dependencies = [(''funds'', ''0001_initial'')],
     mg_operations = [AddField ''period'' closed_by_field]\<rparr>"

definition account_fields :: "field list" where
  "account_fields = [uuid_pk, plain ''code'' (CharField 64),
     with_choices ''account_type'' 32 [(''CASH'', ''Cash''), (''INVESTMENT'', ''Investment''), (''FEE_EXPENSE'', ''Fee Expense''),
       (''GAIN_LOSS'', ''Gain Loss''), (''LP_CAPITAL'', ''Lp Capital''), (''GP_CAPITAL'', ''Gp Capital'')],
     plain ''currency'' (CharField 3), db_now ''created_at'', protected ''fund'' ''funds.fund'' ''accounts'',
     nullable (protected ''owner_lp'' ''funds.limitedpartner'' ''accounts'')]"

definition transfer_fields :: "field list" where
  "transfer_fields = [uuid_pk, plain ''idempotency_key'' (CharField 255),
     (plain ''request_hash'' (CharField 64))\<lparr>fd_blank := True, fd_default := Constant []\<rparr>,
     with_choices ''transfer_type'' 32 [(''CAPITAL_CALL'', ''Capital Call''), (''DISTRIBUTION'', ''Distribution''), (''FEE'', ''Fee''),
       (''INVESTMENT'', ''Investment''), (''REVERSAL'', ''Reversal''), (''ADJUSTMENT'', ''Adjustment'')],
     (plain ''description'' TextField)\<lparr>fd_blank := True, fd_default := Constant []\<rparr>,
     (plain ''created_by'' (CharField 255))\<lparr>fd_blank := True, fd_default := Constant []\<rparr>, db_now ''created_at'',
     protected ''period'' ''funds.period'' ''transfers'', nullable (protected ''reverses'' ''ledger.transfer'' ''reversals'')]"

definition entry_fields :: "field list" where
  "entry_fields = [uuid_pk, with_choices ''direction'' 6 [(''DEBIT'', ''Debit''), (''CREDIT'', ''Credit'')],
     plain ''amount'' (DecimalField 20 4), plain ''currency'' (CharField 3), nullable (plain ''fx_rate'' (DecimalField 20 10)),
     plain ''base_amount'' (DecimalField 20 4), plain ''signed_amount'' (SignedField ''amount''),
     plain ''signed_base_amount'' (SignedField ''base_amount''), db_now ''created_at'',
     protected ''account'' ''ledger.account'' ''entries'', protected ''transfer'' ''ledger.transfer'' ''entries'']"

definition account_rules :: "constr list" where
  "account_rules =
     [Check ''account_currency_iso4217'' (Matches ''currency'' ccy_regex),
      Check ''account_owner_lp_iff_lp_capital'' (Either (Both (Exact ''account_type'' (Lit ''LP_CAPITAL'')) (IsNull ''owner_lp'' False)) (Both (Negated (Exact ''account_type'' (Lit ''LP_CAPITAL''))) (IsNull ''owner_lp'' True))),
      Unique ''account_code_unique_per_fund'' [''fund'', ''code''] None,
      Unique ''account_one_lp_capital_per_lp_currency'' [''fund'', ''owner_lp'', ''currency''] (Some (Exact ''account_type'' (Lit ''LP_CAPITAL''))),
      Unique ''account_id_currency_unique'' [''id'', ''currency''] None]"

definition transfer_rules :: "constr list" where
  "transfer_rules =
     [Unique ''transfer_idempotency_key_unique'' [''idempotency_key''] None,
      Unique ''transfer_reverses_unique'' [''reverses''] None,
      Check ''transfer_idempotency_key_present'' (Negated (Exact ''idempotency_key'' (Lit []))),
      Check ''transfer_only_reversals_reverse'' (Either (IsNull ''reverses'' True) (Exact ''transfer_type'' (Lit ''REVERSAL''))),
      Check ''transfer_reversal_has_target'' (Either (Negated (Exact ''transfer_type'' (Lit ''REVERSAL''))) (IsNull ''reverses'' False))]"

definition entry_rules :: "constr list" where
  "entry_rules =
     [Check ''entry_amount_positive'' (Greater ''amount'' (Num 0)),
      Check ''entry_base_amount_positive'' (Greater ''base_amount'' (Num 0)),
      Check ''entry_currency_iso4217'' (Matches ''currency'' ccy_regex),
      Check ''entry_direction_valid'' (OneOf ''direction'' [''DEBIT'', ''CREDIT'']),
      Check ''entry_fx_rate_positive'' (Either (IsNull ''fx_rate'' True) (Greater ''fx_rate'' (Num 0)))]"

definition ledger_0001 :: migration where
  "ledger_0001 = \<lparr>mg_app = ''ledger'', mg_name = ''0001_initial'', mg_dependencies = [(''funds'', ''0001_initial'')],
     mg_operations =
       [CreateModel ''Account'' account_fields [] [], CreateModel ''Transfer'' transfer_fields [] [], CreateModel ''Entry'' entry_fields [] []] @
       map (AddConstraint ''account'') account_rules @ map (AddConstraint ''transfer'') transfer_rules @
       [AddIndex ''entry'' ''entry_account_created_idx'' [''account'', ''created_at'']] @ map (AddConstraint ''entry'') entry_rules\<rparr>"

text \<open>
  The triggers of \<^verbatim>\<open>0002_integrity_triggers\<close> and \<^verbatim>\<open>0003_period_guards\<close>. What
  their functions do is in theory \<open>Store\<close>, under their names.
\<close>

definition TRANSFER_BALANCES :: "sql list" where
  "TRANSFER_BALANCES = [CreateFunction ''assert_transfer_balances'',
     CreateTrigger ''entry_balance_check'' DeferredAfterRow [OnInsert] ''ledger_entry'' ''assert_transfer_balances'']"

definition DROP_TRANSFER_BALANCES :: "sql list" where
  "DROP_TRANSFER_BALANCES = [DropTrigger ''entry_balance_check'' ''ledger_entry'', DropFunction ''assert_transfer_balances'']"

definition APPEND_ONLY :: "sql list" where
  "APPEND_ONLY = [CreateFunction ''forbid_mutation'',
     CreateTrigger ''entry_append_only'' BeforeRow [OnUpdate, OnDelete] ''ledger_entry'' ''forbid_mutation'',
     CreateTrigger ''transfer_append_only'' BeforeRow [OnUpdate, OnDelete] ''ledger_transfer'' ''forbid_mutation'']"

definition DROP_APPEND_ONLY :: "sql list" where
  "DROP_APPEND_ONLY = [DropTrigger ''entry_append_only'' ''ledger_entry'', DropTrigger ''transfer_append_only'' ''ledger_transfer'',
     DropFunction ''forbid_mutation'']"

definition ENTRY_CURRENCY_MATCHES_ACCOUNT :: "sql list" where
  "ENTRY_CURRENCY_MATCHES_ACCOUNT = [AddForeignKey ''entry_currency_matches_account'' ''ledger_entry'' [''account_id'', ''currency'']
     ''ledger_account'' [''id'', ''currency'']]"

definition DROP_ENTRY_CURRENCY_MATCHES_ACCOUNT :: "sql list" where
  "DROP_ENTRY_CURRENCY_MATCHES_ACCOUNT = [DropConstraint ''ledger_entry'' ''entry_currency_matches_account'']"

definition ledger_0002 :: migration where
  "ledger_0002 = \<lparr>mg_app = ''ledger'', mg_name = ''0002_integrity_triggers'', mg_dependencies = [(''ledger'', ''0001_initial'')],
     mg_operations = [RunSQL TRANSFER_BALANCES DROP_TRANSFER_BALANCES, RunSQL APPEND_ONLY DROP_APPEND_ONLY,
       RunSQL ENTRY_CURRENCY_MATCHES_ACCOUNT DROP_ENTRY_CURRENCY_MATCHES_ACCOUNT]\<rparr>"

definition PERIOD_OPEN :: "sql list" where
  "PERIOD_OPEN = [CreateFunction ''assert_period_open'',
     CreateTrigger ''entry_period_open'' BeforeRow [OnInsert] ''ledger_entry'' ''assert_period_open'']"

definition DROP_PERIOD_OPEN :: "sql list" where
  "DROP_PERIOD_OPEN = [DropTrigger ''entry_period_open'' ''ledger_entry'', DropFunction ''assert_period_open'']"

definition CLOSED_IS_FINAL :: "sql list" where
  "CLOSED_IS_FINAL = [CreateFunction ''forbid_period_reopen'',
     CreateTrigger ''period_closed_is_final'' BeforeRow [OnUpdate] ''funds_period'' ''forbid_period_reopen'']"

definition DROP_CLOSED_IS_FINAL :: "sql list" where
  "DROP_CLOSED_IS_FINAL = [DropTrigger ''period_closed_is_final'' ''funds_period'', DropFunction ''forbid_period_reopen'']"

definition ledger_0003 :: migration where
  "ledger_0003 = \<lparr>mg_app = ''ledger'', mg_name = ''0003_period_guards'',
     mg_dependencies = [(''ledger'', ''0002_integrity_triggers''), (''funds'', ''0001_initial'')],
     mg_operations = [RunSQL PERIOD_OPEN DROP_PERIOD_OPEN, RunSQL CLOSED_IS_FINAL DROP_CLOSED_IS_FINAL]\<rparr>"

definition capital_call_fields :: "field list" where
  "capital_call_fields =
     [uuid_pk, plain ''call_number'' PositiveIntegerField, plain ''notice_date'' DateField, plain ''due_date'' DateField,
     plain ''total_amount'' (DecimalField 20 4), db_now ''created_at'', protected ''fund'' ''funds.fund'' ''capital_calls'',
     plain ''transfer'' (OneToOneField ''ledger.transfer'' PROTECT ''capital_call'')]"

definition capital_call_rules :: "constr list" where
  "capital_call_rules =
     [Unique ''capital_call_number_unique'' [''fund'', ''call_number''] None,
     Check ''capital_call_positive'' (Greater ''total_amount'' (Num 0)),
     Check ''capital_call_due_after_notice'' (AtLeast ''due_date'' (Col ''notice_date''))]"

definition operations_0001 :: migration where
  "operations_0001 = \<lparr>mg_app = ''operations'', mg_name = ''0001_initial'',
     mg_dependencies = [(''funds'', ''0001_initial''), (''ledger'', ''0002_integrity_triggers'')],
     mg_operations = [CreateModel ''CapitalCall'' capital_call_fields capital_call_rules []]\<rparr>"

definition distribution_fields :: "field list" where
  "distribution_fields =
     [uuid_pk, plain ''distribution_number'' PositiveIntegerField, plain ''payment_date'' DateField,
     plain ''total_amount'' (DecimalField 20 4),
     with_choices ''classification'' 32 [(''RETURN_OF_CAPITAL'', ''Return Of Capital''), (''GAIN'', ''Gain''), (''INCOME'', ''Income'')],
     db_now ''created_at'', protected ''fund'' ''funds.fund'' ''distributions'',
     plain ''transfer'' (OneToOneField ''ledger.transfer'' PROTECT ''distribution'')]"

definition distribution_rules :: "constr list" where
  "distribution_rules =
     [Unique ''distribution_number_unique'' [''fund'', ''distribution_number''] None,
     Check ''distribution_positive'' (Greater ''total_amount'' (Num 0))]"

definition operations_0002 :: migration where
  "operations_0002 = \<lparr>mg_app = ''operations'', mg_name = ''0002_distribution'',
     mg_dependencies = [(''funds'', ''0001_initial''), (''ledger'', ''0002_integrity_triggers''), (''operations'', ''0001_initial'')],
     mg_operations = [CreateModel ''Distribution'' distribution_fields distribution_rules []]\<rparr>"

text \<open>
  The user model of \<^verbatim>\<open>settings.AUTH_USER_MODEL\<close> and its first migration are
  Django's own.
\<close>

definition AUTH_USER_MODEL :: string where
  "AUTH_USER_MODEL = ''auth.user''"

definition api_key_fields :: "field list" where
  "api_key_fields =
     [uuid_pk, plain ''name'' (CharField 100), plain ''prefix'' (CharField 12), plain ''key_hash'' (CharField 64),
     db_now ''created_at'', nullable (plain ''expires_at'' DateTimeField), nullable (plain ''revoked_at'' DateTimeField),
     nullable (plain ''last_used_at'' DateTimeField), plain ''user'' (ForeignKey AUTH_USER_MODEL CASCADE ''api_keys'')]"

definition api_key_rules :: "constr list" where
  "api_key_rules =
     [Unique ''apikey_prefix_unique'' [''prefix''] None,
     Check ''apikey_hash_is_sha256'' (Matches ''key_hash'' (Pattern [(CHR ''0'', CHR ''9''), (CHR ''a'', CHR ''f'')] 64))]"

definition fund_membership_fields :: "field list" where
  "fund_membership_fields =
     [uuid_pk, with_choices ''role'' 16 [(''LP'', ''Limited partner: own statement only''), (''VIEWER'', ''Viewer: read the whole fund''),
     (''OPERATOR'', ''Operator: also post calls, distributions, reversals''), (''CONTROLLER'', ''Controller: also close periods'')],
     db_now ''created_at'', protected ''fund'' ''funds.fund'' ''memberships'',
     nullable (protected ''lp'' ''funds.limitedpartner'' ''memberships''),
     plain ''user'' (ForeignKey AUTH_USER_MODEL CASCADE ''fund_memberships'')]"

definition fund_membership_rules :: "constr list" where
  "fund_membership_rules =
     [Unique ''membership_one_per_user_fund'' [''user'', ''fund''] None,
     Check ''membership_lp_iff_lp_role''
     (Either (Both (Exact ''role'' (Lit ''LP'')) (IsNull ''lp'' False))
     (Both (Negated (Exact ''role'' (Lit ''LP''))) (IsNull ''lp'' True)))]"

definition access_0001 :: migration where
  "access_0001 = \<lparr>mg_app = ''access'', mg_name = ''0001_initial'',
     mg_dependencies = [(''funds'', ''0001_initial''), (''auth'', ''0001_initial'')], mg_operations = [
     CreateModel ''ApiKey'' api_key_fields api_key_rules [],
     CreateModel ''FundMembership'' fund_membership_fields fund_membership_rules []]\<rparr>"

section \<open>A new database\<close>

text \<open>An order in which \<^verbatim>\<open>migrate\<close> may run them, after Django's own.\<close>

definition migration_plan :: "migration list" where
  "migration_plan = [funds_0001, funds_0002, ledger_0001, ledger_0002, ledger_0003, operations_0001, operations_0002, access_0001]"

definition user_model :: model where
  "user_model = \<lparr>md_fields = [], md_constraints = [], md_indexes = [], md_ordering = []\<rparr>"

definition new_database :: schema where
  "new_database = \<lparr>sc_applied = [(''auth'', ''0001_initial'')],
     sc_models = [(AUTH_USER_MODEL, user_model)],
     sc_triggers = [], sc_functions = [], sc_foreign_keys = []\<rparr>"

definition migrate :: "schema \<Rightarrow> schema option" where
  "migrate s = run_each apply_migration migration_plan s"

definition migrate_zero :: "schema \<Rightarrow> schema option" where
  "migrate_zero s = run_each unapply_migration (rev migration_plan) s"

text \<open>What they leave, in the order in which they make it.\<close>

definition made :: "field list \<Rightarrow> constr list \<Rightarrow> model" where
  "made fields_made rules = \<lparr>md_fields = fields_made, md_constraints = rules, md_indexes = [], md_ordering = []\<rparr>"

definition migrated :: schema where
  "migrated = \<lparr>
     sc_applied = (''auth'', ''0001_initial'') # map (\<lambda>m. (mg_app m, mg_name m)) migration_plan,
     sc_models = [(AUTH_USER_MODEL, user_model),
       (''funds.limitedpartner'', made limited_partner_fields []), (''funds.fund'', made fund_fields fund_rules),
       (''funds.fxrate'', made fx_rate_fields fx_rate_rules), (''funds.commitment'', made commitment_fields commitment_rules),
       (''funds.navsnapshot'', made nav_snapshot_fields nav_snapshot_rules),
       (''funds.period'', (made (period_fields @ [closed_by_field]) period_rules)\<lparr>md_ordering := [''fund'', ''start_date'']\<rparr>),
       (''ledger.account'', made account_fields account_rules), (''ledger.transfer'', made transfer_fields transfer_rules),
       (''ledger.entry'', (made entry_fields entry_rules)\<lparr>md_indexes := [(''entry_account_created_idx'', [''account'', ''created_at''])]\<rparr>),
       (''operations.capitalcall'', made capital_call_fields capital_call_rules),
       (''operations.distribution'', made distribution_fields distribution_rules),
       (''access.apikey'', made api_key_fields api_key_rules), (''access.fundmembership'', made fund_membership_fields fund_membership_rules)],
     sc_triggers =
       [(''period_closed_is_final'', BeforeRow, [OnUpdate], ''funds_period'', ''forbid_period_reopen''),
        (''entry_period_open'', BeforeRow, [OnInsert], ''ledger_entry'', ''assert_period_open''),
        (''transfer_append_only'', BeforeRow, [OnUpdate, OnDelete], ''ledger_transfer'', ''forbid_mutation''),
        (''entry_append_only'', BeforeRow, [OnUpdate, OnDelete], ''ledger_entry'', ''forbid_mutation''),
        (''entry_balance_check'', DeferredAfterRow, [OnInsert], ''ledger_entry'', ''assert_transfer_balances'')],
     sc_functions = [''forbid_period_reopen'', ''assert_period_open'', ''forbid_mutation'', ''assert_transfer_balances''],
     sc_foreign_keys =
       [(''entry_currency_matches_account'', ''ledger_entry'', [''account_id'', ''currency''], ''ledger_account'', [''id'', ''currency''])]\<rparr>"

section \<open>The same table\<close>

text \<open>
  A model and the table the migrations leave for it: the same columns in some order, the same
  constraints under the same names, with conditions that no row tells apart.
\<close>

fun same_constraint :: "constr \<Rightarrow> constr \<Rightarrow> bool" where
  "same_constraint (Check n c) (Check n' c') = (n = n' \<and> (\<forall>r. eval_condition r c = eval_condition r c'))"
| "same_constraint (Unique n cols c) (Unique n' cols' c') = (n = n' \<and> cols = cols' \<and> c = c')"
| "same_constraint _ _ = False"

definition same_model :: "model \<Rightarrow> model \<Rightarrow> bool" where
  "same_model m m' \<longleftrightarrow>
     set (md_fields m) = set (md_fields m') \<and> distinct (map fd_name (md_fields m')) \<and>
     list_all2 same_constraint (md_constraints m) (md_constraints m') \<and>
     md_indexes m = md_indexes m' \<and> md_ordering m = md_ordering m'"

text \<open>
  \<^verbatim>\<open>Q\<close> orders its keywords by name, so a generated condition may have its parts the
  other way round. \<open>alike\<close> decides equality up to that.
\<close>

fun alike :: "condition \<Rightarrow> condition \<Rightarrow> bool" where
  "alike (Both a b) (Both c d) = (alike a c \<and> alike b d \<or> alike a d \<and> alike b c)"
| "alike (Either a b) (Either c d) = (alike a c \<and> alike b d)"
| "alike c d = (c = d)"

lemma and3_commute: "and3 a b = and3 b a"
  by (auto simp: and3_def)

lemma alike_eval: "alike c d \<Longrightarrow> eval_condition r c = eval_condition r d"
  by (induction c d rule: alike.induct) (auto simp: and3_commute)

fun alike_constraint :: "constr \<Rightarrow> constr \<Rightarrow> bool" where
  "alike_constraint (Check n c) (Check n' c') = (n = n' \<and> alike c c')"
| "alike_constraint c d = (c = d)"

lemma alike_constraint_same: "alike_constraint c d \<Longrightarrow> same_constraint c d"
  by (cases "(c, d)" rule: alike_constraint.cases) (auto simp: alike_eval)

definition alike_model :: "model \<Rightarrow> model \<Rightarrow> bool" where
  "alike_model m m' \<longleftrightarrow>
     set (md_fields m) = set (md_fields m') \<and> distinct (map fd_name (md_fields m')) \<and>
     list_all2 alike_constraint (md_constraints m) (md_constraints m') \<and>
     md_indexes m = md_indexes m' \<and> md_ordering m = md_ordering m'"

lemma alike_model_same: "alike_model m m' \<Longrightarrow> same_model m m'"
  unfolding alike_model_def same_model_def by (blast intro: list_all2_mono alike_constraint_same)

definition same_table :: "string \<times> model \<Rightarrow> string \<times> model \<Rightarrow> bool" where
  "same_table km km' \<longleftrightarrow> fst km = fst km' \<and> same_model (snd km) (snd km')"

section \<open>Running the plan\<close>

lemma migrate_succeeds: "migrate new_database = Some migrated"
  by code_simp

lemma migrated_undone: "migrate_zero migrated = Some new_database"
  by code_simp

lemma migrated_tables: "list_all2 same_table ((AUTH_USER_MODEL, user_model) # declared_models) (sc_models migrated)"
proof -
  have "list_all2 (\<lambda>(k, m) (k', m'). k = k' \<and> alike_model m m') ((AUTH_USER_MODEL, user_model) # declared_models) (sc_models migrated)"
    by code_simp
  then show ?thesis
    by (rule list_all2_mono) (auto simp: same_table_def alike_model_same)
qed

lemma migrated_foreign_keys: "sc_foreign_keys migrated =
    [(''entry_currency_matches_account'', ''ledger_entry'', [''account_id'', ''currency''], ''ledger_account'', [''id'', ''currency''])]"
  by (simp add: migrated_def)

end
