(* ===== verification/Schema_Rows.thy ===== *)
theory Schema_Rows
  imports Migrations Database
begin

text \<open>
  The rows of the ledger's tables as the migrated schema sees them, and what each table's
  columns, checks and uniqueness say of the records of theory \<open>Data_Model\<close>.
\<close>

section \<open>Rows\<close>

definition row_of :: "(string \<times> sval) list \<Rightarrow> row" where
  "row_of cells c = (case map_of cells c of None \<Rightarrow> SNull | Some v \<Rightarrow> v)"

definition or_null :: "('a \<Rightarrow> sval) \<Rightarrow> 'a option \<Rightarrow> sval" where
  "or_null f x = (case x of None \<Rightarrow> SNull | Some y \<Rightarrow> f y)"

fun investor_type_str :: "investor_type \<Rightarrow> string" where
  "investor_type_str PENSION = ''PENSION''"
| "investor_type_str ENDOWMENT = ''ENDOWMENT''"
| "investor_type_str SOVEREIGN_WEALTH = ''SOVEREIGN_WEALTH''"
| "investor_type_str FAMILY_OFFICE = ''FAMILY_OFFICE''"
| "investor_type_str FUND_OF_FUNDS = ''FUND_OF_FUNDS''"
| "investor_type_str INSURANCE = ''INSURANCE''"

definition fund_row :: "fund \<Rightarrow> row" where
  "fund_row f = row_of [(''id'', SUuid (f_id f)), (''name'', SText (f_name f)), (''base_currency'', SText (f_base_currency f)),
     (''vintage_year'', SNum (of_nat (f_vintage_year f))), (''inception_date'', SDate (f_inception_date f))]"

definition lp_row :: "limited_partner \<Rightarrow> row" where
  "lp_row l = row_of [(''id'', SUuid (lp_id l)), (''name'', SText (lp_name l)),
     (''investor_type'', SText (investor_type_str (lp_investor_type l)))]"

definition commitment_row :: "commitment \<Rightarrow> row" where
  "commitment_row c = row_of [(''id'', SUuid (c_id c)), (''fund'', SUuid (c_fund c)), (''lp'', SUuid (c_lp c)),
     (''committed_amount'', SNum (c_committed_amount c)), (''signed_date'', SDate (c_signed_date c))]"

definition period_row :: "period \<Rightarrow> row" where
  "period_row p = row_of [(''id'', SUuid (p_id p)), (''fund'', SUuid (p_fund p)), (''start_date'', SDate (p_start_date p)),
     (''end_date'', SDate (p_end_date p)), (''status'', SText (period_status_str (p_status p))),
     (''closed_at'', or_null STime (p_closed_at p)), (''closed_by'', SText (p_closed_by p))]"

definition fx_rate_row :: "fx_rate \<Rightarrow> row" where
  "fx_rate_row x = row_of [(''id'', SUuid (x_id x)), (''from_currency'', SText (x_from_currency x)),
     (''to_currency'', SText (x_to_currency x)), (''rate'', SNum (x_rate x)), (''as_of_date'', SDate (x_as_of_date x))]"

definition nav_row :: "nav_snapshot \<Rightarrow> row" where
  "nav_row n = row_of [(''id'', SUuid (n_id n)), (''fund'', SUuid (n_fund n)), (''as_of_date'', SDate (n_as_of_date n)),
     (''total_nav'', SNum (n_total_nav n)), (''computed_at'', STime (n_computed_at n))]"

definition account_row :: "account \<Rightarrow> row" where
  "account_row a = row_of [(''id'', SUuid (a_id a)), (''fund'', SUuid (a_fund a)), (''code'', SText (a_code a)),
     (''account_type'', SText (account_type_str (a_account_type a))), (''owner_lp'', or_null SUuid (a_owner_lp a)),
     (''currency'', SText (a_currency a)), (''created_at'', STime (a_created_at a))]"

definition transfer_row :: "transfer \<Rightarrow> row" where
  "transfer_row t = row_of [(''id'', SUuid (t_id t)), (''idempotency_key'', SText (t_idempotency_key t)),
     (''request_hash'', SText (t_request_hash t)), (''transfer_type'', SText (transfer_type_str (t_transfer_type t))),
     (''reverses'', or_null SUuid (t_reverses t)), (''period'', SUuid (t_period t)), (''description'', SText (t_description t)),
     (''created_by'', SText (t_created_by t)), (''created_at'', STime (t_created_at t))]"

definition entry_row :: "entry \<Rightarrow> row" where
  "entry_row e = row_of [(''id'', SUuid (e_id e)), (''transfer'', SUuid (e_transfer e)), (''account'', SUuid (e_account e)),
     (''account_id'', SUuid (e_account e)), (''direction'', SText (direction_str (e_direction e))), (''amount'', SNum (e_amount e)),
     (''currency'', SText (e_currency e)), (''fx_rate'', or_null SNum (e_fx_rate e)), (''base_amount'', SNum (e_base_amount e)),
     (''signed_amount'', SNum (signed_amount e)), (''signed_base_amount'', SNum (signed_base_amount e)),
     (''created_at'', STime (e_created_at e))]"

definition capital_call_row :: "capital_call \<Rightarrow> row" where
  "capital_call_row c = row_of [(''id'', SUuid (cc_id c)), (''fund'', SUuid (cc_fund c)),
     (''call_number'', SNum (of_nat (cc_call_number c))), (''notice_date'', SDate (cc_notice_date c)),
     (''due_date'', SDate (cc_due_date c)), (''total_amount'', SNum (cc_total_amount c)), (''transfer'', SUuid (cc_transfer c)),
     (''created_at'', STime (cc_created_at c))]"

definition distribution_row :: "distribution \<Rightarrow> row" where
  "distribution_row d = row_of [(''id'', SUuid (d_id d)), (''fund'', SUuid (d_fund d)),
     (''distribution_number'', SNum (of_nat (d_distribution_number d))), (''payment_date'', SDate (d_payment_date d)),
     (''total_amount'', SNum (d_total_amount d)), (''classification'', SText (classification_str (d_classification d))),
     (''transfer'', SUuid (d_transfer d)), (''created_at'', STime (d_created_at d))]"

text \<open>The rows of a table; the tables of other applications are not in \<open>db\<close>.\<close>

definition db_tables :: "db \<Rightarrow> (string \<times> row list) list" where
  "db_tables s = [(''funds_limitedpartner'', map lp_row (db_lps s)), (''funds_fund'', map fund_row (db_funds s)),
     (''funds_fxrate'', map fx_rate_row (db_fx_rates s)), (''funds_commitment'', map commitment_row (db_commitments s)),
     (''funds_navsnapshot'', map nav_row (db_navs s)), (''funds_period'', map period_row (db_periods s)),
     (''ledger_account'', map account_row (db_accounts s)), (''ledger_transfer'', map transfer_row (db_transfers s)),
     (''ledger_entry'', map entry_row (db_entries s)), (''operations_capitalcall'', map capital_call_row (db_capital_calls s)),
     (''operations_distribution'', map distribution_row (db_distributions s))]"

definition db_rows :: "db \<Rightarrow> string \<Rightarrow> row list" where
  "db_rows s t = (case map_of (db_tables s) t of None \<Rightarrow> [] | Some rows \<Rightarrow> rows)"

section \<open>Conformance\<close>

text \<open>
  The database holds what the migrated schema asks of the ledger's tables: every column its
  type, every CHECK and UNIQUE constraint, every foreign key, the composite one included.
\<close>

definition conforms :: "db \<Rightarrow> bool" where
  "conforms s \<longleftrightarrow>
     list_all (model_holds (db_rows s)) (filter (\<lambda>(k, m). k \<in> set (map fst ledger_models)) (sc_models migrated)) \<and>
     list_all (foreign_key_holds (db_rows s)) (sc_foreign_keys migrated)"

section \<open>Row by row and pair by pair\<close>

text \<open>What one row must satisfy, and what two rows of a table must not share.\<close>

definition row_ok :: "(string \<Rightarrow> row list) \<Rightarrow> model \<Rightarrow> row \<Rightarrow> bool" where
  "row_ok R m r \<longleftrightarrow>
     list_all (\<lambda>f. if r (fd_name f) = SNull then fd_null f else in_column R (fd_type f) r (r (fd_name f))) (md_fields m) \<and>
     list_all (\<lambda>c. case c of Check n d \<Rightarrow> eval_condition r d \<noteq> Some False | _ \<Rightarrow> True) (md_constraints m)"

definition differ :: "sval \<Rightarrow> sval \<Rightarrow> bool" where
  "differ x y \<longleftrightarrow> x = SNull \<or> y = SNull \<or> x \<noteq> y"

definition counted :: "string list \<Rightarrow> condition option \<Rightarrow> row \<Rightarrow> bool" where
  "counted cols c r \<longleftrightarrow> (case c of None \<Rightarrow> True | Some d \<Rightarrow> eval_condition r d = Some True) \<and> SNull \<notin> set (map r cols)"

definition apart :: "model \<Rightarrow> row \<Rightarrow> row \<Rightarrow> bool" where
  "apart m q r \<longleftrightarrow>
     list_all (\<lambda>f. fd_primary f \<or> fd_unique f \<or> one_to_one (fd_type f) \<longrightarrow> differ (q (fd_name f)) (r (fd_name f))) (md_fields m) \<and>
     list_all (\<lambda>c. case c of Unique n cols d \<Rightarrow> counted cols d q \<longrightarrow> counted cols d r \<longrightarrow> map q cols \<noteq> map r cols | _ \<Rightarrow> True)
       (md_constraints m)"

lemma distinct_filter_map:
  "distinct (filter P (map f xs)) \<longleftrightarrow> sorted_wrt (\<lambda>x y. P (f x) \<longrightarrow> P (f y) \<longrightarrow> f x \<noteq> f y) xs"
  by (induction xs) auto

lemma distinct_map_filter:
  "distinct (map f (filter P xs)) \<longleftrightarrow> sorted_wrt (\<lambda>x y. P x \<longrightarrow> P y \<longrightarrow> f x \<noteq> f y) xs"
  by (induction xs) auto

lemma sorted_wrt_conj: "sorted_wrt (\<lambda>x y. P x y \<and> Q x y) xs \<longleftrightarrow> sorted_wrt P xs \<and> sorted_wrt Q xs"
  by (induction xs) auto

lemma sorted_wrt_list_all: "sorted_wrt (\<lambda>x y. list_all (\<lambda>f. P f x y) fs) xs \<longleftrightarrow> list_all (\<lambda>f. sorted_wrt (P f) xs) fs"
  by (induction fs) (auto simp: sorted_wrt_conj sorted_wrt_true)

lemma sorted_wrt_imp: "sorted_wrt (\<lambda>x y. b \<longrightarrow> P x y) xs \<longleftrightarrow> (b \<longrightarrow> sorted_wrt P xs)"
  by (cases b) (simp_all add: sorted_wrt_true)

lemma list_all_swap: "list_all (\<lambda>f. list_all (P f) xs) fs \<longleftrightarrow> list_all (\<lambda>x. list_all (\<lambda>f. P f x) fs) xs"
  by (auto simp: list_all_iff)

lemma list_all_conj: "list_all (\<lambda>x. P x \<and> Q x) xs \<longleftrightarrow> list_all P xs \<and> list_all Q xs"
  by (auto simp: list_all_iff)

lemma constraint_holds_iff:
  "constraint_holds rows c \<longleftrightarrow>
     list_all (\<lambda>r. case c of Check n d \<Rightarrow> eval_condition r d \<noteq> Some False | _ \<Rightarrow> True) rows \<and>
     sorted_wrt (\<lambda>q r. case c of Unique n cols d \<Rightarrow> counted cols d q \<longrightarrow> counted cols d r \<longrightarrow> map q cols \<noteq> map r cols | _ \<Rightarrow> True) rows"
proof (cases c)
  case (Check n d)
  then show ?thesis by (simp add: sorted_wrt_true)
next
  case (Unique n cols d)
  have "constraint_holds rows c \<longleftrightarrow> distinct (map (\<lambda>r. map r cols) (filter (counted cols d) rows))"
    by (simp add: Unique filter_map o_def counted_def [abs_def] conj_commute)
  then show ?thesis by (simp add: Unique distinct_map_filter list_all_iff)
qed

lemma field_holds_iff:
  "field_holds R rows f \<longleftrightarrow>
     list_all (\<lambda>r. if r (fd_name f) = SNull then fd_null f else in_column R (fd_type f) r (r (fd_name f))) rows \<and>
     sorted_wrt (\<lambda>q r. fd_primary f \<or> fd_unique f \<or> one_to_one (fd_type f) \<longrightarrow> differ (q (fd_name f)) (r (fd_name f))) rows"
  unfolding field_holds_def distinct_filter_map sorted_wrt_imp differ_def
  by (rule conj_cong [OF refl], rule imp_cong [OF refl], rule arg_cong [where f = "\<lambda>P. sorted_wrt P rows"]) (auto simp: fun_eq_iff)

definition table_holds :: "(string \<Rightarrow> row list) \<Rightarrow> model \<Rightarrow> row list \<Rightarrow> bool" where
  "table_holds R m rows \<longleftrightarrow> list_all (row_ok R m) rows \<and> sorted_wrt (apart m) rows"

lemma model_holds_iff: "model_holds R km \<longleftrightarrow> table_holds R (snd km) (R (table_name (fst km)))"
  unfolding model_holds_def table_holds_def row_ok_def [abs_def] apart_def [abs_def] list_all_conj sorted_wrt_conj sorted_wrt_list_all
    field_holds_iff [abs_def] constraint_holds_iff [abs_def] list_all_swap [where xs = "R (table_name (fst km))", symmetric] by blast

text \<open>A table the migrations made holds what the model class declares, and conversely.\<close>

lemma same_constraint_holds: "same_constraint c d \<Longrightarrow> constraint_holds rows c = constraint_holds rows d"
  by (cases "(c, d)" rule: same_constraint.cases) auto

lemma same_model_holds:
  assumes "same_table km km'"
  shows "model_holds R km = model_holds R km'"
proof -
  have "list_all (constraint_holds rows) cs = list_all (constraint_holds rows) ds" if "list_all2 same_constraint cs ds" for rows cs ds
    using that by (induction rule: list_all2_induct) (simp_all add: same_constraint_holds)
  moreover have "list_all P (md_fields (snd km)) = list_all P (md_fields (snd km'))" for P
    using assms by (simp add: same_table_def same_model_def list_all_iff)
  ultimately show ?thesis
    using assms unfolding model_holds_def same_table_def same_model_def by metis
qed

end
