(* ===== verification/Schema_Tables.thy ===== *)
theory Schema_Tables
  imports Schema_Rows
begin

text \<open>
  Table by table: what \<open>row_ok\<close> and \<open>apart\<close> of a model class mean for the records of
  the model, and that every statement keeps every table as its class asks.
\<close>

section \<open>Names and ids\<close>

lemma table_names [simp]:
  shows "table_name ''funds.fund'' = ''funds_fund''" and "table_name ''funds.limitedpartner'' = ''funds_limitedpartner''"
    and "table_name ''funds.fxrate'' = ''funds_fxrate''" and "table_name ''funds.commitment'' = ''funds_commitment''"
    and "table_name ''funds.navsnapshot'' = ''funds_navsnapshot''" and "table_name ''funds.period'' = ''funds_period''"
    and "table_name ''ledger.account'' = ''ledger_account''" and "table_name ''ledger.transfer'' = ''ledger_transfer''"
    and "table_name ''ledger.entry'' = ''ledger_entry''" and "table_name ''operations.capitalcall'' = ''operations_capitalcall''"
    and "table_name ''operations.distribution'' = ''operations_distribution''"
  by code_simp+

text \<open>The ids that a foreign key to table \<open>t\<close> may hold.\<close>

definition ids :: "(string \<Rightarrow> row list) \<Rightarrow> string \<Rightarrow> sval set" where
  "ids R t = (\<lambda>q. q ''id'') ` set (R t)"

lemmas class_defs = id_field_def plain_def nullable_def class_model_def choices_def MONEY_def created_field_def blank_text_def

lemmas row_simps = row_ok_def apart_def in_column_def row_of_def or_null_def differ_def counted_def equal_to_def
  not3_def and3_def or3_def ids_def

lemma iso_matches [simp]: "matches t ISO_4217 = iso_4217 t"
  by (auto simp: ISO_4217_def iso_4217_def upper_letter_def list_all_iff)

section \<open>What a class asks of a row\<close>

abbreviation money_column :: "rat \<Rightarrow> bool" where
  "money_column x \<equiv> dp 4 x \<and> \<bar>x\<bar> * 10 ^ 4 < 10 ^ 20"

abbreviation rate_column :: "rat \<Rightarrow> bool" where
  "rate_column x \<equiv> dp 10 x \<and> \<bar>x\<bar> * 10 ^ 10 < 10 ^ 20"

lemma row_fund: "row_ok R fund_class (fund_row f) \<longleftrightarrow>
    length (f_name f) \<le> 200 \<and> length (f_base_currency f) \<le> 3 \<and> f_vintage_year f \<le> 32767 \<and> iso_4217 (f_base_currency f)"
  by (auto simp: fund_class_def fund_row_def class_defs row_simps)

lemma row_lp: "row_ok R limited_partner_class (lp_row l) \<longleftrightarrow> length (lp_name l) \<le> 200"
  by (cases "lp_investor_type l") (auto simp: limited_partner_class_def lp_row_def class_defs row_simps)

lemma row_commitment: "row_ok R commitment_class (commitment_row c) \<longleftrightarrow>
    SUuid (c_fund c) \<in> ids R ''funds_fund'' \<and> SUuid (c_lp c) \<in> ids R ''funds_limitedpartner'' \<and>
    money_column (c_committed_amount c) \<and> 0 < c_committed_amount c"
  by (auto simp: commitment_class_def commitment_row_def class_defs row_simps)

lemma row_period: "row_ok R period_class (period_row p) \<longleftrightarrow>
    SUuid (p_fund p) \<in> ids R ''funds_fund'' \<and> p_start_date p \<le> p_end_date p \<and>
    ((p_status p = CLOSED) = (p_closed_at p \<noteq> None)) \<and> length (p_closed_by p) \<le> 150"
  by (cases "p_status p"; cases "p_closed_at p") (auto simp: period_class_def period_row_def class_defs row_simps)

lemma row_fx_rate: "row_ok R fx_rate_class (fx_rate_row x) \<longleftrightarrow>
    length (x_from_currency x) \<le> 3 \<and> length (x_to_currency x) \<le> 3 \<and> rate_column (x_rate x) \<and> 0 < x_rate x \<and>
    x_from_currency x \<noteq> x_to_currency x"
  by (auto simp: fx_rate_class_def fx_rate_row_def class_defs row_simps)

lemma row_nav: "row_ok R nav_snapshot_class (nav_row n) \<longleftrightarrow>
    SUuid (n_fund n) \<in> ids R ''funds_fund'' \<and> money_column (n_total_nav n)"
  by (auto simp: nav_snapshot_class_def nav_row_def class_defs row_simps)

lemma row_account: "row_ok R account_class (account_row a) \<longleftrightarrow>
    SUuid (a_fund a) \<in> ids R ''funds_fund'' \<and> length (a_code a) \<le> 64 \<and>
    (case a_owner_lp a of None \<Rightarrow> True | Some lp \<Rightarrow> SUuid lp \<in> ids R ''funds_limitedpartner'') \<and>
    length (a_currency a) \<le> 3 \<and> iso_4217 (a_currency a) \<and> ((a_account_type a = AT_LP_CAPITAL) = (a_owner_lp a \<noteq> None))"
  by (cases "a_account_type a"; cases "a_owner_lp a") (auto simp: account_class_def account_row_def class_defs row_simps)

lemma row_transfer: "row_ok R transfer_class (transfer_row t) \<longleftrightarrow>
    length (t_idempotency_key t) \<le> 255 \<and> length (t_request_hash t) \<le> 64 \<and> length (t_created_by t) \<le> 255 \<and>
    (case t_reverses t of None \<Rightarrow> True | Some r \<Rightarrow> SUuid r \<in> ids R ''ledger_transfer'') \<and>
    SUuid (t_period t) \<in> ids R ''funds_period'' \<and> t_idempotency_key t \<noteq> [] \<and>
    ((t_transfer_type t = TT_REVERSAL) = (t_reverses t \<noteq> None))"
  by (cases "t_transfer_type t"; cases "t_reverses t") (auto simp: transfer_class_def transfer_row_def class_defs row_simps)

lemma entry_cells [simp]:
  shows "entry_row e ''id'' = SUuid (e_id e)" and "entry_row e ''transfer'' = SUuid (e_transfer e)"
    and "entry_row e ''account'' = SUuid (e_account e)" and "entry_row e ''account_id'' = SUuid (e_account e)"
    and "entry_row e ''direction'' = SText (direction_str (e_direction e))" and "entry_row e ''amount'' = SNum (e_amount e)"
    and "entry_row e ''currency'' = SText (e_currency e)" and "entry_row e ''fx_rate'' = or_null SNum (e_fx_rate e)"
    and "entry_row e ''base_amount'' = SNum (e_base_amount e)" and "entry_row e ''signed_amount'' = SNum (signed_amount e)"
    and "entry_row e ''signed_base_amount'' = SNum (signed_base_amount e)" and "entry_row e ''created_at'' = STime (e_created_at e)"
  by (simp_all add: entry_row_def row_of_def)

lemma row_entry: "\<forall>d. e_direction e \<noteq> OtherDirection d \<Longrightarrow> row_ok R entry_class (entry_row e) \<longleftrightarrow>
    SUuid (e_transfer e) \<in> ids R ''ledger_transfer'' \<and> SUuid (e_account e) \<in> ids R ''ledger_account'' \<and>
    money_column (e_amount e) \<and> 0 < e_amount e \<and> money_column (e_base_amount e) \<and> 0 < e_base_amount e \<and>
    length (e_currency e) \<le> 3 \<and> iso_4217 (e_currency e) \<and>
    (case e_fx_rate e of None \<Rightarrow> True | Some r \<Rightarrow> rate_column r \<and> 0 < r)"
  by (cases "e_direction e"; cases "e_fx_rate e";
      simp add: entry_class_def class_defs row_ok_def in_column_def or_null_def equal_to_def not3_def and3_def or3_def
        ids_def signed_amount_def signed_base_amount_def; blast)

lemma row_capital_call: "row_ok R capital_call_class (capital_call_row c) \<longleftrightarrow>
    SUuid (cc_fund c) \<in> ids R ''funds_fund'' \<and> cc_call_number c \<le> 2147483647 \<and> cc_notice_date c \<le> cc_due_date c \<and>
    money_column (cc_total_amount c) \<and> 0 < cc_total_amount c \<and> SUuid (cc_transfer c) \<in> ids R ''ledger_transfer''"
  by (auto simp: capital_call_class_def capital_call_row_def class_defs row_simps)

lemma row_distribution: "row_ok R distribution_class (distribution_row d) \<longleftrightarrow>
    SUuid (d_fund d) \<in> ids R ''funds_fund'' \<and> d_distribution_number d \<le> 2147483647 \<and>
    money_column (d_total_amount d) \<and> 0 < d_total_amount d \<and> SUuid (d_transfer d) \<in> ids R ''ledger_transfer''"
  by (cases "d_classification d") (auto simp: distribution_class_def distribution_row_def class_defs row_simps)

lemmas rows = row_fund row_lp row_commitment row_period row_fx_rate row_nav row_account row_transfer row_entry
  row_capital_call row_distribution

section \<open>What two rows may not share\<close>

lemma aparts:
  shows "apart fund_class (fund_row f) (fund_row f') \<longleftrightarrow> f_id f \<noteq> f_id f' \<and> f_name f \<noteq> f_name f'"
    and "apart limited_partner_class (lp_row l) (lp_row l') \<longleftrightarrow> lp_id l \<noteq> lp_id l'"
    and "apart commitment_class (commitment_row c) (commitment_row c') \<longleftrightarrow> c_id c \<noteq> c_id c' \<and> (c_fund c, c_lp c) \<noteq> (c_fund c', c_lp c')"
    and "apart period_class (period_row p) (period_row p') \<longleftrightarrow>
      p_id p \<noteq> p_id p' \<and> (p_fund p, p_start_date p) \<noteq> (p_fund p', p_start_date p')"
    and "apart fx_rate_class (fx_rate_row x) (fx_rate_row x') \<longleftrightarrow> x_id x \<noteq> x_id x' \<and>
      (x_from_currency x, x_to_currency x, x_as_of_date x) \<noteq> (x_from_currency x', x_to_currency x', x_as_of_date x')"
    and "apart nav_snapshot_class (nav_row n) (nav_row n') \<longleftrightarrow> n_id n \<noteq> n_id n' \<and> (n_fund n, n_as_of_date n) \<noteq> (n_fund n', n_as_of_date n')"
    and "apart entry_class (entry_row e) (entry_row e') \<longleftrightarrow> e_id e \<noteq> e_id e'"
    and "apart capital_call_class (capital_call_row k) (capital_call_row k') \<longleftrightarrow>
      cc_id k \<noteq> cc_id k' \<and> cc_transfer k \<noteq> cc_transfer k' \<and> (cc_fund k, cc_call_number k) \<noteq> (cc_fund k', cc_call_number k')"
    and "apart distribution_class (distribution_row d) (distribution_row d') \<longleftrightarrow> d_id d \<noteq> d_id d' \<and> d_transfer d \<noteq> d_transfer d' \<and>
      (d_fund d, d_distribution_number d) \<noteq> (d_fund d', d_distribution_number d')"
  by (auto simp: fund_class_def fund_row_def limited_partner_class_def lp_row_def commitment_class_def commitment_row_def
      period_class_def period_row_def fx_rate_class_def fx_rate_row_def nav_snapshot_class_def nav_row_def
      entry_class_def entry_row_def capital_call_class_def capital_call_row_def distribution_class_def distribution_row_def
      class_defs row_simps)

lemma apart_transfer: "apart transfer_class (transfer_row t) (transfer_row t') \<longleftrightarrow>
    t_id t \<noteq> t_id t' \<and> t_idempotency_key t \<noteq> t_idempotency_key t' \<and> (t_reverses t = None \<or> t_reverses t \<noteq> t_reverses t')"
  by (cases "t_reverses t"; cases "t_reverses t'") (auto simp: transfer_class_def transfer_row_def class_defs row_simps)

lemma account_type_str_lp: "account_type_str ty = ''LP_CAPITAL'' \<longleftrightarrow> ty = AT_LP_CAPITAL"
  by (cases ty) auto

lemma apart_account: "apart account_class (account_row a) (account_row b) \<longleftrightarrow>
    a_id a \<noteq> a_id b \<and> (a_fund a, a_code a) \<noteq> (a_fund b, a_code b) \<and>
    (a_account_type a = AT_LP_CAPITAL \<and> a_account_type b = AT_LP_CAPITAL \<and> a_owner_lp a \<noteq> None \<longrightarrow>
      (a_fund a, a_owner_lp a, a_currency a) \<noteq> (a_fund b, a_owner_lp b, a_currency b))"
  by (cases "a_owner_lp a"; cases "a_owner_lp b")
    (auto simp: account_class_def account_row_def class_defs row_simps account_type_str_lp)

section \<open>One table changes\<close>

definition tables :: "db \<Rightarrow> bool" where
  "tables s \<longleftrightarrow> list_all (\<lambda>(k, m). table_holds (db_rows s) m (db_rows s (table_name k))) ledger_models"

definition grows :: "(string \<Rightarrow> row list) \<Rightarrow> (string \<Rightarrow> row list) \<Rightarrow> bool" where
  "grows R R' \<longleftrightarrow> (\<forall>t. ids R t \<subseteq> ids R' t)"

lemma in_column_grows: "grows R R' \<Longrightarrow> in_column R ty r v \<Longrightarrow> in_column R' ty r v"
  by (cases ty) (auto simp: in_column_def grows_def ids_def split: sval.splits)

lemma row_ok_grows: "grows R R' \<Longrightarrow> row_ok R m r \<Longrightarrow> row_ok R' m r"
  by (auto simp: row_ok_def list_all_iff in_column_grows)

lemma table_grows: "grows R R' \<Longrightarrow> table_holds R m xs \<Longrightarrow> table_holds R' m xs"
  by (auto simp: table_holds_def list_all_iff row_ok_grows)

lemma table_snoc: "table_holds R m (xs @ [r]) \<longleftrightarrow> table_holds R m xs \<and> row_ok R m r \<and> (\<forall>q \<in> set xs. apart m q r)"
  by (auto simp: table_holds_def sorted_wrt_append)

lemma table_names_distinct: "distinct (map (\<lambda>(k, m). table_name k) ledger_models)"
  by code_simp

lemma tables_change:
  assumes t: "tables s" and k: "(k, m) \<in> set ledger_models" and s': "db_rows s' = (db_rows s)(table_name k := xs)"
    and g: "ids (db_rows s) (table_name k) \<subseteq> ids (db_rows s') (table_name k)" and h: "table_holds (db_rows s') m xs"
  shows "tables s'"
  unfolding tables_def list_all_iff
proof (clarify)
  fix k' m' assume k': "(k', m') \<in> set ledger_models"
  have grow: "grows (db_rows s) (db_rows s')" using g by (auto simp: grows_def ids_def s')
  have old: "table_holds (db_rows s) m' (db_rows s (table_name k'))" using t k' by (auto simp: tables_def list_all_iff)
  show "table_holds (db_rows s') m' (db_rows s' (table_name k'))"
  proof (cases "table_name k' = table_name k")
    case True
    then have "(k', m') = (k, m)"
      using eq_key_imp_eq_value table_names_distinct k k' by (force simp: distinct_map inj_on_def)
    then show ?thesis using h s' by simp
  next
    case False
    then show ?thesis using table_grows [OF grow old] by (simp add: s')
  qed
qed

lemma tables_snoc:
  assumes t: "tables s" and k: "(k, m) \<in> set ledger_models"
    and s': "db_rows s' = (db_rows s)(table_name k := db_rows s (table_name k) @ [r])"
    and r: "row_ok (db_rows s) m r" and a: "\<forall>q \<in> set (db_rows s (table_name k)). apart m q r"
  shows "tables s'"
proof -
  have g: "grows (db_rows s) (db_rows s')" by (auto simp: grows_def ids_def s')
  have "table_holds (db_rows s) m (db_rows s (table_name k))" using t k by (auto simp: tables_def list_all_iff)
  then have "table_holds (db_rows s') m (db_rows s (table_name k) @ [r])"
    using table_grows [OF g] row_ok_grows [OF g r] a by (simp add: table_snoc)
  then show ?thesis using tables_change [OF t k s'] g by (simp add: grows_def)
qed

section \<open>Every statement keeps the tables\<close>

lemma tables_of:
  shows "db_rows s ''funds_fund'' = map fund_row (db_funds s)" and "db_rows s ''funds_limitedpartner'' = map lp_row (db_lps s)"
    and "db_rows s ''funds_fxrate'' = map fx_rate_row (db_fx_rates s)" and "db_rows s ''funds_commitment'' = map commitment_row (db_commitments s)"
    and "db_rows s ''funds_navsnapshot'' = map nav_row (db_navs s)" and "db_rows s ''funds_period'' = map period_row (db_periods s)"
    and "db_rows s ''ledger_account'' = map account_row (db_accounts s)" and "db_rows s ''ledger_transfer'' = map transfer_row (db_transfers s)"
    and "db_rows s ''ledger_entry'' = map entry_row (db_entries s)" and "db_rows s ''operations_capitalcall'' = map capital_call_row (db_capital_calls s)"
    and "db_rows s ''operations_distribution'' = map distribution_row (db_distributions s)"
  by (simp_all add: db_rows_def db_tables_def)

lemma ids_of [simp]:
  shows "SUuid u \<in> ids (db_rows s) ''funds_fund'' \<longleftrightarrow> u \<in> f_id ` set (db_funds s)"
    and "SUuid u \<in> ids (db_rows s) ''funds_limitedpartner'' \<longleftrightarrow> u \<in> lp_id ` set (db_lps s)"
    and "SUuid u \<in> ids (db_rows s) ''funds_period'' \<longleftrightarrow> u \<in> p_id ` set (db_periods s)"
    and "SUuid u \<in> ids (db_rows s) ''ledger_account'' \<longleftrightarrow> u \<in> a_id ` set (db_accounts s)"
    and "SUuid u \<in> ids (db_rows s) ''ledger_transfer'' \<longleftrightarrow> u \<in> t_id ` set (db_transfers s)"
  by (simp_all add: ids_def tables_of fund_row_def lp_row_def period_row_def account_row_def transfer_row_def row_of_def image_image image_iff)

text \<open>An INSERT: it fails and writes nothing, or adds a row that fits.\<close>

definition row_added :: "string \<Rightarrow> model \<Rightarrow> row \<Rightarrow> db \<Rightarrow> db \<Rightarrow> bool" where
  "row_added k m r s s' \<longleftrightarrow>
     (k, m) \<in> set ledger_models \<and> db_rows s' = (db_rows s)(table_name k := db_rows s (table_name k) @ [r]) \<and>
     row_ok (db_rows s) m r \<and> (\<forall>q \<in> set (db_rows s (table_name k)). apart m q r)"

lemma keeps_tables_insert:
  assumes "\<And>s e s'. ins s = (Inl e, s') \<Longrightarrow> s' = s"
    and "\<And>s s'. ins s = (Inr (), s') \<Longrightarrow> \<exists>r. row_added k m r s s'"
  shows "keeps tables ins"
proof (rule keepsI)
  fix s r s' assume t: "tables s" and i: "ins s = (r, s')"
  show "tables s'"
  proof (cases r)
    case (Inl e)
    then show ?thesis using assms(1) i t by blast
  next
    case (Inr u)
    then obtain row where "row_added k m row s s'" using assms(2) i by auto
    then show ?thesis unfolding row_added_def by (metis tables_snoc [OF t])
  qed
qed

lemma new_key: "k \<notin> f ` A \<longleftrightarrow> (\<forall>a \<in> A. f a \<noteq> k)"
  by auto

lemma find_in_ids:
  shows "find_transfer s u = Some t \<Longrightarrow> u \<in> t_id ` set (db_transfers s)"
    and "find_period s u = Some p \<Longrightarrow> u \<in> p_id ` set (db_periods s)"
    and "find_account s u = Some a \<Longrightarrow> u \<in> a_id ` set (db_accounts s)"
  by (force dest: find_transfer_SomeD find_period_SomeD find_account_SomeD)+

lemma db_rows_append:
  shows "db_rows (s\<lparr>db_funds := db_funds s @ [f]\<rparr>) = (db_rows s)(''funds_fund'' := map fund_row (db_funds s) @ [fund_row f])"
    and "db_rows (s\<lparr>db_lps := db_lps s @ [l]\<rparr>) = (db_rows s)(''funds_limitedpartner'' := map lp_row (db_lps s) @ [lp_row l])"
    and "db_rows (s\<lparr>db_commitments := db_commitments s @ [c]\<rparr>) =
      (db_rows s)(''funds_commitment'' := map commitment_row (db_commitments s) @ [commitment_row c])"
    and "db_rows (s\<lparr>db_fx_rates := db_fx_rates s @ [x]\<rparr>) = (db_rows s)(''funds_fxrate'' := map fx_rate_row (db_fx_rates s) @ [fx_rate_row x])"
    and "db_rows (s\<lparr>db_navs := db_navs s @ [n]\<rparr>) = (db_rows s)(''funds_navsnapshot'' := map nav_row (db_navs s) @ [nav_row n])"
    and "db_rows (s\<lparr>db_periods := ps\<rparr>) = (db_rows s)(''funds_period'' := map period_row ps)"
    and "db_rows (s\<lparr>db_navs := ns\<rparr>) = (db_rows s)(''funds_navsnapshot'' := map nav_row ns)"
    and "db_rows (s\<lparr>db_accounts := db_accounts s @ [a]\<rparr>) = (db_rows s)(''ledger_account'' := map account_row (db_accounts s) @ [account_row a])"
    and "db_rows (s\<lparr>db_transfers := db_transfers s @ [t]\<rparr>) =
      (db_rows s)(''ledger_transfer'' := map transfer_row (db_transfers s) @ [transfer_row t])"
    and "db_rows (s\<lparr>db_entries := db_entries s @ [e]\<rparr>) =
      (db_rows s)(''ledger_entry'' := map entry_row (db_entries s) @ [entry_row e])"
    and "db_rows (s\<lparr>db_capital_calls := db_capital_calls s @ [cc]\<rparr>) =
      (db_rows s)(''operations_capitalcall'' := map capital_call_row (db_capital_calls s) @ [capital_call_row cc])"
    and "db_rows (s\<lparr>db_distributions := db_distributions s @ [d]\<rparr>) =
      (db_rows s)(''operations_distribution'' := map distribution_row (db_distributions s) @ [distribution_row d])"
    and "db_rows (s\<lparr>db_pending := q\<rparr>) = db_rows s"
  by (simp_all add: fun_eq_iff db_rows_def db_tables_def)

lemma class_of:
  shows "(''funds.fund'', fund_class) \<in> set ledger_models" and "(''funds.limitedpartner'', limited_partner_class) \<in> set ledger_models"
    and "(''funds.fxrate'', fx_rate_class) \<in> set ledger_models" and "(''funds.commitment'', commitment_class) \<in> set ledger_models"
    and "(''funds.navsnapshot'', nav_snapshot_class) \<in> set ledger_models" and "(''funds.period'', period_class) \<in> set ledger_models"
    and "(''ledger.account'', account_class) \<in> set ledger_models" and "(''ledger.transfer'', transfer_class) \<in> set ledger_models"
    and "(''ledger.entry'', entry_class) \<in> set ledger_models" and "(''operations.capitalcall'', capital_call_class) \<in> set ledger_models"
    and "(''operations.distribution'', distribution_class) \<in> set ledger_models"
  by (simp_all add: ledger_models_def)

lemmas added = row_added_def class_of tables_of rows aparts apart_transfer apart_account new_key db_rows_append

lemma column_Inr [simp]: "column p n x = Inr y \<longleftrightarrow> numeric_store p n x = Some y"
  by (simp add: column_def split: option.splits)

lemmas stored = numeric_store_dp numeric_store_bound

lemma keeps_tables_fund [keeps_intros]: "keeps tables (insert_fund f)"
proof (rule keeps_tables_insert)
  show "\<exists>r. row_added ''funds.fund'' fund_class r s s'" if "insert_fund f s = (Inr (), s')" for s s'
    using that by (intro exI [of _ "fund_row f"]) (auto simp: insert_fund_def act added)
qed (auto simp: insert_fund_def act)

lemma keeps_tables_lp [keeps_intros]: "keeps tables (insert_lp l)"
proof (rule keeps_tables_insert)
  show "\<exists>r. row_added ''funds.limitedpartner'' limited_partner_class r s s'" if "insert_lp l s = (Inr (), s')" for s s'
    using that by (intro exI [of _ "lp_row l"]) (auto simp: insert_lp_def act added)
qed (auto simp: insert_lp_def act)

lemma keeps_tables_commitment [keeps_intros]: "keeps tables (insert_commitment c)"
proof (rule keeps_tables_insert)
  show "\<exists>r. row_added ''funds.commitment'' commitment_class r s s'" if "insert_commitment c s = (Inr (), s')" for s s'
  proof -
    from that obtain x where x: "numeric_store 20 4 (c_committed_amount c) = Some x"
      and s': "s' = s\<lparr>db_commitments := db_commitments s @ [c\<lparr>c_committed_amount := x\<rparr>]\<rparr>"
      by (auto simp: insert_commitment_def act)
    with that stored [OF x] show ?thesis
      by (intro exI [of _ "commitment_row (c\<lparr>c_committed_amount := x\<rparr>)"]) (auto simp: insert_commitment_def act added)
  qed
qed (auto simp: insert_commitment_def act)

lemma keeps_tables_fx_rate [keeps_intros]: "keeps tables (insert_fx_rate x)"
proof (rule keeps_tables_insert)
  show "\<exists>r. row_added ''funds.fxrate'' fx_rate_class r s s'" if "insert_fx_rate x s = (Inr (), s')" for s s'
  proof -
    from that obtain y where y: "numeric_store 20 10 (x_rate x) = Some y"
      and s': "s' = s\<lparr>db_fx_rates := db_fx_rates s @ [x\<lparr>x_rate := y\<rparr>]\<rparr>"
      by (auto simp: insert_fx_rate_def act)
    with that stored [OF y] show ?thesis
      by (intro exI [of _ "fx_rate_row (x\<lparr>x_rate := y\<rparr>)"]) (auto simp: insert_fx_rate_def act added dest: find_in_ids)
  qed
qed (auto simp: insert_fx_rate_def act)

lemma keeps_tables_nav [keeps_intros]: "keeps tables (insert_nav n)"
proof (rule keeps_tables_insert)
  show "\<exists>r. row_added ''funds.navsnapshot'' nav_snapshot_class r s s'" if "insert_nav n s = (Inr (), s')" for s s'
  proof -
    from that obtain y where y: "numeric_store 20 4 (n_total_nav n) = Some y"
      and s': "s' = s\<lparr>db_navs := db_navs s @ [n\<lparr>n_total_nav := y\<rparr>]\<rparr>"
      by (auto simp: insert_nav_def act)
    with that stored [OF y] show ?thesis
      by (intro exI [of _ "nav_row (n\<lparr>n_total_nav := y\<rparr>)"]) (auto simp: insert_nav_def act added dest: find_in_ids)
  qed
qed (auto simp: insert_nav_def act)

lemma keeps_tables_capital_call [keeps_intros]: "keeps tables (insert_capital_call c)"
proof (rule keeps_tables_insert)
  show "\<exists>r. row_added ''operations.capitalcall'' capital_call_class r s s'" if "insert_capital_call c s = (Inr (), s')" for s s'
  proof -
    from that obtain y where y: "numeric_store 20 4 (cc_total_amount c) = Some y"
      and s': "s' = s\<lparr>db_capital_calls := db_capital_calls s @ [c\<lparr>cc_total_amount := y\<rparr>]\<rparr>"
      by (auto simp: insert_capital_call_def act)
    with that stored [OF y] show ?thesis
      by (intro exI [of _ "capital_call_row (c\<lparr>cc_total_amount := y\<rparr>)"]) (auto simp: insert_capital_call_def act added dest: find_in_ids)
  qed
qed (auto simp: insert_capital_call_def act)

lemma keeps_tables_distribution [keeps_intros]: "keeps tables (insert_distribution d)"
proof (rule keeps_tables_insert)
  show "\<exists>r. row_added ''operations.distribution'' distribution_class r s s'" if "insert_distribution d s = (Inr (), s')" for s s'
  proof -
    from that obtain y where y: "numeric_store 20 4 (d_total_amount d) = Some y"
      and s': "s' = s\<lparr>db_distributions := db_distributions s @ [d\<lparr>d_total_amount := y\<rparr>]\<rparr>"
      by (auto simp: insert_distribution_def act)
    with that stored [OF y] show ?thesis
      by (intro exI [of _ "distribution_row (d\<lparr>d_total_amount := y\<rparr>)"]) (auto simp: insert_distribution_def act added dest: find_in_ids)
  qed
qed (auto simp: insert_distribution_def act)

lemma keeps_tables_account [keeps_intros]: "keeps tables (insert_account a)"
proof (rule keeps_tables_insert)
  show "\<exists>r. row_added ''ledger.account'' account_class r s s'" if "insert_account a s = (Inr (), s')" for s s'
    using that by (intro exI [of _ "account_row a"])
      (auto simp: insert_account_def account_constraints_def act added split: option.splits)
qed (auto simp: insert_account_def act)

lemma keeps_tables_transfer [keeps_intros]: "keeps tables (insert_transfer t)"
proof (rule keeps_tables_insert)
  show "\<exists>r. row_added ''ledger.transfer'' transfer_class r s s'" if "insert_transfer t s = (Inr (), s')" for s s'
    using that by (intro exI [of _ "transfer_row t"])
      (auto simp: insert_transfer_Inr transfer_constraints_def added dest: find_in_ids split: option.splits)
qed (auto simp: insert_transfer_Inl)

lemma keeps_tables_period [keeps_intros]: "keeps tables (insert_period p)"
proof (rule keeps_tables_insert)
  show "\<exists>r. row_added ''funds.period'' period_class r s s'" if "insert_period p s = (Inr (), s')" for s s'
    using that by (intro exI [of _ "period_row p"])
      (auto simp: insert_period_Inr period_constraints_def added)
qed (auto simp: insert_period_def act)

lemma stored_entry_columns:
  assumes "stored_entry e0 = Inr e"
  shows "money_column (e_amount e)" and "money_column (e_base_amount e)"
    and "case e_fx_rate e of None \<Rightarrow> True | Some r \<Rightarrow> rate_column r"
  using assms by (auto simp: stored_entry_def dest: stored split: option.splits)

lemma keeps_tables_entry [keeps_intros]: "keeps tables (insert_entry e0)"
proof (rule keeps_tables_insert)
  show "\<exists>r. row_added ''ledger.entry'' entry_class r s s'" if "insert_entry e0 s = (Inr (), s')" for s s'
  proof -
    from that obtain e where e: "stored_entry e0 = Inr e" and po: "assert_period_open s (e_transfer e) = Inr ()"
      and c: "entry_constraints s e = Inr ()"
      and s': "s' = s\<lparr>db_entries := db_entries s @ [e], db_pending := db_pending s @ [e_transfer e]\<rparr>"
      by (auto simp: insert_entry_Inr)
    have "e_transfer e \<in> t_id ` set (db_transfers s)"
      using po find_in_ids(1) by (metis assert_period_openD)
    moreover have "e_account e \<in> a_id ` set (db_accounts s)"
      using c by (auto simp: entry_constraints_def dest: find_in_ids)
    ultimately have "row_ok (db_rows s) entry_class (entry_row e)"
      using c stored_entry_columns [OF e]
      by (subst row_entry) (auto simp: entry_constraints_def split: option.splits)
    with c show ?thesis
      by (intro exI [of _ "entry_row e"])
        (auto simp: row_added_def class_of s' tables_of aparts db_rows_append entry_constraints_def new_key)
  qed
qed (auto dest: insert_entry_Inl)

section \<open>Updates\<close>

lemma keeps_tables_update:
  assumes "\<And>s e s'. upd s = (Inl e, s') \<Longrightarrow> s' = s"
    and "\<And>s s'. tables s \<Longrightarrow> upd s = (Inr (), s') \<Longrightarrow> db_rows s' = (db_rows s)(table_name k := xs s s') \<and>
      ids (db_rows s) (table_name k) \<subseteq> ids (db_rows s') (table_name k) \<and> table_holds (db_rows s') m (xs s s')"
    and k: "(k, m) \<in> set ledger_models"
  shows "keeps tables upd"
proof (rule keepsI)
  fix s r s' assume t: "tables s" and u: "upd s = (r, s')"
  show "tables s'"
  proof (cases r)
    case (Inl e)
    then show ?thesis using assms(1) u t by blast
  next
    case (Inr v)
    with u have "upd s = (Inr (), s')" by simp
    from assms(2) [OF t this] show ?thesis by (blast intro: tables_change [OF t k])
  qed
qed

lemma tablesD: "tables s \<Longrightarrow> (k, m) \<in> set ledger_models \<Longrightarrow> table_holds (db_rows s) m (db_rows s (table_name k))"
  by (auto simp: tables_def list_all_iff)

text \<open>A table whose rows are rewritten one by one.\<close>

lemma table_rewrite:
  assumes h: "table_holds R m (map f xs)"
    and ok: "\<And>x. x \<in> set xs \<Longrightarrow> row_ok R m (f x) \<Longrightarrow> row_ok R' m (f (g x))"
    and ap: "\<And>x y. x \<in> set xs \<Longrightarrow> y \<in> set xs \<Longrightarrow> apart m (f x) (f y) \<Longrightarrow> apart m (f (g x)) (f (g y))"
  shows "table_holds R' m (map f (map g xs))"
proof -
  have "sorted_wrt (\<lambda>x y. apart m (f (g x)) (f (g y))) xs"
    using h ap by (auto simp: table_holds_def sorted_wrt_map elim!: sorted_wrt_mono_rel [rotated])
  then show ?thesis using h ok by (auto simp: table_holds_def list_all_iff sorted_wrt_map)
qed

lemma ids_rewrite:
  "(\<And>x. x \<in> set xs \<Longrightarrow> f (g x) ''id'' = f x ''id'') \<Longrightarrow> R t = map f xs \<Longrightarrow> R' t = map f (map g xs) \<Longrightarrow> ids R t \<subseteq> ids R' t"
  by (force simp: ids_def image_iff)

lemma keeps_tables_update_period [keeps_intros]: "keeps tables (update_period p)"
proof (rule keeps_tables_update [OF _ _ class_of(6), where xs = "\<lambda>s s'. map period_row (db_periods s')"], goal_cases)
  case (1 s e s')
  then show ?case by (auto simp: update_period_def act)
next
  case (2 s s')
  let ?g = "\<lambda>q. if p_id q = p_id p then p else q"
  have s': "s' = s\<lparr>db_periods := map ?g (db_periods s)\<rparr>" and
    c: "find_period s (p_id p) = Some old \<Longrightarrow> period_constraints s p = Inr ()" for old
    using 2(2) by (auto simp: update_period_Inr)
  have c: "period_constraints s p = Inr ()" if "q \<in> set (db_periods s)" "p_id q = p_id p" for q
    using c that by (fastforce simp: find_period_def find_None_iff intro: option.exhaust_sel)
  have sep: "p_id q \<noteq> p_id p \<Longrightarrow> p_fund q = p_fund p \<Longrightarrow> p_start_date q \<noteq> p_start_date p"
    if "x \<in> set (db_periods s)" "p_id x = p_id p" "q \<in> set (db_periods s)" for x q
    using c [OF that(1,2)] that(3) by (auto simp: period_constraints_def)
  have new: "db_rows s' = (db_rows s)(''funds_period'' := map period_row (map ?g (db_periods s)))"
    by (simp only: s' db_rows_append)
  have "table_holds (db_rows s) period_class (map period_row (db_periods s))"
    using tablesD [OF 2(1) class_of(6)] by (simp add: tables_of)
  then have "table_holds (db_rows s') period_class (map period_row (map ?g (db_periods s)))"
  proof (rule table_rewrite)
    fix x assume "x \<in> set (db_periods s)" "row_ok (db_rows s) period_class (period_row x)"
    then show "row_ok (db_rows s') period_class (period_row (?g x))"
      using c by (auto simp: rows s' period_constraints_def)
  next
    fix x y assume "x \<in> set (db_periods s)" "y \<in> set (db_periods s)" "apart period_class (period_row x) (period_row y)"
    then show "apart period_class (period_row (?g x)) (period_row (?g y))"
      using sep [of x y] sep [of y x] by (auto simp: aparts)
  qed
  moreover have "ids (db_rows s) ''funds_period'' \<subseteq> ids (db_rows s') ''funds_period''"
    by (rule ids_rewrite [of "db_periods s" period_row ?g]) (simp_all add: tables_of s' period_row_def row_of_def)
  ultimately show ?case using new by (simp add: s')
qed

lemma keeps_tables_update_nav [keeps_intros]: "keeps tables (update_nav n)"
proof (rule keeps_tables_update [OF _ _ class_of(5), where xs = "\<lambda>s s'. map nav_row (db_navs s')"], goal_cases)
  case (1 s e s')
  then show ?case by (auto simp: update_nav_def act)
next
  case (2 s s')
  then obtain y where y: "numeric_store 20 4 (n_total_nav n) = Some y"
    and s': "s' = s\<lparr>db_navs := map (\<lambda>m. if (n_fund m, n_as_of_date m) = (n_fund n, n_as_of_date n)
       then m\<lparr>n_total_nav := y, n_computed_at := n_computed_at n\<rparr> else m) (db_navs s)\<rparr>"
    by (auto simp: update_nav_def act)
  let ?g = "\<lambda>m. if (n_fund m, n_as_of_date m) = (n_fund n, n_as_of_date n)
       then m\<lparr>n_total_nav := y, n_computed_at := n_computed_at n\<rparr> else m"
  have new: "db_rows s' = (db_rows s)(''funds_navsnapshot'' := map nav_row (map ?g (db_navs s)))"
    by (simp only: s' db_rows_append)
  have "table_holds (db_rows s) nav_snapshot_class (map nav_row (db_navs s))"
    using tablesD [OF 2(1) class_of(5)] by (simp add: tables_of)
  then have "table_holds (db_rows s') nav_snapshot_class (map nav_row (map ?g (db_navs s)))"
    by (rule table_rewrite) (use stored [OF y] in \<open>auto simp: rows aparts s'\<close>)
  moreover have "ids (db_rows s) ''funds_navsnapshot'' \<subseteq> ids (db_rows s') ''funds_navsnapshot''"
    by (rule ids_rewrite [of "db_navs s" nav_row ?g]) (simp_all add: tables_of s' nav_row_def row_of_def)
  ultimately show ?case using new by (simp add: s')
qed

lemma keeps_tables_deferred [keeps_intros]: "keeps tables fire_deferred"
proof (rule keepsI)
  fix s r s' assume t: "tables s" and f: "fire_deferred s = (r, s')"
  have "db_rows s' = db_rows s" using f by (cases r) (auto simp: fire_deferred_def act db_rows_append)
  with t show "tables s'" by (simp add: tables_def)
qed

lemma keeps_tables_stmt [keeps_intros]: "keeps tables (exec_stmt st)"
  by (cases st) (auto simp: forbid_mutation_def intro!: keeps_intros)

lemma keeps_tables_transaction: "keeps tables (sql_transaction stmts)"
  unfolding sql_transaction_def by (intro keeps_intros)

lemma tables_empty: "tables empty_db"
  by code_simp

lemma reachable_tables: "reachable_db s \<Longrightarrow> tables s"
  by (induction rule: reachable_db.induct) (auto simp: tables_empty dest: keepsD [OF keeps_tables_transaction])

section \<open>Conformance to the migrated schema\<close>

lemma tables_models: "tables s \<longleftrightarrow> list_all (model_holds (db_rows s)) ledger_models"
  by (simp add: tables_def list_all_iff model_holds_iff split_beta)

lemma same_tables_filter:
  "list_all2 same_table kms kms' \<Longrightarrow>
     list_all (model_holds R) (filter (\<lambda>(k, m). k \<in> K) kms) = list_all (model_holds R) (filter (\<lambda>(k, m). k \<in> K) kms')"
proof (induction rule: list_all2_induct)
  case (Cons km kms km' kms')
  have "fst km = fst km'" using Cons(1) by (simp add: same_table_def)
  then show ?case using Cons same_model_holds [OF Cons(1)] by (simp add: split_beta)
qed simp

lemma ledger_tables: "filter (\<lambda>(k, m). k \<in> set (map fst ledger_models)) ((AUTH_USER_MODEL, user_model) # declared_models) = ledger_models"
proof -
  have "fst km \<in> set (map fst ledger_models)" if "km \<in> set ledger_models" for km using that by simp
  then have "filter (\<lambda>(k, m). k \<in> set (map fst ledger_models)) ledger_models = ledger_models"
    by (simp add: filter_id_conv split_beta)
  moreover have "filter (\<lambda>(k, m). k \<in> set (map fst ledger_models)) ((AUTH_USER_MODEL, user_model) # access_models) = []"
    by (simp add: access_models_def ledger_models_def AUTH_USER_MODEL_def)
  ultimately show ?thesis by (simp add: declared_models_def split: if_splits)
qed

lemma entry_currency_fk:
  assumes "entries_wf s"
  shows "foreign_key_holds (db_rows s)
    (''entry_currency_matches_account'', ''ledger_entry'', [''account_id'', ''currency''], ''ledger_account'', [''id'', ''currency''])"
proof -
  have "\<forall>e \<in> set (db_entries s). \<exists>a \<in> set (db_accounts s). e_account e = a_id a \<and> e_currency e = a_currency a"
  proof
    fix e assume "e \<in> set (db_entries s)"
    then obtain a where a: "find_account s (e_account e) = Some a" "a_currency a = e_currency e"
      using assms by (auto simp: entries_wf_def entry_ok_def)
    with find_account_SomeD [OF a(1)] show "\<exists>a \<in> set (db_accounts s). e_account e = a_id a \<and> e_currency e = a_currency a" by force
  qed
  moreover have cells: "account_row a ''id'' = SUuid (a_id a)" "account_row a ''currency'' = SText (a_currency a)" for a
    by (simp_all add: account_row_def row_of_def)
  ultimately show ?thesis
    by (simp add: foreign_key_holds_def list_all_iff tables_of image_image image_iff cells)
qed

lemma conforms_iff: "conforms s \<longleftrightarrow> tables s \<and> list_all (foreign_key_holds (db_rows s)) (sc_foreign_keys migrated)"
  unfolding conforms_def same_tables_filter [OF migrated_tables, symmetric] ledger_tables tables_models ..

end
