(* ===== verification/Schema_Properties.thy ===== *)
theory Schema_Properties
  imports Schema_Tables
begin

text \<open>
  What the migrations build, how they are undone, and that a database changed only by
  statements of theory \<open>Database\<close> holds what they ask for.
\<close>

text \<open>
  C35: Run on a new database, the migrations succeed and leave exactly the tables the model
  classes declare: the same columns, the same constraints under the same names with equivalent
  conditions, the same indexes and ordering.
\<close>

theorem migrations_build_the_models:
  "migrate new_database = Some migrated \<and>
   list_all2 same_table ((AUTH_USER_MODEL, user_model) # declared_models) (sc_models migrated)"
  using migrate_succeeds migrated_tables by simp


text \<open>
  C34: Whatever statements its transactions execute, a database of the ledger holds what the
  migrated schema asks of it: every value fits its column, every CHECK, UNIQUE and foreign key
  of every ledger table holds, the composite one of the entries included.
\<close>

theorem database_conforms_to_the_schema:
  assumes "reachable_db s"
  shows "conforms s"
  using reachable_tables [OF assms] entry_currency_fk reachable_committed [OF assms]
  by (simp add: conforms_iff migrated_foreign_keys committed_def db_ok_def)

definition sample_rows :: "stmt list" where
  "sample_rows =
     [InsertFund \<lparr>f_id = 1, f_name = ''Fund I'', f_base_currency = ''USD'', f_vintage_year = 2024, f_inception_date = Date 2024 1 1\<rparr>,
      InsertLp \<lparr>lp_id = 2, lp_name = ''Pension'', lp_investor_type = PENSION\<rparr>,
      InsertCommitment \<lparr>c_id = 3, c_fund = 1, c_lp = 2, c_committed_amount = 1000, c_signed_date = Date 2024 1 1\<rparr>]"

lemma sample_commits: "length (db_commitments (snd (sql_transaction sample_rows empty_db))) = 1"
  by code_simp

theorem database_conforms_to_the_schema_witness:
  "\<exists>s. length (db_commitments s) = 1 \<and> conforms s"
proof -
  have "reachable_db (snd (sql_transaction sample_rows empty_db))"
    by (rule reachable_db.tx [OF reachable_db.empty prod.collapse [symmetric]])
  from database_conforms_to_the_schema [OF this] sample_commits show ?thesis by blast
qed

end
