(* ===== verification/Observability.thy ===== *)
theory Observability
  imports Api_Views
begin

text \<open>
  \<^verbatim>\<open>observability/middleware.py\<close>, \<^verbatim>\<open>views.py\<close> and
  \<^verbatim>\<open>metrics.py\<close>, and the URL configuration over them: from the path of a request to
  its response with the request id and the log line. The text that
  \<^verbatim>\<open>prometheus_client\<close> makes of the metrics, the documentation pages and whether the
  database answers are parameters.
\<close>

section \<open>Request ids\<close>

text \<open>
  \<^verbatim>\<open>^[A-Za-z0-9._-]{1,64}$\<close> with \<^verbatim>\<open>re.match\<close>: the dollar also matches before a
  newline at the very end.
\<close>

definition request_id_char :: "char \<Rightarrow> bool" where
  "request_id_char c \<longleftrightarrow> (CHR ''A'' \<le> c \<and> c \<le> CHR ''Z'') \<or> (CHR ''a'' \<le> c \<and> c \<le> CHR ''z'') \<or>
     (CHR ''0'' \<le> c \<and> c \<le> CHR ''9'') \<or> c \<in> {CHR ''.'', CHR ''_'', CHR ''-''}"

definition boring :: "string \<Rightarrow> bool" where
  "boring s \<longleftrightarrow> 1 \<le> length s \<and> length s \<le> 64 \<and> list_all request_id_char s"

definition safe_request_id :: "string \<Rightarrow> bool" where
  "safe_request_id s \<longleftrightarrow> boring s \<or> (s \<noteq> [] \<and> last s = CHR 0x0A \<and> boring (butlast s))"

text \<open>The caller's id, or \<^verbatim>\<open>uuid.uuid4().hex\<close>.\<close>

definition request_id :: "string \<Rightarrow> uuid \<Rightarrow> string" where
  "request_id incoming fresh = (if safe_request_id incoming then incoming else uuid_hex fresh)"

record log_line =
  lg_event :: string
  lg_request_id :: string
  lg_method :: string
  lg_path :: string
  lg_status :: nat

text \<open>Setting a header replaces the one of that name; names do not depend on case.\<close>

definition same_header :: "string \<Rightarrow> string \<times> string \<Rightarrow> bool" where
  "same_header name h \<longleftrightarrow> map lower_char (fst h) = map lower_char name"

definition set_header :: "string \<Rightarrow> string \<Rightarrow> response \<Rightarrow> response" where
  "set_header name v r = r\<lparr>r_headers := filter (\<lambda>h. \<not> same_header name h) (r_headers r) @ [(name, v)]\<rparr>"

definition request_id_header :: string where
  "request_id_header = ''X-Request-ID''"

definition request_id_middleware ::
    "(request \<Rightarrow> site \<Rightarrow> response \<times> site) \<Rightarrow> uuid \<Rightarrow> string \<Rightarrow> string \<Rightarrow> request \<Rightarrow> site \<Rightarrow> (response \<times> log_line) \<times> site" where
  "request_id_middleware get_response fresh incoming path rq s =
     (let rid = request_id incoming fresh;
          (response, s') = get_response (rq\<lparr>rq_id := rid\<rparr>) s
      in ((set_header request_id_header rid response,
           \<lparr>lg_event = ''request.finished'', lg_request_id = rid, lg_method = rq_method rq, lg_path = path,
             lg_status = r_status response\<rparr>), s'))"

section \<open>Metrics\<close>

text \<open>
  The counters of a process: transfer requests by type and outcome, how often the latency of a
  type was observed, and retries by SQLSTATE.
\<close>

record metric_store =
  mx_transfers :: "string \<times> string \<Rightarrow> nat"
  mx_latency :: "string \<Rightarrow> nat"
  mx_retries :: "string \<Rightarrow> nat"

definition no_metrics :: metric_store where
  "no_metrics = \<lparr>mx_transfers = (\<lambda>_. 0), mx_latency = (\<lambda>_. 0), mx_retries = (\<lambda>_. 0)\<rparr>"

text \<open>The \<^verbatim>\<open>finally\<close> block of \<^verbatim>\<open>run_idempotent\<close>, and the count of a retry.\<close>

definition count_request :: "string \<Rightarrow> exn + 'a \<times> bool \<Rightarrow> metric_store \<Rightarrow> metric_store" where
  "count_request ty result mx =
     mx\<lparr>mx_transfers := (mx_transfers mx)((ty, outcome result) := mx_transfers mx (ty, outcome result) + 1),
        mx_latency := (mx_latency mx)(ty := mx_latency mx ty + 1)\<rparr>"

definition count_retry :: "string \<Rightarrow> metric_store \<Rightarrow> metric_store" where
  "count_retry sqlstate mx = mx\<lparr>mx_retries := (mx_retries mx)(sqlstate := mx_retries mx sqlstate + 1)\<rparr>"

text \<open>\<^verbatim>\<open>MultiProcessCollector\<close> adds the counters of all workers up.\<close>

definition aggregated :: "metric_store list \<Rightarrow> metric_store" where
  "aggregated workers =
     \<lparr>mx_transfers = (\<lambda>l. sum_list (map (\<lambda>m. mx_transfers m l) workers)),
      mx_latency = (\<lambda>ty. sum_list (map (\<lambda>m. mx_latency m ty) workers)),
      mx_retries = (\<lambda>st. sum_list (map (\<lambda>m. mx_retries m st) workers))\<rparr>"

text \<open>
  What the two views take from outside: whether \<^verbatim>\<open>SELECT 1\<close> succeeds, the value of
  \<^verbatim>\<open>PROMETHEUS_MULTIPROC_DIR\<close>, the stores of the workers and of the process itself,
  \<^verbatim>\<open>generate_latest\<close> of a registry and of the gauge, and the generated documentation.
\<close>

record outside =
  o_database_answers :: bool
  o_multiproc_dir :: string
  o_workers :: "metric_store list"
  o_own :: metric_store
  o_generate :: "metric_store \<Rightarrow> string"
  o_gauge :: "string \<Rightarrow> rat \<Rightarrow> string"
  o_docs :: jval

definition healthz :: "outside \<Rightarrow> response" where
  "healthz out =
     (if o_database_answers out then respond 200 (VObj [(''status'', VStr ''ok''), (''database'', VStr ''ok'')])
      else respond 503 (VObj [(''status'', VStr ''error''), (''database'', VStr ''unreachable'')]))"

text \<open>The collector asks the database at scrape time, and not before.\<close>

definition collect :: "db \<Rightarrow> string \<times> rat" where
  "collect s = (''ledger_reconciliation_imbalance'', total_imbalance s None)"

definition registry :: "outside \<Rightarrow> metric_store" where
  "registry out = (if o_multiproc_dir out \<noteq> [] then aggregated (o_workers out) else o_own out)"

definition metrics :: "outside \<Rightarrow> db \<Rightarrow> response" where
  "metrics out s = respond 200 (VStr (o_generate out (registry out) @ case_prod (o_gauge out) (collect s)))"

section \<open>The site\<close>

text \<open>A path no pattern matches is a 404 of Django's.\<close>

definition site_response :: "world \<Rightarrow> outside \<Rightarrow> string \<Rightarrow> request \<Rightarrow> site \<Rightarrow> response \<times> site" where
  "site_response w out path rq s =
     (case site_route path of
        None \<Rightarrow> (drf_error 404, s)
      | Some Healthz \<Rightarrow> (healthz out, s)
      | Some Metrics \<Rightarrow> (metrics out (site_db s), s)
      | Some (Api e) \<Rightarrow> api_request w rq e s
      | Some Schema \<Rightarrow> (respond 200 (o_docs out), s)
      | Some Docs \<Rightarrow> (respond 200 (o_docs out), s))"

definition serve :: "world \<Rightarrow> outside \<Rightarrow> uuid \<Rightarrow> string \<Rightarrow> string \<Rightarrow> request \<Rightarrow> site \<Rightarrow> (response \<times> log_line) \<times> site" where
  "serve w out fresh incoming path rq s = request_id_middleware (site_response w out path) fresh incoming path rq s"

end
