(* ===== verification/Locking.thy ===== *)
theory Locking
  imports Operations
begin

text \<open>
  The row locks that the transactions of the ledger take, in the order in which they take
  them, and a lock manager that makes a session wait while another holds a conflicting lock.
  A transaction locks the fund of its document, then the accounts of its legs by id
  (\<^verbatim>\<open>_lock_accounts\<close>), then the unique entry of its idempotency key, then its
  period; closing takes the period alone. That order is why the transactions in flight can
  always run to their end without one being aborted, and why the checks of a posting and its
  writes are one step for every other posting on the same accounts.
\<close>

section \<open>Locks\<close>

text \<open>PostgreSQL's row locks that the code takes, and its table of conflicts between them.\<close>

datatype lock_mode = ForKeyShare | ForShare | ForUpdate

definition conflict :: "lock_mode \<Rightarrow> lock_mode \<Rightarrow> bool" where
  "conflict m n \<longleftrightarrow> m = ForUpdate \<or> n = ForUpdate"

text \<open>A transaction that inserts a key waits for one that has inserted the same key before.\<close>

datatype resource = FundRow uuid | AccountRow uuid | KeyEntry string | PeriodRow uuid

type_synonym lock = "resource \<times> lock_mode"

section \<open>The locks of a transaction\<close>

text \<open>
  \<^verbatim>\<open>post_transfer\<close>: the accounts by \<^verbatim>\<open>SELECT ... FOR UPDATE ORDER BY id\<close>;
  the row of the transfer, whose foreign key shares the period; the trigger
  \<^verbatim>\<open>entry_period_open\<close>.
\<close>

definition posting_locks :: "leg list \<Rightarrow> string \<Rightarrow> uuid \<Rightarrow> db \<Rightarrow> lock list" where
  "posting_locks legs key pid s =
     map (\<lambda>a. (AccountRow (a_id a), ForUpdate))
       (sort_key a_id (filter (\<lambda>a. a_id a \<in> set (map l_account_id legs)) (db_accounts s))) @
     [(KeyEntry key, ForUpdate), (PeriodRow pid, ForKeyShare), (PeriodRow pid, ForShare)]"

text \<open>A capital call or a distribution locks its fund first; its document refers to the fund.\<close>

definition document_locks :: "uuid \<Rightarrow> leg list \<Rightarrow> string \<Rightarrow> uuid \<Rightarrow> db \<Rightarrow> lock list" where
  "document_locks fund_id legs key pid s =
     (FundRow fund_id, ForUpdate) # posting_locks legs key pid s @ [(FundRow fund_id, ForKeyShare)]"

definition closing_locks :: "uuid \<Rightarrow> lock list" where
  "closing_locks pid = [(PeriodRow pid, ForUpdate)]"

datatype tx = Posting "leg list" string uuid | Document uuid "leg list" string uuid | Closing uuid

fun locks_of :: "db \<Rightarrow> tx \<Rightarrow> lock list" where
  "locks_of s (Posting legs key pid) = posting_locks legs key pid s"
| "locks_of s (Document fund_id legs key pid) = document_locks fund_id legs key pid s"
| "locks_of s (Closing pid) = closing_locks pid"

text \<open>They are the rows that \<^verbatim>\<open>_lock_accounts\<close> returns.\<close>

lemma posting_locks_accounts:
  "lock_accounts legs s = Inr locked \<Longrightarrow>
     posting_locks legs key pid s = map (\<lambda>a. (AccountRow (a_id a), ForUpdate)) locked @
       [(KeyEntry key, ForUpdate), (PeriodRow pid, ForKeyShare), (PeriodRow pid, ForShare)]"
  by (simp add: lock_accounts_def posting_locks_def Let_def split: if_splits)

section \<open>The lock manager\<close>

text \<open>A session holds the locks it was granted and has others to ask for; idle, it has none.\<close>

type_synonym session = "lock list \<times> lock list"

definition idle :: session where
  "idle = ([], [])"

definition lock_granted :: "session list \<Rightarrow> nat \<Rightarrow> lock \<Rightarrow> bool" where
  "lock_granted ss i q \<longleftrightarrow>
     list_all (\<lambda>j. j = i \<or> list_all (\<lambda>h. fst h \<noteq> fst q \<or> \<not> conflict (snd h) (snd q)) (fst (ss ! j))) [0..<length ss]"

text \<open>What the transactions in flight do: take the next lock, or commit and release them all.\<close>

inductive run_step :: "session list \<Rightarrow> session list \<Rightarrow> bool" where
  acquire: "i < length ss \<Longrightarrow> ss ! i = (hs, q # qs) \<Longrightarrow> lock_granted ss i q \<Longrightarrow> run_step ss (ss[i := (hs @ [q], qs)])"
| commit: "i < length ss \<Longrightarrow> ss ! i = (hs, []) \<Longrightarrow> ss ! i \<noteq> idle \<Longrightarrow> run_step ss (ss[i := idle])"

text \<open>
  A system of sessions: each begins a transaction on the database as it finds it, and may roll
  back at any time.
\<close>

inductive reachable_locks :: "session list \<Rightarrow> bool" where
  all_idle: "reachable_locks (replicate n idle)"
| start_tx: "reachable_locks ss \<Longrightarrow> i < length ss \<Longrightarrow> ss ! i = idle \<Longrightarrow> accounts_wf s \<Longrightarrow> reachable_locks (ss[i := ([], locks_of s t)])"
| rollback: "reachable_locks ss \<Longrightarrow> i < length ss \<Longrightarrow> reachable_locks (ss[i := idle])"
| run: "reachable_locks ss \<Longrightarrow> run_step ss ss' \<Longrightarrow> reachable_locks ss'"

inductive_cases run_stepE: "run_step ss ss'"

section \<open>The order of the locks\<close>

fun rank :: "resource \<Rightarrow> nat \<times> nat" where
  "rank (FundRow f) = (0, f)"
| "rank (AccountRow a) = (1, a)"
| "rank (KeyEntry k) = (2, 0)"
| "rank (PeriodRow p) = (3, p)"

text \<open>
  The next lock is above all that are held, or on a row already held in a mode that excludes
  whatever the new one excludes.
\<close>

definition next_ok :: "lock list \<Rightarrow> lock \<Rightarrow> bool" where
  "next_ok hs q \<longleftrightarrow>
     (\<forall>h \<in> set hs. rank (fst h) < rank (fst q)) \<or>
     (\<exists>h \<in> set hs. fst h = fst q \<and> (\<forall>m. conflict m (snd q) \<longrightarrow> conflict m (snd h)))"

fun ordered :: "lock list \<Rightarrow> lock list \<Rightarrow> bool" where
  "ordered hs [] = True"
| "ordered hs (q # qs) = (next_ok hs q \<and> ordered (hs @ [q]) qs)"

lemma ordered_append: "ordered hs (xs @ ys) \<longleftrightarrow> ordered hs xs \<and> ordered (hs @ xs) ys"
  by (induction xs arbitrary: hs) auto

lemma ordered_increasing:
  "sorted_wrt (\<lambda>x y. rank (fst x) < rank (fst y)) xs \<Longrightarrow> \<forall>h \<in> set hs. \<forall>x \<in> set xs. rank (fst h) < rank (fst x) \<Longrightarrow> ordered hs xs"
proof (induction xs arbitrary: hs)
  case (Cons x xs)
  then have "ordered (hs @ [x]) xs" by (intro Cons.IH) auto
  then show ?case using Cons.prems by (auto simp: next_ok_def)
qed simp

text \<open>Sorted by distinct ids, the accounts of a posting are locked in increasing order.\<close>

lemma sorted_by_id:
  assumes "distinct (map a_id as)"
  shows "sorted_wrt (\<lambda>a b. a_id a < a_id b) (sort_key a_id as)"
proof -
  have "sorted_wrt (<) (map a_id (sort_key a_id as))"
    using assms by (simp add: strict_sorted_iff distinct_map)
  then show ?thesis by (simp add: sorted_wrt_map)
qed

lemma posting_ordered:
  assumes "accounts_wf s" and "\<forall>h \<in> set hs. \<exists>f. h = (FundRow f, ForUpdate)"
  shows "ordered hs (posting_locks legs key pid s)"
proof -
  let ?as = "sort_key a_id (filter (\<lambda>a. a_id a \<in> set (map l_account_id legs)) (db_accounts s))"
  let ?ls = "map (\<lambda>a. (AccountRow (a_id a), ForUpdate)) ?as"
  have "distinct (map a_id (filter (\<lambda>a. a_id a \<in> set (map l_account_id legs)) (db_accounts s)))"
    using assms(1) by (simp add: accounts_wf_def distinct_map_filter)
  from sorted_by_id [OF this] have "sorted_wrt (\<lambda>x y. rank (fst x) < rank (fst y)) ?ls" by (simp add: sorted_wrt_map)
  then have "ordered hs ?ls" using assms(2) by (intro ordered_increasing) auto
  then show ?thesis
    unfolding posting_locks_def ordered_append using assms(2) by (auto simp: next_ok_def conflict_def)
qed

lemma locks_ordered: "accounts_wf s \<Longrightarrow> ordered [] (locks_of s t)"
  by (cases t) (auto simp: posting_ordered document_locks_def closing_locks_def ordered_append next_ok_def conflict_def)

section \<open>No deadlock\<close>

text \<open>Every session goes up the order, and no two hold conflicting locks.\<close>

definition locks_ok :: "session list \<Rightarrow> bool" where
  "locks_ok ss \<longleftrightarrow>
     (\<forall>i < length ss. ordered (fst (ss ! i)) (snd (ss ! i))) \<and>
     (\<forall>i < length ss. \<forall>j < length ss. i \<noteq> j \<longrightarrow>
        (\<forall>h \<in> set (fst (ss ! i)). \<forall>k \<in> set (fst (ss ! j)). fst h = fst k \<longrightarrow> \<not> conflict (snd h) (snd k)))"

lemma conflict_sym: "conflict m n = conflict n m"
  by (auto simp: conflict_def)

lemma grantedD: "lock_granted ss i q \<Longrightarrow> j < length ss \<Longrightarrow> j \<noteq> i \<Longrightarrow> h \<in> set (fst (ss ! j)) \<Longrightarrow> fst h = fst q \<Longrightarrow> \<not> conflict (snd h) (snd q)"
  by (auto simp: lock_granted_def list_all_iff)

lemma locks_ok_idle: "locks_ok ss \<Longrightarrow> i < length ss \<Longrightarrow> locks_ok (ss[i := idle])"
  by (auto simp: locks_ok_def nth_list_update idle_def)

lemma locks_ok_start: "locks_ok ss \<Longrightarrow> i < length ss \<Longrightarrow> ordered [] qs \<Longrightarrow> locks_ok (ss[i := ([], qs)])"
  by (auto simp: locks_ok_def nth_list_update)

lemma locks_ok_acquire:
  assumes ok: "locks_ok ss" and i: "i < length ss" "ss ! i = (hs, q # qs)" and g: "lock_granted ss i q"
  shows "locks_ok (ss[i := (hs @ [q], qs)])"
proof -
  have "ordered (hs @ [q]) qs" using ok i by (force simp: locks_ok_def)
  moreover have "\<not> conflict (snd q) (snd h)" "\<not> conflict (snd h) (snd q)"
    if "j < length ss" "j \<noteq> i" "h \<in> set (fst (ss ! j))" "fst h = fst q" for j h
    using grantedD [OF g that] by (simp_all add: conflict_sym)
  moreover have "\<not> conflict (snd h) (snd k)" "\<not> conflict (snd k) (snd h)"
    if "j < length ss" "j \<noteq> i" "h \<in> set hs" "k \<in> set (fst (ss ! j))" "fst h = fst k" for j h k
    using ok i that unfolding locks_ok_def by (metis conflict_sym fst_conv)+
  ultimately show ?thesis
    using ok i(1) by (auto simp: locks_ok_def nth_list_update)
qed

lemma locks_ok_run: "run_step ss ss' \<Longrightarrow> locks_ok ss \<Longrightarrow> locks_ok ss'"
  by (erule run_stepE) (auto simp: locks_ok_acquire locks_ok_idle)

lemma reachable_locks_ok: "reachable_locks ss \<Longrightarrow> locks_ok ss"
proof (induction rule: reachable_locks.induct)
  case (all_idle n)
  then show ?case by (auto simp: locks_ok_def idle_def)
qed (auto simp: locks_ok_start locks_ok_idle locks_ordered intro: locks_ok_run)

text \<open>A session whose next lock is on a row it holds strongly enough never waits.\<close>

lemma covered_granted:
  assumes ok: "locks_ok ss" and i: "i < length ss" "ss ! i = (hs, q # qs)"
    and h: "h \<in> set hs" "fst h = fst q" "\<forall>m. conflict m (snd q) \<longrightarrow> conflict m (snd h)"
  shows "lock_granted ss i q"
  unfolding lock_granted_def list_all_iff
proof (clarsimp)
  fix j r m assume j: "j < length ss" "j \<noteq> i" "(fst q, m) \<in> set (fst (ss ! j))" and c: "conflict m (snd q)"
  then have "\<not> conflict m (snd h)"
    using ok i h(1,2) unfolding locks_ok_def by (metis fst_conv snd_conv)
  with h(3) c show False by blast
qed

lemma someone_goes:
  assumes ok: "locks_ok ss" and busy: "\<exists>i < length ss. ss ! i \<noteq> idle"
  shows "\<exists>ss'. run_step ss ss'"
proof (cases "\<exists>i < length ss. ss ! i \<noteq> idle \<and> snd (ss ! i) = []")
  case True
  then show ?thesis by (metis run_step.commit prod.collapse)
next
  case waiting: False
  define I where "I = {i. i < length ss \<and> ss ! i \<noteq> idle}"
  define req where "req i = hd (snd (ss ! i))" for i
  have I: "i < length ss" "\<exists>qs. ss ! i = (fst (ss ! i), req i # qs)" if "i \<in> I" for i
    using that waiting by (auto simp: I_def req_def) (metis list.exhaust_sel prod.collapse)
  show ?thesis
  proof (cases "\<exists>i \<in> I. \<exists>h \<in> set (fst (ss ! i)). fst h = fst (req i) \<and> (\<forall>m. conflict m (snd (req i)) \<longrightarrow> conflict m (snd h))")
    case True
    then obtain i h where i: "i \<in> I" and h: "h \<in> set (fst (ss ! i))" "fst h = fst (req i)"
      "\<forall>m. conflict m (snd (req i)) \<longrightarrow> conflict m (snd h)" by blast
    obtain qs where "ss ! i = (fst (ss ! i), req i # qs)" using I(2) [OF i] by blast
    with covered_granted [OF ok I(1) [OF i] this h] I(1) [OF i] show ?thesis by (metis run_step.acquire)
  next
    case upward: False
    have "finite I" "I \<noteq> {}" using busy by (auto simp: I_def)
    then obtain i where i: "i \<in> I" and top: "\<forall>j \<in> I. rank (fst (req j)) \<le> rank (fst (req i))"
      using Max_in [of "(\<lambda>i. rank (fst (req i))) ` I"] Max_ge [of "(\<lambda>i. rank (fst (req i))) ` I"] by fastforce
    have above: "rank (fst h) < rank (fst (req j))" if j: "j \<in> I" and h: "h \<in> set (fst (ss ! j))" for j h
    proof -
      obtain qs where "ss ! j = (fst (ss ! j), req j # qs)" using I(2) [OF j] by blast
      then have "next_ok (fst (ss ! j)) (req j)"
        using ok I(1) [OF j] unfolding locks_ok_def by (metis ordered.simps(2) snd_conv)
      then show ?thesis using upward j h by (auto simp: next_ok_def)
    qed
    have "lock_granted ss i (req i)"
      unfolding lock_granted_def list_all_iff
    proof (clarsimp)
      fix j m assume j: "j < length ss" "j \<noteq> i" "(fst (req i), m) \<in> set (fst (ss ! j))"
      then have "j \<in> I" by (auto simp: I_def idle_def)
      from above [OF this j(3)] top this show False by fastforce
    qed
    then show ?thesis using I [OF i] by (metis run_step.acquire)
  qed
qed

text \<open>Each step uses up one lock to take, or one commit.\<close>

definition to_do :: "session list \<Rightarrow> nat" where
  "to_do ss = sum_list (map (\<lambda>(hs, qs). length qs + (if (hs, qs) = idle then 0 else 1)) ss)"

lemma to_do_update: "i < length ss \<Longrightarrow> f y < f (ss ! i) \<Longrightarrow> sum_list (map f (ss[i := y])) < sum_list (map f ss)" for f :: "session \<Rightarrow> nat"
  by (induction ss arbitrary: i) (auto split: nat.splits simp: less_Suc_eq_0_disj)

lemma run_step_to_do: "run_step ss ss' \<Longrightarrow> to_do ss' < to_do ss"
  unfolding to_do_def by (erule run_stepE; simp only:; rule to_do_update) (auto simp: idle_def)

lemma run_step_length: "run_step ss ss' \<Longrightarrow> length ss' = length ss"
  by (erule run_stepE) auto

lemma locks_drain: "locks_ok ss \<Longrightarrow> run_step\<^sup>*\<^sup>* ss (replicate (length ss) idle)"
proof (induction ss rule: measure_induct_rule [where f = to_do])
  case (less ss)
  show ?case
  proof (cases "\<exists>i < length ss. ss ! i \<noteq> idle")
    case True
    then obtain ss' where ss': "run_step ss ss'" using someone_goes [OF less(2)] by blast
    from less(1) [OF run_step_to_do [OF this] locks_ok_run [OF this less(2)]] show ?thesis
      using ss' by (simp add: run_step_length converse_rtranclp_into_rtranclp)
  next
    case False
    then have "ss = replicate (length ss) idle" by (intro nth_equalityI) auto
    then show ?thesis by (metis rtranclp.rtrancl_refl)
  qed
qed

text \<open>
  C37: However postings, documents and closings interleave and roll back, no two sessions ever
  hold conflicting locks, so two postings on one account are never both past locking it; and
  the transactions in flight never deadlock: they can all run to their commit, none aborted.
\<close>

theorem transactions_never_deadlock:
  assumes "reachable_locks ss"
  shows "run_step\<^sup>*\<^sup>* ss (replicate (length ss) idle) \<and>
    (\<forall>i j. i < j \<and> j < length ss \<longrightarrow>
       (\<forall>h \<in> set (fst (ss ! i)). \<forall>k \<in> set (fst (ss ! j)). fst h = fst k \<longrightarrow> \<not> conflict (snd h) (snd k)))"
proof (intro conjI allI impI ballI)
  note ok = reachable_locks_ok [OF assms]
  show "run_step\<^sup>*\<^sup>* ss (replicate (length ss) idle)" by (rule locks_drain [OF ok])
  fix i j h k assume ij: "i < j \<and> j < length ss" and h: "h \<in> set (fst (ss ! i))" "k \<in> set (fst (ss ! j))" "fst h = fst k"
  then have "i < length ss" "i \<noteq> j" by simp_all
  with ok ij h show "\<not> conflict (snd h) (snd k)" unfolding locks_ok_def by blast
qed

text \<open>Two postings over the same two accounts, given in opposite orders, and a closing.\<close>

definition two_accounts :: db where
  "two_accounts = \<lparr>db_funds = [], db_lps = [], db_commitments = [], db_periods = [], db_fx_rates = [], db_navs = [],
     db_accounts = [\<lparr>a_id = 8, a_fund = 1, a_code = ''A'', a_account_type = AT_CASH, a_owner_lp = None, a_currency = ''USD'', a_created_at = 0\<rparr>,
       \<lparr>a_id = 7, a_fund = 1, a_code = ''B'', a_account_type = AT_INVESTMENT, a_owner_lp = None, a_currency = ''USD'', a_created_at = 0\<rparr>],
     db_transfers = [], db_entries = [], db_capital_calls = [], db_distributions = [], db_pending = []\<rparr>"

definition crossing_leg :: "uuid \<Rightarrow> direction \<Rightarrow> leg" where
  "crossing_leg a d = \<lparr>l_account_id = a, l_direction = d, l_amount = Decimal 1, l_fx_rate = None, l_base_amount = None\<rparr>"

definition crossing :: "tx list" where
  "crossing = [Posting [crossing_leg 8 DEBIT, crossing_leg 7 CREDIT] ''k1'' 12, Posting [crossing_leg 7 DEBIT, crossing_leg 8 CREDIT] ''k2'' 12, Closing 12]"

definition crossing_sessions :: "session list" where
  "crossing_sessions = map (\<lambda>t. ([], locks_of two_accounts t)) crossing"

lemma crossing_locks:
  "map (map fst) (map (locks_of two_accounts) crossing) =
     [[AccountRow 7, AccountRow 8, KeyEntry ''k1'', PeriodRow 12, PeriodRow 12],
      [AccountRow 7, AccountRow 8, KeyEntry ''k2'', PeriodRow 12, PeriodRow 12], [PeriodRow 12]]"
  by code_simp

lemma crossing_reachable: "reachable_locks crossing_sessions"
proof -
  have wf: "accounts_wf two_accounts" by code_simp
  let ?l = "\<lambda>i. ([], locks_of two_accounts (crossing ! i)) :: session"
  have "reachable_locks ((((replicate 3 idle)[0 := ?l 0])[1 := ?l 1])[2 := ?l 2])"
    by (intro reachable_locks.start_tx reachable_locks.all_idle wf) (simp_all add: numeral_3_eq_3 numeral_2_eq_2)
  then show ?thesis
    by (simp add: crossing_sessions_def crossing_def numeral_3_eq_3 numeral_2_eq_2)
qed

theorem transactions_never_deadlock_witness:
  "run_step\<^sup>*\<^sup>* crossing_sessions [idle, idle, idle] \<and> fst (hd (snd (hd crossing_sessions))) = AccountRow 7"
proof -
  have "length crossing_sessions = 3" "fst (hd (snd (hd crossing_sessions))) = AccountRow 7" by code_simp+
  with transactions_never_deadlock [OF crossing_reachable] show ?thesis by (simp add: numeral_3_eq_3)
qed

end
