(* ===== verification/Settings.thy ===== *)
theory Settings
  imports Access_Commands
begin

text \<open>
  \<^verbatim>\<open>config/settings.py\<close> as a function of the environment variables: what a process
  is configured with, or why it does not start. The lines are evaluated in the order of the
  file, and the first that raises stops the process.
\<close>

section \<open>Reading the environment\<close>

datatype config_error =
    MissingVariable string       \<comment> \<open>ImproperlyConfigured: missing required variable\<close>
  | BadEnvironment string        \<comment> \<open>ImproperlyConfigured: neither development nor production\<close>
  | WeakSecretKey                \<comment> \<open>ImproperlyConfigured: not a long random value\<close>
  | NotAnInteger string          \<comment> \<open>ValueError of int()\<close>

type_synonym environ = "string \<rightharpoonup> string"

definition env_var :: "environ \<Rightarrow> string \<Rightarrow> string option \<Rightarrow> config_error + string" where
  "env_var e name default_value =
     (case e name of
        Some v \<Rightarrow> Inr v
      | None \<Rightarrow> (case default_value of Some d \<Rightarrow> Inr d | None \<Rightarrow> Inl (MissingVariable name)))"

text \<open>With a default it never raises.\<close>

definition env_or :: "environ \<Rightarrow> string \<Rightarrow> string \<Rightarrow> string" where
  "env_or e name d = (case e name of Some v \<Rightarrow> v | None \<Rightarrow> d)"

lemma env_var_default [simp]: "env_var e name (Some d) = Inr (env_or e name d)"
  by (simp add: env_var_def env_or_def split: option.split)





section \<open>The settings\<close>

















section \<open>What it takes to start\<close>















end
