(* ===== verification/Spec2Isabelle.thy ===== *)
theory Spec2Isabelle
  imports Ledger_Properties Operations_Properties Reporting_Properties
    Api_Properties Access_Properties Rotation_Properties Db_Roles
    Schema_Properties Observability_Properties Locking Settings
begin

text \<open>
  A verification of the fund ledger: a double-entry ledger for private-equity funds, written in
  Python on Django, in which PostgreSQL itself refuses what would break the books. This theory
  imports all others; the properties are the theorems headed by a claim id in the theories
  whose name ends in \<open>Properties\<close>, and in \<open>Db_Roles\<close>, \<open>Locking\<close> and \<open>Settings\<close>.

  \<^bold>\<open>The program and its parts.\<close> Imports of the code point downwards:
  \<^verbatim>\<open>api\<close>, \<^verbatim>\<open>operations\<close>, \<^verbatim>\<open>ledger\<close>,
  \<^verbatim>\<open>funds\<close>, the database; \<^verbatim>\<open>access\<close> holds users' roles and API
  keys, \<^verbatim>\<open>observability\<close> and \<^verbatim>\<open>config\<close> surround the site. The engine only moves
  amounts between accounts, at most once per idempotency key; a capital call, a distribution, a
  fee, an investment or a valuation is a client of it. The theories follow that order, and each
  uses those before it:

  \<^item> \<open>Ledger_Prelude\<close>: the error and state monads (\<open>act\<close>: a state to a result or an
    exception, and a state), transactions (\<open>atomic\<close> rolls back on an exception), loops,
    dictionaries, and \<open>keeps\<close>, the preservation of an invariant, with its rules
    \<open>keeps_intros\<close>. \<open>Decimal_Money\<close>: Python's decimals as rationals with the places and the
    precision written out, and PostgreSQL's \<^verbatim>\<open>NUMERIC\<close> columns.
  \<^item> \<open>Data_Model\<close>: one record per model of \<^verbatim>\<open>funds/models.py\<close>,
    \<^verbatim>\<open>ledger/models.py\<close>, \<^verbatim>\<open>operations/models.py\<close> and
    \<^verbatim>\<open>ledger/legs.py\<close>, the exceptions, and \<open>db\<close>, the tables as lists of rows.
    \<open>Store\<close>: every write as a statement with the constraints and triggers that guard it
    (\<^verbatim>\<open>ledger/migrations/0002\<close>, \<^verbatim>\<open>0003\<close>). \<open>Store_Invariants\<close>: each
    statement keeps \<open>db_ok\<close> and only extends the ledger (\<open>step_ok\<close>). \<open>Database\<close>:
    transactions of arbitrary statements, and the databases they can reach.
  \<^item> \<open>Schema\<close>, \<open>Migrations\<close>: columns, conditions with the three truth values of SQL, constraints
    and migrations as data with a function that runs and one that undoes them; the declarations of
    all model classes and the eight migration files. \<open>Schema_Rows\<close>, \<open>Schema_Tables\<close>: the rows
    of \<open>db\<close> as that schema sees them, and that every statement of \<open>Store\<close> keeps every
    table as its class asks. \<open>Schema_Properties\<close>: the migrations build the declared models, can
    be undone, and every reachable database conforms to them.
  \<^item> \<open>Reconciliation\<close>: \<^verbatim>\<open>ledger/queries.py\<close>, \<^verbatim>\<open>ledger/reconciliation.py\<close>,
    the command \<^verbatim>\<open>reconcile\<close>. \<open>Pricing\<close>, \<open>Pricing_Correct\<close>:
    \<^verbatim>\<open>ledger/pricing.py\<close>. \<open>Engine\<close>, \<open>Engine_Correct\<close>, \<open>Posting_Succeeds\<close>:
    \<^verbatim>\<open>post_transfer\<close> with every check in the code's order, its effect on the balances
    as a refinement of adding each leg to its account, and the exact state a well-posed posting
    leaves. \<open>Idempotency\<close>: \<^verbatim>\<open>ledger/idempotency.py\<close>, fingerprints over the JSON text
    that is hashed, and the locale \<open>exactly_once\<close>: what a service needs of its
    \<^verbatim>\<open>create\<close> and \<^verbatim>\<open>replay\<close> for a key to be used once, with other
    sessions committing before and after the insert. It is interpreted on postings
    (\<open>Transfer_Service\<close>), capital calls and distributions (\<open>Operations\<close>). \<open>Retry\<close>:
    \<^verbatim>\<open>ledger/retry.py\<close>. \<open>Locking\<close>: the row locks of each kind of transaction in
    their order, a lock manager, mutual exclusion and freedom from deadlock. \<open>Db_Roles\<close>:
    \<^verbatim>\<open>ledger/db_roles.py\<close> on a catalogue of privileges.
  \<^item> \<open>Allocation\<close>, \<open>Chart\<close>, \<open>Periods\<close>, \<open>Operations\<close>, \<open>Operations_Correct\<close>,
    \<open>Statements\<close>, \<open>Nav\<close>, \<open>Demo\<close>: the files of \<^verbatim>\<open>operations/\<close> of those names,
    \<^verbatim>\<open>services.py\<close>, \<^verbatim>\<open>sandbox.py\<close> and \<^verbatim>\<open>seed_demo.py\<close>.
  \<^item> \<open>Access\<close>, \<open>Access_Commands\<close>: \<^verbatim>\<open>access/\<close> and its management commands over
    \<open>site\<close>, the database with users, memberships and keys. \<open>Site_Steps\<close>: everything that
    happens to a site as a step relation, with the locale \<open>kept_by_access\<close> for what every step
    keeps.
  \<^item> \<open>Routing\<close>, \<open>Api_Types\<close>, \<open>Api_Views\<close>, \<open>Api_Correct\<close>, \<open>Api_Replay\<close>:
    \<^verbatim>\<open>api/\<close> and the URL configuration; a request runs authentication, permission,
    throttles, the view and the exception handler. \<open>Observability\<close>: the request-id middleware
    around it, health check and metrics. \<open>Settings\<close>: \<^verbatim>\<open>config/settings.py\<close> as a
    function of the environment variables.
  \<^item> \<open>Sample_Ledger\<close>, \<open>Sample_Operations\<close>, \<open>Sample_Statements\<close>, \<open>Sample_Site\<close>: small
    concrete funds and a site, on which the theorems with hypotheses are applied.

  \<^bold>\<open>What the properties show.\<close> The database alone: whatever statements run in a transaction,
  committed data balances, is only appended to, closed periods are final, and every column,
  CHECK, UNIQUE and foreign key holds. The engine: the effect of a posting, no overdraft,
  rollback, reversal, exactly-once under interference, rounding that never unbalances a transfer,
  and progress: a well-posed posting is not refused, and concurrent ones do not deadlock. The
  fund: calls and distributions move their total by exact shares, within commitments; statements
  sum to the net asset value. The site: who may write and read, what an error leaves and reveals,
  replay over HTTP, keys and their revocation, request ids, metrics, a safe start in production.

  \<^bold>\<open>Bounds.\<close> A retry makes at most three attempts, and \<open>retry_from\<close> terminates by the attempts
  left; no other function needs fuel. The unbalanced transfers a report lists are at most 100, a
  page of entries 50; money columns hold 20 digits with 4 places, rates 10 places; decimal
  operations round to 28 digits, where the code says so to 50.

  \<^bold>\<open>Parameters.\<close> Code outside the repository is an argument: SHA-256, the drawn UUIDs and secrets,
  the clock (\<open>env\<close>); the field parsers, throttle counters, paginator, collation and
  \<^verbatim>\<open>parse_datetime\<close> of Django and REST framework (\<open>world\<close>);
  \<^verbatim>\<open>uuid5\<close> of the demo data; the text format of \<^verbatim>\<open>prometheus_client\<close>,
  the documentation pages and the database's reachability (\<open>outside\<close>). What other sessions
  commit during a service is a function on the database that keeps the database's own guarantees.

  \<^bold>\<open>Not modelled.\<close> Texts: error details, log wording, trailing zeros of decimal strings, the ISO
  text of timestamps, demo messages. Library behaviour that the code only switches on: OPTIONS
  metadata, OpenAPI annotations (\<^verbatim>\<open>api/schema.py\<close> and the annotations of the views),
  structlog's configuration, Django's admin-less start-up files, gunicorn's configuration.
  \<^verbatim>\<open>api/parsers.py\<close> is one call of \<^verbatim>\<open>json.loads\<close>, whose result is part of
  a request. Passwords, letters beyond ASCII in \<^verbatim>\<open>upper()\<close>, digits beyond ASCII in
  \<^verbatim>\<open>int()\<close>, dates beyond the range of \<^verbatim>\<open>datetime\<close>. The load test, shell scripts and
  container files are no part of the service. In \<open>Locking\<close> a session's locks are those of one
  posting, document or closing; locks that a statement takes on rows only its own transaction can
  see are left out.
\<close>

end
